(* ===== verification/Go_Prelude.thy ===== *)
theory Go_Prelude
  imports Main "HOL-Library.AList" "HOL-Library.Word" "HOL-Library.List_Lexorder"
    "HOL-Library.Char_ord"
begin

text \<open>
  Shared vocabulary of the development: Go maps, instants and durations, the string
  functions of Go's standard library that the server calls, and the capped log that the
  service and the in-memory store both keep.

  A Go map of pointers is an association list: the position of an entry stands for the
  (unspecified) order in which a range loop meets it, and the key of an entry stands for the
  pointer stored there. Every statement of the development is about an arbitrary list, so it
  holds for every iteration order. A Go string is a list of bytes, one \<^typ>\<open>char\<close> each.
  An instant is the number of nanoseconds since the Unix epoch.
\<close>

named_theorems frame \<open>state fields that an operation leaves alone\<close>
named_theorems gomap_simps \<open>lookups and keys after the operations on Go maps\<close>

section \<open>Go maps\<close>

type_synonym ('k, 'v) gomap = "('k \<times> 'v) list"

abbreviation get :: "('k, 'v) gomap \<Rightarrow> 'k \<Rightarrow> 'v option" where
  "get m k \<equiv> map_of m k"

abbreviation put :: "('k, 'v) gomap \<Rightarrow> 'k \<Rightarrow> 'v \<Rightarrow> ('k, 'v) gomap" where
  "put m k v \<equiv> AList.update k v m"

abbreviation del :: "('k, 'v) gomap \<Rightarrow> 'k \<Rightarrow> ('k, 'v) gomap" where
  "del m k \<equiv> AList.delete k m"

abbreviation vals :: "('k, 'v) gomap \<Rightarrow> 'v list" where
  "vals m \<equiv> map snd m"

text \<open>Writing a field through the pointer stored under a key; a range loop that writes
  through every pointer; the entries with distinct keys; a predicate of every entry.\<close>

definition adjust :: "'k \<Rightarrow> ('v \<Rightarrow> 'v) \<Rightarrow> ('k, 'v) gomap \<Rightarrow> ('k, 'v) gomap" where
  "adjust k f m = map (\<lambda>(k', v). (k', if k' = k then f v else v)) m"

definition each :: "('v \<Rightarrow> 'v) \<Rightarrow> ('k, 'v) gomap \<Rightarrow> ('k, 'v) gomap" where
  "each f m = map (\<lambda>(k, v). (k, f v)) m"

definition wf_map :: "('k, 'v) gomap \<Rightarrow> bool" where
  "wf_map m \<longleftrightarrow> distinct (map fst m)"

definition all_map :: "('k \<Rightarrow> 'v \<Rightarrow> bool) \<Rightarrow> ('k, 'v) gomap \<Rightarrow> bool" where
  "all_map P m \<longleftrightarrow> list_all (\<lambda>(k, v). P k v) m"

definition count_map :: "('v \<Rightarrow> bool) \<Rightarrow> ('k, 'v) gomap \<Rightarrow> nat" where
  "count_map P m = length (filter P (vals m))"

lemma adjust_Nil [simp]: "adjust k f [] = []"
  by (simp add: adjust_def)

lemma adjust_Cons [simp]:
  "adjust k f ((k', v) # m) = (k', if k' = k then f v else v) # adjust k f m"
  by (simp add: adjust_def)

lemma each_Nil [simp]: "each f [] = []"
  by (simp add: each_def)

lemma each_Cons [simp]: "each f ((k, v) # m) = (k, f v) # each f m"
  by (simp add: each_def)

lemma get_adjust [gomap_simps]:
  "get (adjust k f m) x = (if x = k then map_option f (get m k) else get m x)"
  by (induction m) (auto simp: adjust_def)

lemma get_each [gomap_simps]: "get (each f m) x = map_option f (get m x)"
  by (induction m) (auto simp: each_def)

lemma get_put [gomap_simps]: "get (put m k v) x = (if x = k then Some v else get m x)"
  by (simp add: update_conv)

lemma get_del [gomap_simps]: "get (del m k) x = (if x = k then None else get m x)"
  by (simp add: delete_conv)

lemma get_filter_None: "get m k = None \<Longrightarrow> get (filter P m) k = None"
  by (induction m) auto

lemma get_filter [gomap_simps]:
  "wf_map m \<Longrightarrow>
   get (filter (\<lambda>(k, v). P v) m) k =
     (case get m k of None \<Rightarrow> None | Some v \<Rightarrow> if P v then Some v else None)"
  unfolding wf_map_def by (induction m) (auto simp: map_of_eq_None_iff split: option.splits)

lemma wf_map_Nil [simp]: "wf_map []"
  by (simp add: wf_map_def)

lemma wf_map_adjust [simp]: "wf_map (adjust k f m) = wf_map m"
  by (simp add: wf_map_def adjust_def comp_def split_def)

lemma wf_map_each [simp]: "wf_map (each f m) = wf_map m"
  by (simp add: wf_map_def each_def comp_def split_def)

lemma wf_map_put [simp]: "wf_map m \<Longrightarrow> wf_map (put m k v)"
  by (simp add: wf_map_def distinct_update)

lemma wf_map_del [simp]: "wf_map m \<Longrightarrow> wf_map (del m k)"
  by (simp add: wf_map_def distinct_delete)

lemma wf_map_filter [simp]: "wf_map m \<Longrightarrow> wf_map (filter P m)"
  by (simp add: wf_map_def distinct_map_filter)

lemma wf_map_get: "wf_map m \<Longrightarrow> get m k = Some v \<longleftrightarrow> (k, v) \<in> set m"
  by (simp add: wf_map_def)

lemma all_mapI: "(\<And>k v. (k, v) \<in> set m \<Longrightarrow> P k v) \<Longrightarrow> all_map P m"
  by (auto simp: all_map_def list_all_iff)

lemma all_mapD: "all_map P m \<Longrightarrow> get m k = Some v \<Longrightarrow> P k v"
  by (auto simp: all_map_def list_all_iff dest: map_of_SomeD)

lemma all_mapD_set: "all_map P m \<Longrightarrow> (k, v) \<in> set m \<Longrightarrow> P k v"
  by (auto simp: all_map_def list_all_iff)

lemma all_map_Nil [simp]: "all_map P []"
  by (simp add: all_map_def)

lemma set_put: "(k', v') \<in> set (put m k v) \<Longrightarrow> (k' = k \<and> v' = v) \<or> (k', v') \<in> set m"
  by (induction m) (auto split: if_splits)

lemma all_map_put: "all_map P m \<Longrightarrow> P k v \<Longrightarrow> all_map P (put m k v)"
  by (auto intro!: all_mapI dest!: set_put dest: all_mapD_set)

lemma all_map_filter: "all_map P m \<Longrightarrow> all_map P (filter Q m)"
  by (auto simp: all_map_def list_all_iff)

lemma all_map_del: "all_map P m \<Longrightarrow> all_map P (del m k)"
  by (simp add: AList.delete_eq all_map_filter)

lemma all_map_adjust:
  "all_map P m \<Longrightarrow> (\<And>v. (k, v) \<in> set m \<Longrightarrow> P k v \<Longrightarrow> P k (f v)) \<Longrightarrow> all_map P (adjust k f m)"
  by (fastforce simp: all_map_def list_all_iff adjust_def)

lemma all_map_each:
  "all_map P m \<Longrightarrow> (\<And>k v. (k, v) \<in> set m \<Longrightarrow> P k v \<Longrightarrow> Q k (f v)) \<Longrightarrow> all_map Q (each f m)"
  by (auto simp: all_map_def list_all_iff each_def)

lemma all_map_mono:
  "all_map P m \<Longrightarrow> (\<And>k v. (k, v) \<in> set m \<Longrightarrow> P k v \<Longrightarrow> Q k v) \<Longrightarrow> all_map Q m"
  by (auto simp: all_map_def list_all_iff)

lemma put_new: "get m k = None \<Longrightarrow> put m k v = m @ [(k, v)]"
  by (induction m) (auto split: if_splits)

lemma count_put_new:
  "get m k = None \<Longrightarrow> count_map P (put m k v) = count_map P m + (if P v then 1 else 0)"
  by (simp add: count_map_def put_new)

lemma count_each_le:
  "(\<And>v. P (f v) \<Longrightarrow> P v) \<Longrightarrow> count_map P (each f m) \<le> count_map P m"
  by (induction m) (auto simp: count_map_def each_def)

lemma count_adjust_le:
  assumes "\<And>v. (k, v) \<in> set m \<Longrightarrow> P (f v) \<Longrightarrow> P v"
  shows "count_map P (adjust k f m) \<le> count_map P m"
  using assms
proof (induction m)
  case Nil
  then show ?case by simp
next
  case (Cons e m)
  have "count_map P (adjust k f m) \<le> count_map P m"
    by (rule Cons.IH) (auto intro: Cons.prems)
  with Cons.prems show ?case
    by (cases e) (auto simp: count_map_def)
qed

lemma count_filter_le: "count_map P (filter Q m) \<le> count_map P m"
  by (induction m) (auto simp: count_map_def)

section \<open>A log with a cap\<close>

text \<open>\<open>append\<close> followed by dropping the oldest events beyond the cap, as both audit logs
  do.\<close>

definition append_capped :: "nat \<Rightarrow> 'a list \<Rightarrow> 'a \<Rightarrow> 'a list" where
  "append_capped cap xs x =
     (let ys = xs @ [x] in if length ys > cap then drop (length ys - cap) ys else ys)"

lemma append_capped_length: "length (append_capped cap xs x) = min cap (length xs + 1)"
  by (auto simp: append_capped_def Let_def)

lemma append_capped_last: "0 < cap \<Longrightarrow> last (append_capped cap xs x) = x"
  by (auto simp: append_capped_def Let_def last_drop)

lemma append_capped_subset: "set (append_capped cap xs x) \<subseteq> insert x (set xs)"
  by (auto simp: append_capped_def Let_def dest: in_set_dropD)

lemma append_capped_suffix:
  "append_capped cap xs x = drop (length xs + 1 - cap) (xs @ [x])"
  by (simp add: append_capped_def Let_def)

section \<open>Instants and durations\<close>

type_synonym time = int
type_synonym duration = int

definition second :: duration where "second = 1000000000"
definition minute :: duration where "minute = 60 * second"
definition hour :: duration where "hour = 60 * minute"

lemmas duration_defs = second_def minute_def hour_def

text \<open>Go's zero \<open>time.Time\<close> is the first of January of the year 1, UTC.\<close>

definition zero_time :: time where "zero_time = - 62135596800 * 1000000000"

text \<open>\<open>Time.Sub\<close> saturates at the bounds of the 64-bit \<open>Duration\<close>; \<open>Time.Unix\<close>
  rounds towards the past.\<close>

definition time_sub :: "time \<Rightarrow> time \<Rightarrow> duration" where
  "time_sub a b = max (- (2 ^ 63)) (min (2 ^ 63 - 1) (a - b))"

definition unix_seconds :: "time \<Rightarrow> int" where
  "unix_seconds t = t div 1000000000"

lemma unix_seconds_mono: "a \<le> b \<Longrightarrow> unix_seconds a \<le> unix_seconds b"
  by (simp add: unix_seconds_def zdiv_mono1)

lemma unix_seconds_add: "unix_seconds (t + n * 1000000000) = unix_seconds t + n"
  by (simp add: unix_seconds_def)

section \<open>Strings\<close>

definition HasPrefix :: "string \<Rightarrow> string \<Rightarrow> bool" where
  "HasPrefix s p \<longleftrightarrow> take (length p) s = p"

definition TrimPrefix :: "string \<Rightarrow> string \<Rightarrow> string" where
  "TrimPrefix s p = (if HasPrefix s p then drop (length p) s else s)"

lemma HasPrefix_append [simp]: "HasPrefix (p @ s) p"
  by (simp add: HasPrefix_def)

lemma TrimPrefix_append [simp]: "TrimPrefix (p @ s) p = s"
  by (simp add: TrimPrefix_def)

text \<open>\<open>strings.ReplaceAll(s, " ", "")\<close>, \<open>strings.ContainsAny\<close> and
  \<open>strings.Contains\<close>.\<close>

definition strip_spaces :: "string \<Rightarrow> string" where
  "strip_spaces s = filter (\<lambda>c. c \<noteq> CHR '' '') s"

definition ContainsAny :: "string \<Rightarrow> string \<Rightarrow> bool" where
  "ContainsAny s cs \<longleftrightarrow> list_ex (\<lambda>c. c \<in> set cs) s"

fun ContainsStr :: "string \<Rightarrow> string \<Rightarrow> bool" where
  "ContainsStr [] w = (w = [])"
| "ContainsStr (c # s) w = (HasPrefix (c # s) w \<or> ContainsStr s w)"

text \<open>\<open>strings.Split\<close> at a one-byte separator: always at least one part.\<close>

fun split_at :: "char \<Rightarrow> string \<Rightarrow> string list" where
  "split_at d [] = [[]]"
| "split_at d (c # s) =
     (if c = d then [] # split_at d s
      else case split_at d s of [] \<Rightarrow> [[c]] | p # ps \<Rightarrow> (c # p) # ps)"

lemma split_at_nonempty [simp]: "split_at d s \<noteq> []"
  by (induction s) (auto split: list.splits)

lemma split_at_no_sep: "d \<notin> set p \<Longrightarrow> split_at d p = [p]"
  by (induction p) auto

lemma split_at_append: "d \<notin> set p \<Longrightarrow> split_at d (p @ d # s) = p # split_at d s"
  by (induction p) auto

text \<open>\<open>strings.TrimSpace\<close> removes the code points with the Unicode property White Space
  at both ends, each here as its UTF-8 bytes.\<close>

definition space_runes :: "string list" where
  "space_runes =
     [[CHR 0x09], [CHR 0x0A], [CHR 0x0B], [CHR 0x0C], [CHR 0x0D], [CHR 0x20],
      [CHR 0xC2, CHR 0x85], [CHR 0xC2, CHR 0xA0], [CHR 0xE1, CHR 0x9A, CHR 0x80]]
     @ map (\<lambda>c. [CHR 0xE2, CHR 0x80, c])
         [CHR 0x80, CHR 0x81, CHR 0x82, CHR 0x83, CHR 0x84, CHR 0x85, CHR 0x86, CHR 0x87,
          CHR 0x88, CHR 0x89, CHR 0x8A, CHR 0xA8, CHR 0xA9, CHR 0xAF]
     @ [[CHR 0xE2, CHR 0x81, CHR 0x9F], [CHR 0xE3, CHR 0x80, CHR 0x80]]"

function strip_runes :: "string list \<Rightarrow> string \<Rightarrow> string" where
  "strip_runes ws s =
     (case find (\<lambda>w. w \<noteq> [] \<and> HasPrefix s w) ws of
        None \<Rightarrow> s
      | Some w \<Rightarrow> strip_runes ws (drop (length w) s))"
  by pat_completeness auto
termination
  by (relation "measure (\<lambda>(ws, s). length s)")
     (auto simp: find_Some_iff HasPrefix_def intro!: diff_less)

declare strip_runes.simps [simp del]

definition TrimSpace :: "string \<Rightarrow> string" where
  "TrimSpace s =
     rev (strip_runes (map rev space_runes) (rev (strip_runes space_runes s)))"

lemma strip_runes_id:
  assumes "\<forall>w \<in> set ws. w \<noteq> [] \<longrightarrow> \<not> HasPrefix s w"
  shows "strip_runes ws s = s"
proof -
  from assms have "find (\<lambda>w. w \<noteq> [] \<and> HasPrefix s w) ws = None"
    by (auto simp: find_None_iff)
  then show ?thesis by (simp add: strip_runes.simps)
qed

lemma HasPrefix_mem: "HasPrefix s w \<Longrightarrow> w \<noteq> [] \<Longrightarrow> hd w \<in> set s"
  by (cases s; cases w) (auto simp: HasPrefix_def)

lemma TrimSpace_id:
  assumes "set s \<inter> set (concat space_runes) = {}"
  shows "TrimSpace s = s"
proof -
  have *: "hd w \<notin> set s" if "w \<in> set space_runes \<union> set (map rev space_runes)" and "w \<noteq> []" for w
  proof -
    from that(1) have "set w \<subseteq> set (concat space_runes)" by auto
    with hd_in_set[OF that(2)] assms show ?thesis by blast
  qed
  have "strip_runes space_runes s = s"
    by (rule strip_runes_id) (use * HasPrefix_mem in blast)
  moreover have "strip_runes (map rev space_runes) (rev s) = rev s"
  proof (rule strip_runes_id, intro ballI impI notI)
    fix w assume w: "w \<in> set (map rev space_runes)" "w \<noteq> []" and p: "HasPrefix (rev s) w"
    from HasPrefix_mem[OF p w(2)] have "hd w \<in> set s" by simp
    with * w show False by blast
  qed
  ultimately show ?thesis by (simp add: TrimSpace_def)
qed

text \<open>\<open>strings.ToLower\<close> works bytewise on an ASCII string; any other string goes through
  the Unicode tables, which are the parameter \<open>uni\<close>.\<close>

definition is_ascii :: "string \<Rightarrow> bool" where
  "is_ascii s \<longleftrightarrow> list_all (\<lambda>c. of_char c < (128 :: nat)) s"

definition lower_byte :: "char \<Rightarrow> char" where
  "lower_byte c =
     (let n = of_char c :: nat in if 65 \<le> n \<and> n \<le> 90 then char_of (n + 32) else c)"

definition ToLower :: "(string \<Rightarrow> string) \<Rightarrow> string \<Rightarrow> string" where
  "ToLower uni s = (if is_ascii s then map lower_byte s else uni s)"

text \<open>\<open>strconv.FormatInt(i, 10)\<close>.\<close>

fun nat_digits :: "nat \<Rightarrow> string" where
  "nat_digits n =
     (if n < 10 then [char_of (48 + n)] else nat_digits (n div 10) @ [char_of (48 + n mod 10)])"

declare nat_digits.simps [simp del]

definition FormatInt :: "int \<Rightarrow> string" where
  "FormatInt i = (if i < 0 then CHR ''-'' # nat_digits (nat (- i)) else nat_digits (nat i))"

definition digits_value :: "string \<Rightarrow> nat" where
  "digits_value s = foldl (\<lambda>a c. a * 10 + (of_char c - 48)) 0 s"

lemma digits_value_nat_digits: "digits_value (nat_digits n) = n"
proof (induction n rule: nat_digits.induct)
  case (1 n)
  have d: "(of_char (char_of (48 + k) :: char) :: nat) - 48 = k" if "k < 10" for k
    using that by (simp add: of_char_of)
  show ?case
  proof (cases "n < 10")
    case True
    then show ?thesis by (simp add: nat_digits.simps[of n] digits_value_def d)
  next
    case False
    with 1 have "foldl (\<lambda>a c. a * 10 + (of_char c - 48)) 0 (nat_digits (n div 10)) = n div 10"
      by (simp add: digits_value_def)
    with False show ?thesis
      using d[of "n mod 10"] by (simp add: nat_digits.simps[of n] digits_value_def)
  qed
qed

lemma nat_digits_range:
  "c \<in> set (nat_digits n) \<Longrightarrow> 48 \<le> (of_char c :: nat) \<and> (of_char c :: nat) < 58"
proof (induction n rule: nat_digits.induct)
  case (1 n)
  have d: "48 \<le> (of_char (char_of (48 + k) :: char) :: nat) \<and>
      (of_char (char_of (48 + k) :: char) :: nat) < 58" if "k < 10" for k :: nat
    using that by (simp add: of_char_of)
  show ?case
  proof (cases "n < 10")
    case True
    with 1(2) d[of n] show ?thesis by (simp add: nat_digits.simps[of n])
  next
    case False
    with 1(2) consider "c \<in> set (nat_digits (n div 10))" | "c = char_of (48 + n mod 10)"
      by (auto simp: nat_digits.simps[of n])
    then show ?thesis
      using 1(1) False d[of "n mod 10"] by cases auto
  qed
qed

lemma nat_digits_inj: "nat_digits m = nat_digits n \<Longrightarrow> m = n"
  by (metis digits_value_nat_digits)

lemma nat_digits_not_minus: "CHR ''-'' \<notin> set (nat_digits n)"
  using nat_digits_range[of "CHR ''-''" n] by auto

lemma nat_digits_no_minus_head: "nat_digits n \<noteq> CHR ''-'' # s"
  using nat_digits_not_minus[of n] by (metis list.set_intros(1))

lemma FormatInt_inj: "FormatInt i = FormatInt j \<Longrightarrow> i = j"
  using nat_digits_no_minus_head
  by (auto simp: FormatInt_def split: if_splits dest: nat_digits_inj dest!: sym[of "_ # _"])

lemma FormatInt_no_colon: "CHR '':'' \<notin> set (FormatInt i)"
  using nat_digits_range[of "CHR '':''"] by (auto simp: FormatInt_def)

end
