(* ===== verification/Permissions.thy ===== *)
theory Permissions
  imports Go_Prelude
begin

text \<open>
  The permission vocabulary of \<open>internal/platform/service.go\<close>: the thirteen known names, the
  membership tests over a slice of permissions, and the part of \<open>handover\<close> that takes input
  control away from a session or adds it.
\<close>

type_synonym Permission = string

definition View :: Permission where "View = ''view''"
definition Mouse :: Permission where "Mouse = ''mouse''"
definition Keyboard :: Permission where "Keyboard = ''keyboard''"

definition permissions :: "Permission list" where
  "permissions =
     [''view'', ''mouse'', ''keyboard'', ''files'', ''clipboard'', ''audio'', ''microphone'',
      ''system_info'', ''restart_app'', ''restart_computer'', ''record'', ''ai_analysis'',
      ''workflows'']"

fun contains :: "Permission list \<Rightarrow> Permission \<Rightarrow> bool" where
  "contains [] v = False"
| "contains (x # p) v = (if x = v then True else contains p v)"

definition controls :: "Permission list \<Rightarrow> bool" where
  "controls p \<longleftrightarrow> contains p Mouse \<or> contains p Keyboard"

fun valid_loop :: "Permission list \<Rightarrow> Permission list \<Rightarrow> bool" where
  "valid_loop seen [] = True"
| "valid_loop seen (x # p) =
     (if x \<notin> set permissions \<or> x \<in> set seen then False else valid_loop (x # seen) p)"

definition validPermissions :: "Permission list \<Rightarrow> bool" where
  "validPermissions p =
     (if length p = 0 \<or> length p > length permissions \<or> \<not> contains p View then False
      else valid_loop [] p)"

fun perm_subset :: "Permission list \<Rightarrow> Permission list \<Rightarrow> bool" where
  "perm_subset [] b = True"
| "perm_subset (x # a) b = (if \<not> contains b x then False else perm_subset a b)"

text \<open>The two inner loops of \<open>handover\<close>.\<close>

fun drop_controls :: "Permission list \<Rightarrow> Permission list" where
  "drop_controls [] = []"
| "drop_controls (p # ps) =
     (if p \<noteq> Mouse \<and> p \<noteq> Keyboard then p # drop_controls ps else drop_controls ps)"

definition grant_controls :: "Permission list \<Rightarrow> Permission list \<Rightarrow> Permission list" where
  "grant_controls requested granted =
     fold (\<lambda>p g. if contains requested p \<and> \<not> contains g p then g @ [p] else g)
       [Mouse, Keyboard] granted"

section \<open>What the loops compute\<close>

lemmas perm_names = View_def Mouse_def Keyboard_def

lemma contains_iff [simp]: "contains p v \<longleftrightarrow> v \<in> set p"
  by (induction p) auto

lemma perm_subset_iff [simp]: "perm_subset a b \<longleftrightarrow> set a \<subseteq> set b"
  by (induction a) auto

lemma controls_iff: "controls p \<longleftrightarrow> Mouse \<in> set p \<or> Keyboard \<in> set p"
  by (simp add: controls_def)

lemma controls_Nil [simp]: "\<not> controls []"
  by (simp add: controls_def)

lemma valid_loop_iff:
  "valid_loop seen p \<longleftrightarrow> distinct p \<and> set p \<subseteq> set permissions \<and> set p \<inter> set seen = {}"
  by (induction p arbitrary: seen) auto

lemma drop_controls_filter: "drop_controls p = filter (\<lambda>x. x \<noteq> Mouse \<and> x \<noteq> Keyboard) p"
  by (induction p) auto

lemma drop_controls_no_control [simp]: "\<not> controls (drop_controls p)"
  by (auto simp: drop_controls_filter controls_iff)

lemma set_drop_controls [simp]: "set (drop_controls p) = set p - {Mouse, Keyboard}"
  by (auto simp: drop_controls_filter)

lemma distinct_drop_controls [simp]: "distinct p \<Longrightarrow> distinct (drop_controls p)"
  by (simp add: drop_controls_filter)

lemma set_grant_controls:
  "set (grant_controls r g) = set g \<union> (set r \<inter> {Mouse, Keyboard})"
  by (auto simp: grant_controls_def)

lemma distinct_grant_controls: "distinct g \<Longrightarrow> distinct (grant_controls r g)"
  by (auto simp: grant_controls_def)

lemma grant_controls_subset: "set g \<subseteq> set r \<Longrightarrow> set (grant_controls r g) \<subseteq> set r"
  by (auto simp: set_grant_controls)

lemma distinct_permissions: "distinct permissions"
  by (simp add: permissions_def)

lemma valid_length:
  assumes "distinct p" and "set p \<subseteq> set permissions"
  shows "length p \<le> length permissions"
  using card_mono[OF _ assms(2)] assms(1) distinct_permissions
  by (simp add: distinct_card)

lemma validPermissions_sets:
  "validPermissions p \<longleftrightarrow> View \<in> set p \<and> distinct p \<and> set p \<subseteq> set permissions"
  using valid_length[of p] by (auto simp: validPermissions_def valid_loop_iff)

text \<open>\<open>validPermissions\<close> accepts exactly the duplicate-free lists of known permissions that
  include \<open>view\<close>: the length guard of the code rejects nothing that the loop accepts.\<close>

theorem validPermissions_iff:
  "validPermissions p \<longleftrightarrow> View \<in> set p \<and> distinct p \<and> set p \<subseteq> set permissions"
  by (rule validPermissions_sets)

end
