(* ===== verification/Go_Codec.thy ===== *)
theory Go_Codec
  imports Go_Prelude
begin

text \<open>
  The text encodings of Go's standard library that the server relies on: lower-case
  \<open>encoding/hex\<close>, and \<open>encoding/base64\<close> in its \<open>StdEncoding\<close> (padded) and
  \<open>RawURLEncoding\<close> (unpadded) forms. Decoding follows the library: line breaks are skipped,
  any other foreign byte is an error, and the unused low bits of a final group are not checked.
\<close>

section \<open>Hexadecimal\<close>

definition hex_digits :: string where "hex_digits = ''0123456789abcdef''"

definition hex_byte :: "char \<Rightarrow> string" where
  "hex_byte c = (let n = of_char c :: nat in [hex_digits ! (n div 16), hex_digits ! (n mod 16)])"

definition hex_encode :: "string \<Rightarrow> string" where
  "hex_encode s = concat (map hex_byte s)"

lemma of_char_lt_256 [simp]: "(of_char c :: nat) < 256"
  by (rule nat_of_char_less_256)

lemma hex_digits_inj: "i < 16 \<Longrightarrow> j < 16 \<Longrightarrow> hex_digits ! i = hex_digits ! j \<longleftrightarrow> i = j"
  by (rule nth_eq_iff_index_eq) (simp_all add: hex_digits_def)

lemma hex_byte_inj: "hex_byte c = hex_byte d \<Longrightarrow> c = d"
proof -
  assume "hex_byte c = hex_byte d"
  moreover have "(of_char x :: nat) div 16 < 16" for x
    using of_char_lt_256[of x] by linarith
  ultimately have "(of_char c :: nat) div 16 = of_char d div 16"
    and "(of_char c :: nat) mod 16 = of_char d mod 16"
    by (simp_all add: hex_byte_def Let_def hex_digits_inj)
  then have "(of_char c :: nat) = of_char d"
    by (metis div_mult_mod_eq)
  then show ?thesis by simp
qed

lemma length_hex_byte [simp]: "length (hex_byte c) = 2"
  by (simp add: hex_byte_def Let_def)

lemma hex_encode_Nil [simp]: "hex_encode [] = []"
  by (simp add: hex_encode_def)

lemma hex_encode_Cons [simp]: "hex_encode (c # s) = hex_byte c @ hex_encode s"
  by (simp add: hex_encode_def)

lemma hex_encode_inj: "hex_encode s = hex_encode t \<Longrightarrow> s = t"
proof (induction s arbitrary: t)
  case Nil
  then show ?case by (cases t) (simp_all add: hex_byte_def Let_def)
next
  case (Cons c s)
  then obtain d t' where t: "t = d # t'"
    by (cases t) (auto simp: hex_byte_def Let_def)
  with Cons.prems have "hex_byte c = hex_byte d \<and> hex_encode s = hex_encode t'"
    by (simp add: append_eq_append_conv)
  with t Cons.IH show ?case by (auto dest: hex_byte_inj)
qed

section \<open>Base 64\<close>

definition alphabet_std :: string where
  "alphabet_std = ''ABCDEFGHIJKLMNOPQRSTUVWXYZabcdefghijklmnopqrstuvwxyz0123456789+/''"

definition alphabet_url :: string where
  "alphabet_url = ''ABCDEFGHIJKLMNOPQRSTUVWXYZabcdefghijklmnopqrstuvwxyz0123456789-_''"

definition alphabet_ok :: "string \<Rightarrow> bool" where
  "alphabet_ok A \<longleftrightarrow> length A = 64 \<and> distinct A \<and> CHR ''='' \<notin> set A \<and>
     CHR 0x0A \<notin> set A \<and> CHR 0x0D \<notin> set A"

lemma alphabet_std_ok: "alphabet_ok alphabet_std"
  by (simp add: alphabet_ok_def alphabet_std_def)

lemma alphabet_url_ok: "alphabet_ok alphabet_url"
  by (simp add: alphabet_ok_def alphabet_url_def)

fun b64_encode :: "string \<Rightarrow> bool \<Rightarrow> string \<Rightarrow> string" where
  "b64_encode A pad [] = []"
| "b64_encode A pad [a] =
     (let x = of_char a :: nat
      in [A ! (x div 4), A ! (x mod 4 * 16)] @ (if pad then ''=='' else []))"
| "b64_encode A pad [a, b] =
     (let x = of_char a :: nat; y = of_char b :: nat
      in [A ! (x div 4), A ! (x mod 4 * 16 + y div 16), A ! (y mod 16 * 4)]
         @ (if pad then ''='' else []))"
| "b64_encode A pad (a # b # c # s) =
     (let x = of_char a :: nat; y = of_char b :: nat; z = of_char c :: nat
      in [A ! (x div 4), A ! (x mod 4 * 16 + y div 16), A ! (y mod 16 * 4 + z div 64),
          A ! (z mod 64)] @ b64_encode A pad s)"

definition b64_value :: "string \<Rightarrow> char \<Rightarrow> nat option" where
  "b64_value A c = map_of (zip A [0..<length A]) c"

definition byte1 :: "nat \<Rightarrow> nat \<Rightarrow> char" where "byte1 w x = char_of (w * 4 + x div 16)"
definition byte2 :: "nat \<Rightarrow> nat \<Rightarrow> char" where "byte2 x y = char_of (x mod 16 * 16 + y div 4)"
definition byte3 :: "nat \<Rightarrow> nat \<Rightarrow> char" where "byte3 y z = char_of (y mod 4 * 64 + z)"

definition b64_group2 :: "string \<Rightarrow> char \<Rightarrow> char \<Rightarrow> string option" where
  "b64_group2 A p q =
     (case (b64_value A p, b64_value A q) of
        (Some w, Some x) \<Rightarrow> Some [byte1 w x]
      | _ \<Rightarrow> None)"

definition b64_group3 :: "string \<Rightarrow> char \<Rightarrow> char \<Rightarrow> char \<Rightarrow> string option" where
  "b64_group3 A p q r =
     (case (b64_value A p, b64_value A q, b64_value A r) of
        (Some w, Some x, Some y) \<Rightarrow> Some [byte1 w x, byte2 x y]
      | _ \<Rightarrow> None)"

definition b64_group4 :: "string \<Rightarrow> char \<Rightarrow> char \<Rightarrow> char \<Rightarrow> char \<Rightarrow> string option" where
  "b64_group4 A p q r t =
     (case (b64_value A p, b64_value A q, b64_value A r, b64_value A t) of
        (Some w, Some x, Some y, Some z) \<Rightarrow> Some [byte1 w x, byte2 x y, byte3 y z]
      | _ \<Rightarrow> None)"

text \<open>\<open>b64_quanta\<close> reads a text without line breaks: without padding a final group of two or
  three digits is allowed, with padding it must be filled up by \<open>=\<close> and be the last.\<close>

fun b64_quanta :: "string \<Rightarrow> bool \<Rightarrow> string \<Rightarrow> string option" where
  "b64_quanta A pad [] = Some []"
| "b64_quanta A pad [p] = None"
| "b64_quanta A pad [p, q] = (if pad then None else b64_group2 A p q)"
| "b64_quanta A pad [p, q, r] = (if pad then None else b64_group3 A p q r)"
| "b64_quanta A pad (p # q # r # t # s) =
     (if pad \<and> r = CHR ''='' then
        (if t = CHR ''='' \<and> s = [] then b64_group2 A p q else None)
      else if pad \<and> t = CHR ''='' then
        (if s = [] then b64_group3 A p q r else None)
      else
        (case b64_group4 A p q r t of
           None \<Rightarrow> None
         | Some g \<Rightarrow> map_option ((@) g) (b64_quanta A pad s)))"

definition no_breaks :: "string \<Rightarrow> string" where
  "no_breaks s = filter (\<lambda>c. c \<noteq> CHR 0x0A \<and> c \<noteq> CHR 0x0D) s"

definition StdEncode :: "string \<Rightarrow> string" where
  "StdEncode s = b64_encode alphabet_std True s"

definition StdDecode :: "string \<Rightarrow> string option" where
  "StdDecode s = b64_quanta alphabet_std True (no_breaks s)"

definition RawURLEncode :: "string \<Rightarrow> string" where
  "RawURLEncode s = b64_encode alphabet_url False s"

definition RawURLDecode :: "string \<Rightarrow> string option" where
  "RawURLDecode s = b64_quanta alphabet_url False (no_breaks s)"

section \<open>Decoding undoes encoding\<close>

lemma b64_value_nth:
  "alphabet_ok A \<Longrightarrow> n < 64 \<Longrightarrow> b64_value A (A ! n) = Some n"
  unfolding b64_value_def alphabet_ok_def
  by (simp add: map_of_zip_nth)

lemma alphabet_nth_in: "alphabet_ok A \<Longrightarrow> n < 64 \<Longrightarrow> A ! n \<in> set A"
  by (simp add: alphabet_ok_def)

lemma alphabet_nth_not_pad: "alphabet_ok A \<Longrightarrow> n < 64 \<Longrightarrow> A ! n \<noteq> CHR ''=''"
  using alphabet_nth_in by (fastforce simp: alphabet_ok_def)

lemma sextet_bounds:
  "(x :: nat) < 256 \<Longrightarrow> x div 4 < 64"
  "x mod 4 * 16 < (64 :: nat)"
  "y < 256 \<Longrightarrow> x mod 4 * 16 + y div 16 < (64 :: nat)"
  "y mod 16 * 4 < (64 :: nat)"
  "z < 256 \<Longrightarrow> y mod 16 * 4 + z div 64 < (64 :: nat)"
  by linarith+

lemma high_bits:
  "(of_char c :: nat) div 16 mod 16 = of_char c div 16"
  "(of_char c :: nat) div 64 mod 4 = of_char c div 64"
proof -
  have lt: "(of_char c :: nat) < 256" by simp
  from lt show "(of_char c :: nat) div 16 mod 16 = of_char c div 16" by (intro mod_less) linarith
  from lt show "(of_char c :: nat) div 64 mod 4 = of_char c div 64" by (intro mod_less) linarith
qed

lemma byte1_inv:
  "byte1 (of_char a div 4) (of_char a mod 4 * 16 + of_char b div 16) = a"
proof -
  have "(of_char a mod 4 * 16 + of_char b div 16) div 16 = (of_char a :: nat) mod 4"
    using of_char_lt_256[of b] by linarith
  then show ?thesis by (simp add: byte1_def)
qed

lemma byte1_inv_last: "byte1 (of_char a div 4) (of_char a mod 4 * 16) = a"
  by (simp add: byte1_def)

lemma byte2_inv:
  "byte2 (x * 16 + of_char b div 16) (of_char b mod 16 * 4 + of_char c div 64) = b"
proof -
  have "(x * 16 + of_char b div 16) mod 16 = (of_char b :: nat) div 16"
    by (simp add: high_bits)
  moreover have "(of_char b mod 16 * 4 + of_char c div 64) div 4 = (of_char b :: nat) mod 16"
    using of_char_lt_256[of c] by linarith
  ultimately show ?thesis by (simp add: byte2_def)
qed

lemma byte2_inv_last: "byte2 (x * 16 + of_char b div 16) (of_char b mod 16 * 4) = b"
proof -
  have "(x * 16 + of_char b div 16) mod 16 = (of_char b :: nat) div 16"
    by (simp add: high_bits)
  then show ?thesis by (simp add: byte2_def)
qed

lemma byte3_inv: "byte3 (y * 4 + of_char c div 64) (of_char c mod 64) = c"
proof -
  have "(y * 4 + of_char c div 64) mod 4 = (of_char c :: nat) div 64"
    by (simp add: high_bits)
  then show ?thesis by (simp add: byte3_def)
qed

lemmas byte_invs = byte1_inv byte1_inv_last byte2_inv byte2_inv_last byte3_inv
lemmas b64_groups = b64_group2_def b64_group3_def b64_group4_def

lemma b64_quanta_encode:
  assumes A: "alphabet_ok A"
  shows "b64_quanta A pad (b64_encode A pad s) = Some s"
  using assms
proof (induction A pad s rule: b64_encode.induct)
  case (1 A pad)
  then show ?case by simp
next
  case (2 A pad a)
  then show ?case
    using of_char_lt_256[of a]
    by (simp add: Let_def b64_groups b64_value_nth sextet_bounds byte_invs)
next
  case (3 A pad a b)
  then show ?case
    using of_char_lt_256[of a] of_char_lt_256[of b]
    by (simp add: Let_def b64_groups b64_value_nth sextet_bounds byte_invs alphabet_nth_not_pad)
next
  case (4 A pad a b c s)
  then have "b64_quanta A pad (b64_encode A pad s) = Some s"
    by simp
  with 4 show ?case
    using of_char_lt_256[of a] of_char_lt_256[of b] of_char_lt_256[of c]
    by (simp add: Let_def b64_groups b64_value_nth sextet_bounds byte_invs
        alphabet_nth_not_pad)
qed

lemma b64_encode_set:
  assumes "alphabet_ok A"
  shows "set (b64_encode A pad s) \<subseteq> set A \<union> (if pad then {CHR ''=''} else {})"
  using assms
proof (induction A pad s rule: b64_encode.induct)
  case (1 A pad)
  then show ?case by simp
next
  case (2 A pad a)
  then show ?case
    using of_char_lt_256[of a] by (simp add: Let_def alphabet_nth_in sextet_bounds)
next
  case (3 A pad a b)
  then show ?case
    using of_char_lt_256[of a] of_char_lt_256[of b]
    by (simp add: Let_def alphabet_nth_in sextet_bounds)
next
  case (4 A pad a b c s)
  then show ?case
    using of_char_lt_256[of a] of_char_lt_256[of b] of_char_lt_256[of c]
    by (simp add: Let_def alphabet_nth_in sextet_bounds)
qed

lemma no_breaks_encode:
  assumes "alphabet_ok A"
  shows "no_breaks (b64_encode A pad s) = b64_encode A pad s"
proof -
  have "\<forall>c \<in> set (b64_encode A pad s). c \<noteq> CHR 0x0A \<and> c \<noteq> CHR 0x0D"
    using b64_encode_set[OF assms, of pad s] assms
    by (auto simp: alphabet_ok_def split: if_splits)
  then show ?thesis by (simp add: no_breaks_def filter_id_conv)
qed

lemma StdDecode_StdEncode [simp]: "StdDecode (StdEncode s) = Some s"
  by (simp add: StdDecode_def StdEncode_def no_breaks_encode b64_quanta_encode alphabet_std_ok)

lemma RawURLDecode_RawURLEncode [simp]: "RawURLDecode (RawURLEncode s) = Some s"
  by (simp add: RawURLDecode_def RawURLEncode_def no_breaks_encode b64_quanta_encode
      alphabet_url_ok)

lemma RawURLEncode_inj: "RawURLEncode s = RawURLEncode t \<Longrightarrow> s = t"
  by (metis RawURLDecode_RawURLEncode option.inject)

lemma RawURLEncode_chars: "set (RawURLEncode s) \<subseteq> set alphabet_url"
  using b64_encode_set[OF alphabet_url_ok, of False s] by (simp add: RawURLEncode_def)

lemma RawURLEncode_no_dot: "CHR ''.'' \<notin> set (RawURLEncode s)"
  using RawURLEncode_chars[of s] by (auto simp: alphabet_url_def)

lemma RawURLEncode_nonempty: "s \<noteq> [] \<Longrightarrow> RawURLEncode s \<noteq> []"
  by (cases s rule: remdups_adj.cases)
     (auto simp: RawURLEncode_def Let_def dest: arg_cong[where f = "\<lambda>x. x = []"]
       elim: b64_encode.elims)

end
