(* ===== verification/Sec_Token.thy ===== *)
theory Sec_Token
  imports Go_Codec
begin

text \<open>
  Package \<open>internal/security\<close>: the HS256 access token (\<open>token.go\<close>: \<open>Sign\<close>,
  \<open>Verify\<close>), the message a device signs to prove its identity (\<open>DeviceMessage\<close>,
  \<open>VerifyDevice\<close>) and the TURN REST credential (\<open>turn.go\<close>). The cryptographic
  primitives, the JSON codec of the claims and the other library functions without source in the
  repository are the fields of one environment record.
\<close>

record Claims =
  c_Subject :: string
  c_Expires :: int
  c_Issuer :: string
  c_Audience :: string
  c_Version :: "64 word"

text \<open>The environment: \<open>rand_bytes i n\<close> is what the \<open>i\<close>-th read of \<open>n\<close> bytes from
  \<open>crypto/rand\<close> returns; \<open>argon2id raw salt time memory threads keyLen\<close> is
  \<open>argon2.IDKey\<close>; \<open>parse_address\<close> is the \<open>Address\<close> field of a successful
  \<open>mail.ParseAddress\<close>; \<open>split_host\<close> the host of a successful \<open>net.SplitHostPort\<close>;
  \<open>unicode_lower\<close> is \<open>strings.ToLower\<close> on a string that is not ASCII; \<open>gcm_seal key nonce
  plaintext\<close> and \<open>gcm_open key nonce ciphertext\<close> are AES-GCM without additional data.\<close>

record env =
  sha256 :: "string \<Rightarrow> string"
  hmac_sha256 :: "string \<Rightarrow> string \<Rightarrow> string"
  hmac_sha1 :: "string \<Rightarrow> string \<Rightarrow> string"
  argon2id :: "string \<Rightarrow> string \<Rightarrow> nat \<Rightarrow> nat \<Rightarrow> nat \<Rightarrow> nat \<Rightarrow> string"
  ed25519_verify :: "string \<Rightarrow> string \<Rightarrow> string \<Rightarrow> bool"
  marshal_claims :: "Claims \<Rightarrow> string"
  unmarshal_claims :: "string \<Rightarrow> Claims option"
  rand_bytes :: "nat \<Rightarrow> nat \<Rightarrow> string"
  parse_address :: "string \<Rightarrow> string option"
  split_host :: "string \<Rightarrow> string option"
  unicode_lower :: "string \<Rightarrow> string"
  gcm_seal :: "string \<Rightarrow> string \<Rightarrow> string \<Rightarrow> string"
  gcm_open :: "string \<Rightarrow> string \<Rightarrow> string \<Rightarrow> string option"

datatype token_error =
    InvalidAccessToken
  | InvalidTokenHeader
  | CorruptInput
  | InvalidSignature
  | ExpiredOrInvalidToken

definition jwt_header :: string where
  \<open>jwt_header = ''{"alg":"HS256","typ":"JWT"}''\<close>

definition Sign :: "env \<Rightarrow> string \<Rightarrow> string \<Rightarrow> 64 word \<Rightarrow> time \<Rightarrow> string" where
  "Sign e key user version now =
     (let h = RawURLEncode jwt_header;
          b = marshal_claims e
                \<lparr>c_Subject = user, c_Expires = unix_seconds (now + 10 * minute),
                 c_Issuer = ''muiltdesk'', c_Audience = ''muiltdesk-api'', c_Version = version\<rparr>;
          payload = h @ ''.'' @ RawURLEncode b
      in payload @ ''.'' @ RawURLEncode (hmac_sha256 e key payload))"

definition Verify :: "env \<Rightarrow> string \<Rightarrow> string \<Rightarrow> time \<Rightarrow> token_error + Claims" where
  "Verify e key token now =
     (let parts = split_at (CHR ''.'') token in
      if length parts \<noteq> 3 \<or> length token > 4096 then Inl InvalidAccessToken
      else case RawURLDecode (parts ! 0) of None \<Rightarrow> Inl InvalidTokenHeader
      | Some h \<Rightarrow>
      if h \<noteq> jwt_header then Inl InvalidTokenHeader
      else case RawURLDecode (parts ! 2) of None \<Rightarrow> Inl CorruptInput
      | Some signature \<Rightarrow>
      if signature \<noteq> hmac_sha256 e key (parts ! 0 @ ''.'' @ parts ! 1) then Inl InvalidSignature
      else case RawURLDecode (parts ! 1) of None \<Rightarrow> Inl CorruptInput
      | Some raw \<Rightarrow>
      (case unmarshal_claims e raw of None \<Rightarrow> Inl ExpiredOrInvalidToken
       | Some c \<Rightarrow>
         if c_Subject c = [] \<or> c_Issuer c \<noteq> ''muiltdesk'' \<or> c_Audience c \<noteq> ''muiltdesk-api''
            \<or> c_Expires c \<le> unix_seconds now \<or> c_Expires c > unix_seconds (now + 11 * minute)
         then Inl ExpiredOrInvalidToken
         else Inr c))"

definition DeviceMessage :: "string \<Rightarrow> string \<Rightarrow> string \<Rightarrow> string" where
  "DeviceMessage meth path nonce =
     ''MuiltDesk/v1'' @ [CHR 0x0A] @ meth @ [CHR 0x0A] @ path @ [CHR 0x0A] @ nonce"

definition VerifyDevice ::
  "env \<Rightarrow> string \<Rightarrow> string \<Rightarrow> string \<Rightarrow> string \<Rightarrow> string \<Rightarrow> bool" where
  "VerifyDevice e publicKey signature meth path nonce =
     (case StdDecode publicKey of None \<Rightarrow> False
      | Some key \<Rightarrow>
      if length key \<noteq> 32 then False
      else case StdDecode signature of None \<Rightarrow> False
      | Some sig \<Rightarrow> ed25519_verify e key (DeviceMessage meth path nonce) sig)"

definition TURNCredential :: "env \<Rightarrow> string \<Rightarrow> string \<Rightarrow> time \<Rightarrow> string \<times> string" where
  "TURNCredential e secret subject expires =
     (let username = FormatInt (unix_seconds expires) @ '':'' @ subject
      in (username, StdEncode (hmac_sha1 e secret username)))"

section \<open>Access tokens\<close>

definition issued_claims :: "string \<Rightarrow> 64 word \<Rightarrow> time \<Rightarrow> Claims" where
  "issued_claims user version now =
     \<lparr>c_Subject = user, c_Expires = unix_seconds now + 600, c_Issuer = ''muiltdesk'',
      c_Audience = ''muiltdesk-api'', c_Version = version\<rparr>"

lemma unix_seconds_minutes:
  "unix_seconds (now + 10 * minute) = unix_seconds now + 600"
  "unix_seconds (now + 11 * minute) = unix_seconds now + 660"
  using unix_seconds_add[of now 600] unix_seconds_add[of now 660]
  by (simp_all add: duration_defs)

lemma split_Sign_parts:
  "split_at (CHR ''.'') (RawURLEncode a @ ''.'' @ RawURLEncode b @ ''.'' @ RawURLEncode c) =
     [RawURLEncode a, RawURLEncode b, RawURLEncode c]"
  by (simp add: split_at_append split_at_no_sep RawURLEncode_no_dot)

lemma Verify_Sign:
  assumes json: "unmarshal_claims e (marshal_claims e (issued_claims user version now)) =
      Some (issued_claims user version now)"
    and user: "user \<noteq> []" and len: "length (Sign e key user version now) \<le> 4096"
  shows "Verify e key (Sign e key user version now) now' =
    (if unix_seconds now' < unix_seconds now + 600 \<and> unix_seconds now \<le> unix_seconds now' + 60
     then Inr (issued_claims user version now) else Inl ExpiredOrInvalidToken)"
proof -
  let ?b = "marshal_claims e (issued_claims user version now)"
  let ?p = "RawURLEncode jwt_header @ ''.'' @ RawURLEncode ?b"
  have sign: "Sign e key user version now =
      RawURLEncode jwt_header @ ''.'' @ RawURLEncode ?b @ ''.'' @ RawURLEncode (hmac_sha256 e key ?p)"
    by (simp add: Sign_def issued_claims_def unix_seconds_minutes Let_def)
  have parts: "split_at (CHR ''.'') (Sign e key user version now) =
      [RawURLEncode jwt_header, RawURLEncode ?b, RawURLEncode (hmac_sha256 e key ?p)]"
    unfolding sign by (rule split_Sign_parts)
  have c: "c_Subject (issued_claims user version now) = user"
    "c_Issuer (issued_claims user version now) = ''muiltdesk''"
    "c_Audience (issued_claims user version now) = ''muiltdesk-api''"
    "c_Expires (issued_claims user version now) = unix_seconds now + 600"
    by (simp_all add: issued_claims_def)
  show ?thesis
    using user len unfolding Verify_def parts Let_def
    by (simp add: json c unix_seconds_minutes)
qed

lemma Verify_InrD:
  assumes "Verify e key token now = Inr c"
  obtains p0 p1 p2 raw where
    "split_at (CHR ''.'') token = [p0, p1, p2]"
    "RawURLDecode p0 = Some jwt_header"
    "RawURLDecode p2 = Some (hmac_sha256 e key (p0 @ ''.'' @ p1))"
    "RawURLDecode p1 = Some raw" "unmarshal_claims e raw = Some c"
    "c_Subject c \<noteq> []" "c_Issuer c = ''muiltdesk''" "c_Audience c = ''muiltdesk-api''"
    "unix_seconds now < c_Expires c" "c_Expires c \<le> unix_seconds now + 660"
proof -
  from assms have len: "length (split_at (CHR ''.'') token) = 3"
    by (auto simp: Verify_def Let_def split: if_splits)
  then obtain p0 p1 p2 where parts: "split_at (CHR ''.'') token = [p0, p1, p2]"
    by (auto simp: length_Suc_conv numeral_3_eq_3)
  with assms obtain raw where raw: "RawURLDecode p1 = Some raw"
    by (auto simp: Verify_def Let_def split: if_splits option.splits)
  with assms parts show ?thesis
    by (intro that[OF parts, of raw])
       (auto simp: Verify_def Let_def unix_seconds_minutes split: if_splits option.splits)
qed

text \<open>A concrete environment, for evaluating the model: the hash is the identity, a MAC or a
  signature is the key itself, the random reads count up.\<close>

definition demo_env :: env where
  "demo_env =
     \<lparr>sha256 = (\<lambda>s. s), hmac_sha256 = (\<lambda>k m. k), hmac_sha1 = (\<lambda>k m. k),
      argon2id = (\<lambda>raw salt t m p n. raw), ed25519_verify = (\<lambda>k m s. s = k),
      marshal_claims = (\<lambda>c. c_Subject c),
      unmarshal_claims = (\<lambda>s. Some (issued_claims s 0 0)),
      rand_bytes = (\<lambda>i n. char_of i # replicate (n - 1) (CHR ''r'')),
      parse_address = (\<lambda>s. Some s), split_host = (\<lambda>s. Some s), unicode_lower = (\<lambda>s. s),
      gcm_seal = (\<lambda>k n p. p), gcm_open = (\<lambda>k n c. Some c)\<rparr>"

text \<open>C22: an access token is valid for its ten minutes and no longer: \<open>Verify\<close> returns the
  issued claims for a token of \<open>Sign\<close> exactly while the current second is below the expiry
  second (and at most a minute before the issue second, the clock skew it tolerates); at the expiry
  boundary it is refused. The hypotheses are the JSON round trip of the claims, a non-empty
  subject and the 4096-byte limit.\<close>

theorem token_lifetime:
  assumes "unmarshal_claims e (marshal_claims e (issued_claims user version now)) =
      Some (issued_claims user version now)"
    and "user \<noteq> []" and "length (Sign e key user version now) \<le> 4096"
  shows "Verify e key (Sign e key user version now) now' =
    (if unix_seconds now' < unix_seconds now + 600 \<and> unix_seconds now \<le> unix_seconds now' + 60
     then Inr (issued_claims user version now) else Inl ExpiredOrInvalidToken)"
  using assms by (rule Verify_Sign)

theorem token_lifetime_witness:
  "Verify demo_env ''key'' (Sign demo_env ''key'' ''ann'' 0 0) (599 * second)
     = Inr (issued_claims ''ann'' 0 0) \<and>
   Verify demo_env ''key'' (Sign demo_env ''key'' ''ann'' 0 0) (600 * second)
     = Inl ExpiredOrInvalidToken"
proof -
  have json: "unmarshal_claims demo_env (marshal_claims demo_env (issued_claims ''ann'' 0 0)) =
      Some (issued_claims ''ann'' 0 0)"
    by (simp add: demo_env_def issued_claims_def)
  have len: "length (Sign demo_env ''key'' ''ann'' 0 0) \<le> 4096"
    by (simp add: Sign_def demo_env_def Let_def RawURLEncode_def jwt_header_def)
  show ?thesis
    using token_lifetime[OF json _ len, of "599 * second"]
      token_lifetime[OF json _ len, of "600 * second"]
    by (simp add: unix_seconds_def second_def)
qed

text \<open>C21: soundness of \<open>Verify\<close>: a token is accepted only if it has three parts, the first
  is the fixed HS256 header, the last is the HMAC under the server's key of the first two exactly
  as received, and the claims name a subject, this issuer and audience and an expiry that lies in
  the future by at most eleven minutes.\<close>

theorem token_accepted_only_if_macd:
  assumes "Verify e key token now = Inr c"
  shows "\<exists>p0 p1 p2 raw. split_at (CHR ''.'') token = [p0, p1, p2] \<and>
    RawURLDecode p0 = Some jwt_header \<and>
    RawURLDecode p2 = Some (hmac_sha256 e key (p0 @ ''.'' @ p1)) \<and>
    RawURLDecode p1 = Some raw \<and> unmarshal_claims e raw = Some c \<and>
    c_Subject c \<noteq> [] \<and> c_Issuer c = ''muiltdesk'' \<and> c_Audience c = ''muiltdesk-api'' \<and>
    unix_seconds now < c_Expires c \<and> c_Expires c \<le> unix_seconds now + 660"
  using assms by (rule Verify_InrD) blast

theorem token_accepted_only_if_macd_witness:
  "\<exists>p0 p1 p2 raw.
    split_at (CHR ''.'') (Sign demo_env ''key'' ''ann'' 0 0) = [p0, p1, p2] \<and>
    RawURLDecode p0 = Some jwt_header \<and>
    RawURLDecode p2 = Some (hmac_sha256 demo_env ''key'' (p0 @ ''.'' @ p1)) \<and>
    RawURLDecode p1 = Some raw \<and>
    unmarshal_claims demo_env raw = Some (issued_claims ''ann'' 0 0) \<and>
    c_Subject (issued_claims ''ann'' 0 0) \<noteq> [] \<and>
    c_Issuer (issued_claims ''ann'' 0 0) = ''muiltdesk'' \<and>
    c_Audience (issued_claims ''ann'' 0 0) = ''muiltdesk-api'' \<and>
    unix_seconds 0 < c_Expires (issued_claims ''ann'' 0 0) \<and>
    c_Expires (issued_claims ''ann'' 0 0) \<le> unix_seconds 0 + 660"
proof (rule token_accepted_only_if_macd)
  have "unmarshal_claims demo_env (marshal_claims demo_env (issued_claims ''ann'' 0 0)) =
      Some (issued_claims ''ann'' 0 0)"
    by (simp add: demo_env_def issued_claims_def)
  moreover have "length (Sign demo_env ''key'' ''ann'' 0 0) \<le> 4096"
    by (simp add: Sign_def demo_env_def Let_def RawURLEncode_def jwt_header_def)
  ultimately show "Verify demo_env ''key'' (Sign demo_env ''key'' ''ann'' 0 0) 0
      = Inr (issued_claims ''ann'' 0 0)"
    using Verify_Sign[of demo_env "''ann''" 0 0 "''key''" 0] by simp
qed

section \<open>Device proofs and relay credentials\<close>

lemma DeviceMessage_tail:
  assumes "CHR 0x0A \<notin> set n" and "CHR 0x0A \<notin> set n'"
    and "p @ [CHR 0x0A] @ n = p' @ [CHR 0x0A] @ n'"
  shows "p = p' \<and> n = n'"
proof -
  have "rev n @ [CHR 0x0A] @ rev p = rev n' @ [CHR 0x0A] @ rev p'"
    using arg_cong[OF assms(3), of rev] by simp
  then have "split_at (CHR 0x0A) (rev n @ CHR 0x0A # rev p)
      = split_at (CHR 0x0A) (rev n' @ CHR 0x0A # rev p')"
    by simp
  then have "rev n = rev n'"
    using assms(1,2) by (simp add: split_at_append)
  with assms(3) show ?thesis by simp
qed

text \<open>C37: a device signature is bound to its HTTP method, path and nonce: two proof messages are
  equal only if all three agree. The method and the nonce contain no newline (they are an HTTP
  method and a header value); the decoded path may be any string.\<close>

theorem DeviceMessage_binding:
  assumes "CHR 0x0A \<notin> set meth" "CHR 0x0A \<notin> set meth'"
    and "CHR 0x0A \<notin> set nonce" "CHR 0x0A \<notin> set nonce'"
  shows "DeviceMessage meth path nonce = DeviceMessage meth' path' nonce' \<longleftrightarrow>
    meth = meth' \<and> path = path' \<and> nonce = nonce'"
proof
  assume eq: "DeviceMessage meth path nonce = DeviceMessage meth' path' nonce'"
  then have *: "meth @ CHR 0x0A # (path @ [CHR 0x0A] @ nonce) =
      meth' @ CHR 0x0A # (path' @ [CHR 0x0A] @ nonce')"
    by (simp add: DeviceMessage_def)
  then have "split_at (CHR 0x0A) (meth @ CHR 0x0A # (path @ [CHR 0x0A] @ nonce)) =
      split_at (CHR 0x0A) (meth' @ CHR 0x0A # (path' @ [CHR 0x0A] @ nonce'))"
    by simp
  then have "meth = meth'"
    using assms(1,2) by (simp add: split_at_append)
  with * DeviceMessage_tail[OF assms(3,4), of path path']
  show "meth = meth' \<and> path = path' \<and> nonce = nonce'" by simp
qed simp

theorem DeviceMessage_binding_witness:
  "DeviceMessage ''POST'' ''/v1/devices'' ''n1'' = DeviceMessage ''POST'' ''/v1/sessions'' ''n1''
   \<longleftrightarrow> ''POST'' = ''POST'' \<and> ''/v1/devices'' = ''/v1/sessions'' \<and> ''n1'' = ''n1''"
  by (rule DeviceMessage_binding) simp_all

text \<open>A relay credential is scoped to one account and one expiry: two TURN user names are
  equal only if they carry the same subject and the same expiry second, whatever the secrets.\<close>

theorem TURN_username_scoped:
  "fst (TURNCredential e secret subject expires) = fst (TURNCredential e' secret' subject' expires')
   \<longleftrightarrow> subject = subject' \<and> unix_seconds expires = unix_seconds expires'"
proof -
  have "FormatInt i @ CHR '':'' # u = FormatInt j @ CHR '':'' # v \<longleftrightarrow> i = j \<and> u = v" for i j u v
  proof
    assume eq: "FormatInt i @ CHR '':'' # u = FormatInt j @ CHR '':'' # v"
    then have "split_at (CHR '':'') (FormatInt i @ CHR '':'' # u) =
        split_at (CHR '':'') (FormatInt j @ CHR '':'' # v)" by simp
    then have "FormatInt i = FormatInt j"
      by (simp add: split_at_append FormatInt_no_colon)
    with eq show "i = j \<and> u = v" by (auto dest: FormatInt_inj)
  qed simp
  then show ?thesis by (auto simp: TURNCredential_def Let_def)
qed

end
