(* ===== verification/Store_Model.thy ===== *)
theory Store_Model
  imports Go_Prelude
begin

text \<open>
  Package \<open>internal/store\<close>, file \<open>store.go\<close>: the sentinel errors, the domain types and
  the contracts of the \<open>Store\<close> interface. Two contracts are stated as locales and used by the
  theories of the implementations and of the handlers: a table with conflict-checked insertion
  (\<open>insert_table\<close>, extended by in-place update to \<open>crud_table\<close>) and a table of one-time
  tokens (\<open>token_table\<close>). A pointer field that may be nil is an \<open>option\<close>; an operation that
  changes the store returns the new store and its error, nil being \<open>None\<close>.
\<close>

section \<open>Errors and domain types\<close>

text \<open>\<open>ErrBackend\<close> stands for a driver error of a database-backed store, \<open>NilDereference\<close>
  for a run-time panic inside a store method.\<close>

datatype store_error = ErrNotFound | ErrConflict | ErrExpired | ErrBackend | NilDereference

record Account =
  ac_ID :: string
  ac_Email :: string
  ac_Name :: string
  ac_PasswordHash :: string
  ac_TokenVersion :: "64 word"
  ac_EmailVerifiedAt :: "time option"
  ac_CreatedAt :: time

record RefreshToken =
  rt_Hash :: string
  rt_UserID :: string
  rt_FamilyID :: string
  rt_ExpiresAt :: time
  rt_UsedAt :: "time option"
  rt_RevokedAt :: "time option"

record StoreDevice =
  sd_ID :: string
  sd_Name :: string
  sd_OwnerID :: string
  sd_OrganizationID :: "string option"
  sd_PublicKey :: string
  sd_OS :: string
  sd_LastSeen :: time
  sd_RevokedAt :: "time option"
  sd_Revoked :: bool
  sd_Online :: bool
  sd_Unattended :: bool
  sd_CreatedAt :: time

record StoreSession =
  ss_ID :: string
  ss_OperatorID :: string
  ss_SourceDeviceID :: string
  ss_TargetDeviceID :: string
  ss_State :: string
  ss_RequestedPerms :: "string list"
  ss_GrantedPerms :: "string list"
  ss_Epoch :: "64 word"
  ss_SourcePublicKey :: string
  ss_TargetPublicKey :: string
  ss_RecordingConsent :: bool
  ss_ChatEnabled :: bool
  ss_NotesCount :: int
  ss_CreatedAt :: time
  ss_ExpiresAt :: time
  ss_EndedAt :: "time option"

text \<open>The metadata of an audit event is kept as the JSON text of each value.\<close>

record AuditEvent =
  ae_ID :: string
  ae_ActorID :: string
  ae_OrganizationID :: "string option"
  ae_Action :: string
  ae_ResourceID :: string
  ae_Metadata :: "(string, string) gomap"
  ae_OccurredAt :: time

record SecondFactor =
  sf_ID :: string
  sf_UserID :: string
  sf_Kind :: string
  sf_EncryptedSecret :: string
  sf_VerifiedAt :: "time option"

record EmailToken =
  et_TokenHash :: string
  et_UserID :: string
  et_Kind :: string
  et_ExpiresAt :: time

record Organization =
  og_ID :: string
  og_Name :: string
  og_OwnerID :: string
  og_CreatedAt :: time

record Membership =
  mb_OrganizationID :: string
  mb_UserID :: string
  mb_Role :: string
  mb_ExpiresAt :: "time option"

record OrgInvite =
  iv_ID :: string
  iv_OrgID :: string
  iv_Email :: string
  iv_Role :: string
  iv_TokenHash :: string
  iv_ExpiresAt :: time
  iv_AcceptedAt :: "time option"

record Workflow =
  wf_ID :: string
  wf_OrganizationID :: string
  wf_Name :: string
  wf_Definition :: string
  wf_RequiredPermissions :: "string list"
  wf_Enabled :: bool
  wf_CreatedBy :: string

record WorkflowRun =
  wr_ID :: string
  wr_WorkflowID :: string
  wr_SessionID :: string
  wr_ApprovedBy :: "string option"
  wr_State :: string
  wr_StartedAt :: "time option"
  wr_FinishedAt :: "time option"

record TransferRecord =
  tr_ID :: string
  tr_SessionID :: string
  tr_Basename :: string
  tr_SizeBytes :: int
  tr_SHA256 :: string
  tr_State :: string
  tr_CreatedAt :: time

section \<open>Contracts of the Store interface\<close>

text \<open>Create and get: \<open>CreateDevice\<close>/\<open>GetDevice\<close>, \<open>CreateSession\<close>/\<open>GetSession\<close>,
  \<open>CreateOrganization\<close>/\<open>GetOrganization\<close>, \<open>CreateWorkflow\<close>/\<open>GetWorkflow\<close>,
  \<open>CreateWorkflowRun\<close>/\<open>GetWorkflowRun\<close>. A record is found after it was created, a second
  creation under the same key is a conflict that changes nothing.\<close>

locale insert_table =
  fixes create :: "'st \<Rightarrow> 'v \<Rightarrow> 'st \<times> store_error option"
    and find_row :: "'st \<Rightarrow> 'k \<Rightarrow> store_error + 'v"
    and row_key :: "'v \<Rightarrow> 'k"
  assumes find_error: "find_row st k = Inl e \<Longrightarrow> e = ErrNotFound"
    and create_fresh: "find_row st (row_key v) = Inl ErrNotFound \<Longrightarrow> snd (create st v) = None"
    and create_taken: "find_row st (row_key v) = Inr w \<Longrightarrow> create st v = (st, Some ErrConflict)"
    and create_find: "snd (create st v) = None \<Longrightarrow>
      find_row (fst (create st v)) k = (if k = row_key v then Inr v else find_row st k)"
begin

lemma find_cases:
  obtains (missing) "find_row st k = Inl ErrNotFound" | (present) w where "find_row st k = Inr w"
  using find_error by (cases "find_row st k") blast+

lemma create_iff: "snd (create st v) = None \<longleftrightarrow> find_row st (row_key v) = Inl ErrNotFound"
  by (rule find_cases[of st "row_key v"]) (auto simp: create_fresh create_taken)

lemma create_error: "snd (create st v) = Some e \<Longrightarrow> e = ErrConflict \<and> fst (create st v) = st"
  by (rule find_cases[of st "row_key v"]) (auto simp: create_fresh create_taken)

lemma create_twice:
  assumes "snd (create st v) = None" and "row_key w = row_key v"
  shows "create (fst (create st v)) w = (fst (create st v), Some ErrConflict)"
  using assms by (intro create_taken[where w = v]) (simp add: create_find)

lemma create_keeps_rows:
  "find_row st k = Inr w \<Longrightarrow> find_row (fst (create st v)) k = Inr w"
  by (cases "snd (create st v)") (auto simp: create_find create_iff dest: create_error)

end

text \<open>With update in place: \<open>UpdateDevice\<close>, \<open>UpdateSession\<close>, \<open>UpdateWorkflow\<close>,
  \<open>UpdateWorkflowRun\<close>.\<close>

locale crud_table = insert_table +
  fixes update_row :: "'st \<Rightarrow> 'v \<Rightarrow> 'st \<times> store_error option"
  assumes update_missing:
      "find_row st (row_key v) = Inl ErrNotFound \<Longrightarrow> update_row st v = (st, Some ErrNotFound)"
    and update_present: "find_row st (row_key v) = Inr w \<Longrightarrow> snd (update_row st v) = None"
    and update_find: "find_row st (row_key v) = Inr w \<Longrightarrow>
      find_row (fst (update_row st v)) k = (if k = row_key v then Inr v else find_row st k)"
begin

lemma update_error: "snd (update_row st v) = Some e \<Longrightarrow> e = ErrNotFound \<and> fst (update_row st v) = st"
  by (rule find_cases[of st "row_key v"]) (auto simp: update_missing update_present)

lemma create_then_update:
  assumes "snd (create st v) = None" and "row_key w = row_key v"
  shows "find_row (fst (update_row (fst (create st v)) w)) (row_key v) = Inr w"
proof -
  have "find_row (fst (create st v)) (row_key w) = Inr v"
    using assms by (simp add: create_find)
  then show ?thesis using assms(2) by (simp add: update_find)
qed

text \<open>After any sequence of updates of existing rows, each row holds its last update.\<close>

lemma last_update_wins:
  assumes "\<forall>v \<in> set vs. \<exists>w. find_row st (row_key v) = Inr w"
  shows "find_row (fold (\<lambda>v s. fst (update_row s v)) vs st) k =
    (case filter (\<lambda>v. row_key v = k) vs of [] \<Rightarrow> find_row st k | us \<Rightarrow> Inr (last us))"
  using assms
proof (induction vs arbitrary: st)
  case Nil
  then show ?case by simp
next
  case (Cons v vs)
  from Cons.prems obtain w where w: "find_row st (row_key v) = Inr w" by auto
  note upd = update_find[OF w]
  from Cons.prems have "\<forall>u \<in> set vs. \<exists>w. find_row (fst (update_row st v)) (row_key u) = Inr w"
    by (auto simp: upd)
  from Cons.IH[OF this] show ?case
    by (auto simp: upd split: list.splits)
qed

end

text \<open>One-time tokens: \<open>CreateEmailToken\<close>, \<open>GetEmailToken\<close>, \<open>DeleteEmailToken\<close>. A deleted
  token is gone and deletion does not touch the others.\<close>

locale token_table =
  fixes put_token :: "'st \<Rightarrow> string \<Rightarrow> string \<Rightarrow> string \<Rightarrow> time \<Rightarrow> 'st \<times> store_error option"
    and get_token :: "'st \<Rightarrow> string \<Rightarrow> store_error + EmailToken"
    and delete_token :: "'st \<Rightarrow> string \<Rightarrow> 'st \<times> store_error option"
  assumes put_get: "snd (put_token st h u kd ex) = None \<Longrightarrow> get_token st h = Inl ErrNotFound \<Longrightarrow>
      get_token (fst (put_token st h u kd ex)) h =
        Inr \<lparr>et_TokenHash = h, et_UserID = u, et_Kind = kd, et_ExpiresAt = ex\<rparr>"
    and delete_get: "get_token (fst (delete_token st h)) h' =
      (if h' = h then Inl ErrNotFound else get_token st h')"
begin

lemma delete_gone: "get_token (fst (delete_token st h)) h = Inl ErrNotFound"
  by (simp add: delete_get)

lemma put_after_delete:
  "snd (put_token (fst (delete_token st h)) h u kd ex) = None \<Longrightarrow>
   get_token (fst (put_token (fst (delete_token st h)) h u kd ex)) h =
     Inr \<lparr>et_TokenHash = h, et_UserID = u, et_Kind = kd, et_ExpiresAt = ex\<rparr>"
  by (rule put_get) (simp_all add: delete_gone)

end

end
