(* ===== verification/Service_State.thy ===== *)
theory Service_State
  imports Permissions Sec_Token Store_Model
begin

text \<open>
  The state of the service (\<open>Service\<close> in \<open>internal/platform/service.go\<close> with the account
  types of \<open>auth.go\<close>) and the primitives every handler is built from: random identifiers, the
  audit log, notification of connected devices, expiry, ending a session, tokens and device
  proofs. A handler maps the state to the next state and a reply; \<open>Panicked\<close> is a nil
  dereference, which the HTTP server recovers from while the changes made so far stay.
\<close>

section \<open>Data\<close>

record password =
  pw_Salt :: string
  pw_Hash :: string

record account =
  a_ID :: string
  a_Email :: string
  a_Name :: string
  a_Password :: password
  a_Version :: "64 word"

record refreshToken =
  r_UserID :: string
  r_Family :: string
  r_Expires :: time
  r_Used :: bool

record tokens =
  t_AccessToken :: string
  t_RefreshToken :: string
  t_ExpiresIn :: int
  t_TokenType :: string

record Device =
  d_ID :: string
  d_Name :: string
  d_OwnerID :: string
  d_PublicKey :: string
  d_OS :: string
  d_DeviceType :: string
  d_LastSeen :: time
  d_Revoked :: bool
  d_Online :: bool
  d_Unattended :: bool

record Session =
  s_ID :: string
  s_OperatorID :: string
  s_SourceID :: string
  s_TargetID :: string
  s_State :: string
  s_Requested :: "Permission list"
  s_Granted :: "Permission list"
  s_Created :: time
  s_Expires :: time
  s_Epoch :: "64 word"
  s_SourcePublicKey :: string
  s_TargetPublicKey :: string

record Audit =
  au_ID :: string
  au_Actor :: string
  au_Action :: string
  au_Resource :: string
  au_At :: time

record challenge =
  ch_User :: string
  ch_Expires :: time

record rate =
  rl_Count :: int
  rl_Until :: time

text \<open>What is queued for a connected device: a \<open>Signal\<close> built by \<open>notify\<close> around a session
  or a session request, a frame relayed as it came, or the offline notice of \<open>signalling\<close>.\<close>

datatype payload = PSession Session | PRequest Session string

datatype message = Notice string payload | Relayed string | OfflineNotice string

text \<open>A peer object: its bounded channel and whether its socket pointer is set. Peers are shared
  by pointer between the connection that owns them and the device map.\<close>

record peer =
  p_socket :: bool
  p_send :: "message list"
  p_cap :: nat

text \<open>The service. \<open>sv_peers\<close> maps a device to the address of its peer in \<open>sv_conns\<close>.
  The last two fields are not in the source: \<open>sv_closing\<close> logs the peers whose socket was
  asked to close, \<open>sv_entropy\<close> counts the reads of the random source.\<close>

record 'st service =
  sv_key :: string
  sv_store :: "'st option"
  sv_accounts :: "(string, account) gomap"
  sv_emails :: "(string, string) gomap"
  sv_refresh :: "(string, refreshToken) gomap"
  sv_devices :: "(string, Device) gomap"
  sv_sessions :: "(string, Session) gomap"
  sv_challenges :: "(string, challenge) gomap"
  sv_peers :: "(string, nat) gomap"
  sv_conns :: "(nat, peer) gomap"
  sv_sequences :: "(string, 64 word) gomap"
  sv_rates :: "(string, rate) gomap"
  sv_audit :: "Audit list"
  sv_authSlots :: nat
  sv_iceURLs :: "string list"
  sv_turnSecret :: string
  sv_closing :: "nat list"
  sv_entropy :: nat

text \<open>\<open>NewWithStore\<close> panics on a short key.\<close>

definition NewWithStore :: "string \<Rightarrow> 'st option \<Rightarrow> 'st service option" where
  "NewWithStore key st =
     (if length key < 32 then None
      else Some
        \<lparr>sv_key = key, sv_store = st, sv_accounts = [], sv_emails = [], sv_refresh = [],
         sv_devices = [], sv_sessions = [], sv_challenges = [], sv_peers = [], sv_conns = [],
         sv_sequences = [], sv_rates = [], sv_audit = [], sv_authSlots = 0, sv_iceURLs = [],
         sv_turnSecret = [], sv_closing = [], sv_entropy = 0\<rparr>)"

section \<open>Requests and replies\<close>

text \<open>A request: method, path (decoded, and escaped as it was sent), headers by canonical name, remote
  address, the \<open>device_id\<close> parameter of the query and the bytes of the body. A handler works on the
  result of the JSON decoder on the body: malformed (or with an unknown field, or beyond 64 KiB), a
  value followed by more input, or the one decoded value.\<close>

record http_request =
  rq_Method :: string
  rq_Path :: string
  rq_EscapedPath :: string
  rq_Header :: "(string, string) gomap"
  rq_RemoteAddr :: string
  rq_DeviceQuery :: string
  rq_Body :: string

definition header_of :: "http_request \<Rightarrow> string \<Rightarrow> string" where
  "header_of r name = (case get (rq_Header r) name of None \<Rightarrow> [] | Some v \<Rightarrow> v)"

datatype 'q json_body = BadJson | TrailingData | OneObject 'q

record ice_server =
  ice_url :: string
  ice_login :: "(string \<times> string) option"

datatype json_out =
    JError string
  | JOk
  | JHealth
  | JTokens tokens
  | JMe string string string
  | JNonce string
  | JDevice Device
  | JDevices "Device list"
  | JLookup string string string bool
  | JSession Session
  | JSessions "Session list"
  | JAudit "Audit list"
  | JIce "ice_server list" time
  | JMessage string "nat option"
  | JFlag string
  | JTOTP string string "string list"
  | JOrganization Organization
  | JOrganizations "Organization list"
  | JMembers "Membership list"
  | JInvite string string
  | JWorkflow Workflow
  | JWorkflows "Workflow list"
  | JRun WorkflowRun
  | JAnalysis string "string list" string time
  | JPlain string

datatype reply = Reply nat json_out | Panicked

type_synonym 'st outcome = "'st service \<times> reply"

definition fail :: "'st service \<Rightarrow> nat \<Rightarrow> string \<Rightarrow> 'st outcome" where
  "fail s status message = (s, Reply status (JError message))"

definition decode :: "'q json_body \<Rightarrow> reply + 'q" where
  "decode b =
     (case b of
        BadJson \<Rightarrow> Inl (Reply 400 (JError ''invalid request body''))
      | TrailingData \<Rightarrow> Inl (Reply 400 (JError ''expected one JSON object''))
      | OneObject q \<Rightarrow> Inr q)"

section \<open>Random identifiers and the audit log\<close>

definition random_read :: "env \<Rightarrow> nat \<Rightarrow> 'st service \<Rightarrow> string \<times> 'st service" where
  "random_read e n s =
     (rand_bytes e (sv_entropy s) n, s\<lparr>sv_entropy := sv_entropy s + 1\<rparr>)"

definition randomID :: "env \<Rightarrow> nat \<Rightarrow> 'st service \<Rightarrow> string \<times> 'st service" where
  "randomID e n s = (let (b, s) = random_read e n s in (RawURLEncode b, s))"

definition record_audit ::
  "env \<Rightarrow> time \<Rightarrow> string \<Rightarrow> string \<Rightarrow> string \<Rightarrow> 'st service \<Rightarrow> 'st service" where
  "record_audit e now user action resource s =
     (let (ident, s) = randomID e 12 s;
          event = \<lparr>au_ID = ident, au_Actor = user, au_Action = action, au_Resource = resource,
                   au_At = now\<rparr>
      in s\<lparr>sv_audit := append_capped 10000 (sv_audit s) event\<rparr>)"

section \<open>Peers\<close>

definition send_to :: "nat \<Rightarrow> message \<Rightarrow> 'st service \<Rightarrow> 'st service \<times> bool" where
  "send_to p msg s =
     (case get (sv_conns s) p of
        None \<Rightarrow> (s, False)
      | Some c \<Rightarrow>
          if length (p_send c) < p_cap c
          then (s\<lparr>sv_conns := adjust p (\<lambda>c. c\<lparr>p_send := p_send c @ [msg]\<rparr>) (sv_conns s)\<rparr>, True)
          else (s, False))"

definition notify :: "string \<Rightarrow> string \<Rightarrow> payload \<Rightarrow> 'st service \<Rightarrow> 'st service" where
  "notify device kind v s =
     (case get (sv_peers s) device of
        None \<Rightarrow> s
      | Some p \<Rightarrow>
          (let (s', sent) = send_to p (Notice kind v) s
           in if sent then s' else s'\<lparr>sv_closing := sv_closing s' @ [p]\<rparr>))"

definition live :: "time \<Rightarrow> 'st service \<Rightarrow> Device option \<Rightarrow> bool" where
  "live now s dev =
     (case dev of
        None \<Rightarrow> False
      | Some d \<Rightarrow> \<not> d_Revoked d \<and> get (sv_peers s) (d_ID d) \<noteq> None \<and>
                  time_sub now (d_LastSeen d) < 45 * second)"

section \<open>Ending sessions, expiry\<close>

text \<open>\<open>end\<close> on the session stored under \<open>k\<close>; both devices are told, then the event is
  recorded.\<close>

definition ended :: "string \<Rightarrow> Session \<Rightarrow> Session" where
  "ended state v = v\<lparr>s_State := state, s_Granted := [], s_Epoch := s_Epoch v + 1\<rparr>"

definition notify_both :: "Session \<Rightarrow> 'st service \<Rightarrow> 'st service" where
  "notify_both v s =
     notify (s_TargetID v) ''session.updated'' (PSession v)
       (notify (s_SourceID v) ''session.updated'' (PSession v) s)"

definition end_session ::
  "env \<Rightarrow> time \<Rightarrow> string \<Rightarrow> string \<Rightarrow> string \<Rightarrow> 'st service \<Rightarrow> 'st service" where
  "end_session e now k state actor s =
     (case get (sv_sessions s) k of
        None \<Rightarrow> s
      | Some v \<Rightarrow>
          (let v' = ended state v;
               s1 = s\<lparr>sv_sessions := adjust k (\<lambda>_. v') (sv_sessions s)\<rparr>
           in record_audit e now actor (''session.'' @ state) (s_ID v') (notify_both v' s1)))"

definition open_session :: "Session \<Rightarrow> bool" where
  "open_session v \<longleftrightarrow> s_State v = ''pending'' \<or> s_State v = ''active''"

text \<open>A range loop over the sessions that ends those satisfying a test: the shape of the loops in
  \<open>expire\<close>, \<open>revokeDevice\<close> and \<open>invalidate\<close>.\<close>

definition end_where ::
  "env \<Rightarrow> time \<Rightarrow> (Session \<Rightarrow> bool) \<Rightarrow> string \<Rightarrow> string \<Rightarrow> 'st service \<Rightarrow> 'st service" where
  "end_where e now P state actor s =
     fold (\<lambda>k s. case get (sv_sessions s) k of
                   None \<Rightarrow> s
                 | Some v \<Rightarrow> if P v then end_session e now k state actor s else s)
       (map fst (sv_sessions s)) s"

definition expire :: "env \<Rightarrow> time \<Rightarrow> 'st service \<Rightarrow> 'st service" where
  "expire e now s =
     (let s1 = end_where e now (\<lambda>v. open_session v \<and> \<not> now < s_Expires v)
                 ''expired'' ''system'' s
      in s1\<lparr>sv_challenges := filter (\<lambda>(k, c). now < ch_Expires c) (sv_challenges s1),
            sv_rates := filter (\<lambda>(k, r). now < rl_Until r) (sv_rates s1),
            sv_refresh := filter (\<lambda>(k, r). now < r_Expires r) (sv_refresh s1)\<rparr>)"

definition visible :: "'st service \<Rightarrow> Session \<Rightarrow> string \<Rightarrow> bool" where
  "visible s v user \<longleftrightarrow>
     s_OperatorID v = user \<or>
     (case get (sv_devices s) (s_TargetID v) of None \<Rightarrow> False | Some d \<Rightarrow> d_OwnerID d = user)"

section \<open>Passwords, tokens, proofs\<close>

definition hashPassword :: "env \<Rightarrow> string \<Rightarrow> 'st service \<Rightarrow> password \<times> 'st service" where
  "hashPassword e raw s =
     (let (salt, s) = random_read e 16 s
      in (\<lparr>pw_Salt = salt, pw_Hash = argon2id e raw salt 3 (64 * 1024) 2 32\<rparr>, s))"

definition matches :: "env \<Rightarrow> password \<Rightarrow> string \<Rightarrow> bool" where
  "matches e p raw \<longleftrightarrow> argon2id e raw (pw_Salt p) 3 (64 * 1024) 2 32 = pw_Hash p"

definition digest :: "env \<Rightarrow> string \<Rightarrow> string" where
  "digest e raw = hex_encode (sha256 e raw)"

text \<open>\<open>None\<close> is the nil dereference of an unknown account.\<close>

definition signAccess :: "env \<Rightarrow> time \<Rightarrow> string \<Rightarrow> 'st service \<Rightarrow> string option" where
  "signAccess e now user s =
     (case get (sv_accounts s) user of
        None \<Rightarrow> None
      | Some a \<Rightarrow> Some (Sign e (sv_key s) user (a_Version a) now))"

definition verifyAccess :: "env \<Rightarrow> time \<Rightarrow> string \<Rightarrow> 'st service \<Rightarrow> string option" where
  "verifyAccess e now token s =
     (case Verify e (sv_key s) token now of
        Inl _ \<Rightarrow> None
      | Inr c \<Rightarrow>
          (case get (sv_accounts s) (c_Subject c) of
             None \<Rightarrow> None
           | Some a \<Rightarrow> if a_Version a \<noteq> c_Version c then None else Some (c_Subject c)))"

definition issue ::
  "env \<Rightarrow> time \<Rightarrow> string \<Rightarrow> string \<Rightarrow> 'st service \<Rightarrow> 'st service \<times> tokens option" where
  "issue e now user family s =
     (let (family, s) = (if family = [] then randomID e 24 s else (family, s));
          (raw, s) = randomID e 32 s;
          s = s\<lparr>sv_refresh := put (sv_refresh s) (digest e raw)
                 \<lparr>r_UserID = user, r_Family = family, r_Expires = now + 7 * 24 * hour,
                  r_Used = False\<rparr>\<rparr>
      in (s, case signAccess e now user s of
               None \<Rightarrow> None
             | Some access \<Rightarrow>
                 Some \<lparr>t_AccessToken = access, t_RefreshToken = raw, t_ExpiresIn = 600,
                       t_TokenType = ''Bearer''\<rparr>))"

definition device_proof ::
  "env \<Rightarrow> time \<Rightarrow> http_request \<Rightarrow> string \<Rightarrow> string \<Rightarrow> 'st service \<Rightarrow> 'st service \<times> bool" where
  "device_proof e now r user key s =
     (let nonce = header_of r ''X-Device-Nonce'';
          c = get (sv_challenges s) nonce;
          s = s\<lparr>sv_challenges := del (sv_challenges s) nonce\<rparr>
      in case c of
           None \<Rightarrow> (s, False)
         | Some c \<Rightarrow>
             if ch_User c \<noteq> user \<or> \<not> now < ch_Expires c then (s, False)
             else (s, VerifyDevice e key (header_of r ''X-Device-Signature'')
                        (rq_Method r) (rq_Path r) nonce))"

section \<open>Which fields the primitives leave alone\<close>

lemma record_audit_frame [simp, frame]:
  "sv_key (record_audit e now u a r s) = sv_key s"
  "sv_store (record_audit e now u a r s) = sv_store s"
  "sv_accounts (record_audit e now u a r s) = sv_accounts s"
  "sv_emails (record_audit e now u a r s) = sv_emails s"
  "sv_refresh (record_audit e now u a r s) = sv_refresh s"
  "sv_devices (record_audit e now u a r s) = sv_devices s"
  "sv_sessions (record_audit e now u a r s) = sv_sessions s"
  "sv_challenges (record_audit e now u a r s) = sv_challenges s"
  "sv_peers (record_audit e now u a r s) = sv_peers s"
  "sv_conns (record_audit e now u a r s) = sv_conns s"
  "sv_sequences (record_audit e now u a r s) = sv_sequences s"
  "sv_rates (record_audit e now u a r s) = sv_rates s"
  "sv_authSlots (record_audit e now u a r s) = sv_authSlots s"
  "sv_iceURLs (record_audit e now u a r s) = sv_iceURLs s"
  "sv_turnSecret (record_audit e now u a r s) = sv_turnSecret s"
  "sv_closing (record_audit e now u a r s) = sv_closing s"
  by (simp_all add: record_audit_def randomID_def random_read_def Let_def)

lemma random_read_frame [simp, frame]:
  "sv_key (snd (random_read e n s)) = sv_key s"
  "sv_store (snd (random_read e n s)) = sv_store s"
  "sv_accounts (snd (random_read e n s)) = sv_accounts s"
  "sv_emails (snd (random_read e n s)) = sv_emails s"
  "sv_refresh (snd (random_read e n s)) = sv_refresh s"
  "sv_devices (snd (random_read e n s)) = sv_devices s"
  "sv_sessions (snd (random_read e n s)) = sv_sessions s"
  "sv_challenges (snd (random_read e n s)) = sv_challenges s"
  "sv_peers (snd (random_read e n s)) = sv_peers s"
  "sv_conns (snd (random_read e n s)) = sv_conns s"
  "sv_sequences (snd (random_read e n s)) = sv_sequences s"
  "sv_rates (snd (random_read e n s)) = sv_rates s"
  "sv_audit (snd (random_read e n s)) = sv_audit s"
  "sv_authSlots (snd (random_read e n s)) = sv_authSlots s"
  "sv_iceURLs (snd (random_read e n s)) = sv_iceURLs s"
  "sv_turnSecret (snd (random_read e n s)) = sv_turnSecret s"
  "sv_closing (snd (random_read e n s)) = sv_closing s"
  by (simp_all add: random_read_def)

lemma randomID_frame [simp, frame]:
  "sv_key (snd (randomID e n s)) = sv_key s"
  "sv_store (snd (randomID e n s)) = sv_store s"
  "sv_accounts (snd (randomID e n s)) = sv_accounts s"
  "sv_emails (snd (randomID e n s)) = sv_emails s"
  "sv_refresh (snd (randomID e n s)) = sv_refresh s"
  "sv_devices (snd (randomID e n s)) = sv_devices s"
  "sv_sessions (snd (randomID e n s)) = sv_sessions s"
  "sv_challenges (snd (randomID e n s)) = sv_challenges s"
  "sv_peers (snd (randomID e n s)) = sv_peers s"
  "sv_conns (snd (randomID e n s)) = sv_conns s"
  "sv_sequences (snd (randomID e n s)) = sv_sequences s"
  "sv_rates (snd (randomID e n s)) = sv_rates s"
  "sv_audit (snd (randomID e n s)) = sv_audit s"
  "sv_authSlots (snd (randomID e n s)) = sv_authSlots s"
  "sv_iceURLs (snd (randomID e n s)) = sv_iceURLs s"
  "sv_turnSecret (snd (randomID e n s)) = sv_turnSecret s"
  "sv_closing (snd (randomID e n s)) = sv_closing s"
  by (simp_all add: randomID_def random_read_def)

lemma send_to_frame [simp, frame]:
  "sv_key (fst (send_to p msg s)) = sv_key s"
  "sv_store (fst (send_to p msg s)) = sv_store s"
  "sv_accounts (fst (send_to p msg s)) = sv_accounts s"
  "sv_emails (fst (send_to p msg s)) = sv_emails s"
  "sv_refresh (fst (send_to p msg s)) = sv_refresh s"
  "sv_devices (fst (send_to p msg s)) = sv_devices s"
  "sv_sessions (fst (send_to p msg s)) = sv_sessions s"
  "sv_challenges (fst (send_to p msg s)) = sv_challenges s"
  "sv_peers (fst (send_to p msg s)) = sv_peers s"
  "sv_sequences (fst (send_to p msg s)) = sv_sequences s"
  "sv_rates (fst (send_to p msg s)) = sv_rates s"
  "sv_audit (fst (send_to p msg s)) = sv_audit s"
  "sv_authSlots (fst (send_to p msg s)) = sv_authSlots s"
  "sv_iceURLs (fst (send_to p msg s)) = sv_iceURLs s"
  "sv_turnSecret (fst (send_to p msg s)) = sv_turnSecret s"
  "sv_closing (fst (send_to p msg s)) = sv_closing s"
  "sv_entropy (fst (send_to p msg s)) = sv_entropy s"
  by (simp_all add: send_to_def split: option.split)

lemma notify_frame [simp, frame]:
  "sv_key (notify d kd v s) = sv_key s"
  "sv_store (notify d kd v s) = sv_store s"
  "sv_accounts (notify d kd v s) = sv_accounts s"
  "sv_emails (notify d kd v s) = sv_emails s"
  "sv_refresh (notify d kd v s) = sv_refresh s"
  "sv_devices (notify d kd v s) = sv_devices s"
  "sv_sessions (notify d kd v s) = sv_sessions s"
  "sv_challenges (notify d kd v s) = sv_challenges s"
  "sv_peers (notify d kd v s) = sv_peers s"
  "sv_sequences (notify d kd v s) = sv_sequences s"
  "sv_rates (notify d kd v s) = sv_rates s"
  "sv_audit (notify d kd v s) = sv_audit s"
  "sv_authSlots (notify d kd v s) = sv_authSlots s"
  "sv_iceURLs (notify d kd v s) = sv_iceURLs s"
  "sv_turnSecret (notify d kd v s) = sv_turnSecret s"
  "sv_entropy (notify d kd v s) = sv_entropy s"
  using send_to_frame[where s = s]
  by (simp_all add: notify_def Let_def split_def split: option.split)

lemma notify_both_frame [simp, frame]:
  "sv_key (notify_both v s) = sv_key s"
  "sv_store (notify_both v s) = sv_store s"
  "sv_accounts (notify_both v s) = sv_accounts s"
  "sv_emails (notify_both v s) = sv_emails s"
  "sv_refresh (notify_both v s) = sv_refresh s"
  "sv_devices (notify_both v s) = sv_devices s"
  "sv_sessions (notify_both v s) = sv_sessions s"
  "sv_challenges (notify_both v s) = sv_challenges s"
  "sv_peers (notify_both v s) = sv_peers s"
  "sv_sequences (notify_both v s) = sv_sequences s"
  "sv_rates (notify_both v s) = sv_rates s"
  "sv_audit (notify_both v s) = sv_audit s"
  "sv_authSlots (notify_both v s) = sv_authSlots s"
  "sv_iceURLs (notify_both v s) = sv_iceURLs s"
  "sv_turnSecret (notify_both v s) = sv_turnSecret s"
  "sv_entropy (notify_both v s) = sv_entropy s"
  by (simp_all add: notify_both_def)

lemma end_session_frame [simp, frame]:
  "sv_key (end_session e now k st actor s) = sv_key s"
  "sv_store (end_session e now k st actor s) = sv_store s"
  "sv_accounts (end_session e now k st actor s) = sv_accounts s"
  "sv_emails (end_session e now k st actor s) = sv_emails s"
  "sv_refresh (end_session e now k st actor s) = sv_refresh s"
  "sv_devices (end_session e now k st actor s) = sv_devices s"
  "sv_challenges (end_session e now k st actor s) = sv_challenges s"
  "sv_peers (end_session e now k st actor s) = sv_peers s"
  "sv_sequences (end_session e now k st actor s) = sv_sequences s"
  "sv_rates (end_session e now k st actor s) = sv_rates s"
  "sv_authSlots (end_session e now k st actor s) = sv_authSlots s"
  "sv_iceURLs (end_session e now k st actor s) = sv_iceURLs s"
  "sv_turnSecret (end_session e now k st actor s) = sv_turnSecret s"
  by (simp_all add: end_session_def Let_def split: option.split)

lemma fold_frame: "(\<And>k s. f (g k s) = f s) \<Longrightarrow> f (fold g ks s) = f s"
  by (induction ks arbitrary: s) simp_all

lemma end_where_frame [simp, frame]:
  "sv_key (end_where e now P st actor s) = sv_key s"
  "sv_store (end_where e now P st actor s) = sv_store s"
  "sv_accounts (end_where e now P st actor s) = sv_accounts s"
  "sv_emails (end_where e now P st actor s) = sv_emails s"
  "sv_refresh (end_where e now P st actor s) = sv_refresh s"
  "sv_devices (end_where e now P st actor s) = sv_devices s"
  "sv_challenges (end_where e now P st actor s) = sv_challenges s"
  "sv_peers (end_where e now P st actor s) = sv_peers s"
  "sv_sequences (end_where e now P st actor s) = sv_sequences s"
  "sv_rates (end_where e now P st actor s) = sv_rates s"
  "sv_authSlots (end_where e now P st actor s) = sv_authSlots s"
  "sv_iceURLs (end_where e now P st actor s) = sv_iceURLs s"
  "sv_turnSecret (end_where e now P st actor s) = sv_turnSecret s"
  unfolding end_where_def by (rule fold_frame, simp split: option.split)+

lemma expire_frame [simp, frame]:
  "sv_key (expire e now s) = sv_key s"
  "sv_store (expire e now s) = sv_store s"
  "sv_accounts (expire e now s) = sv_accounts s"
  "sv_emails (expire e now s) = sv_emails s"
  "sv_devices (expire e now s) = sv_devices s"
  "sv_peers (expire e now s) = sv_peers s"
  "sv_sequences (expire e now s) = sv_sequences s"
  "sv_authSlots (expire e now s) = sv_authSlots s"
  "sv_iceURLs (expire e now s) = sv_iceURLs s"
  "sv_turnSecret (expire e now s) = sv_turnSecret s"
  by (simp_all add: expire_def Let_def)

lemma issue_frame [simp, frame]:
  "sv_key (fst (issue e now u f s)) = sv_key s"
  "sv_store (fst (issue e now u f s)) = sv_store s"
  "sv_accounts (fst (issue e now u f s)) = sv_accounts s"
  "sv_emails (fst (issue e now u f s)) = sv_emails s"
  "sv_devices (fst (issue e now u f s)) = sv_devices s"
  "sv_sessions (fst (issue e now u f s)) = sv_sessions s"
  "sv_challenges (fst (issue e now u f s)) = sv_challenges s"
  "sv_peers (fst (issue e now u f s)) = sv_peers s"
  "sv_conns (fst (issue e now u f s)) = sv_conns s"
  "sv_sequences (fst (issue e now u f s)) = sv_sequences s"
  "sv_rates (fst (issue e now u f s)) = sv_rates s"
  "sv_audit (fst (issue e now u f s)) = sv_audit s"
  "sv_authSlots (fst (issue e now u f s)) = sv_authSlots s"
  "sv_iceURLs (fst (issue e now u f s)) = sv_iceURLs s"
  "sv_turnSecret (fst (issue e now u f s)) = sv_turnSecret s"
  "sv_closing (fst (issue e now u f s)) = sv_closing s"
  by (simp_all add: issue_def Let_def split_def)

lemma device_proof_frame [simp, frame]:
  "sv_key (fst (device_proof e now r u k s)) = sv_key s"
  "sv_store (fst (device_proof e now r u k s)) = sv_store s"
  "sv_accounts (fst (device_proof e now r u k s)) = sv_accounts s"
  "sv_emails (fst (device_proof e now r u k s)) = sv_emails s"
  "sv_refresh (fst (device_proof e now r u k s)) = sv_refresh s"
  "sv_devices (fst (device_proof e now r u k s)) = sv_devices s"
  "sv_sessions (fst (device_proof e now r u k s)) = sv_sessions s"
  "sv_peers (fst (device_proof e now r u k s)) = sv_peers s"
  "sv_conns (fst (device_proof e now r u k s)) = sv_conns s"
  "sv_sequences (fst (device_proof e now r u k s)) = sv_sequences s"
  "sv_rates (fst (device_proof e now r u k s)) = sv_rates s"
  "sv_audit (fst (device_proof e now r u k s)) = sv_audit s"
  "sv_authSlots (fst (device_proof e now r u k s)) = sv_authSlots s"
  "sv_iceURLs (fst (device_proof e now r u k s)) = sv_iceURLs s"
  "sv_turnSecret (fst (device_proof e now r u k s)) = sv_turnSecret s"
  "sv_closing (fst (device_proof e now r u k s)) = sv_closing s"
  "sv_entropy (fst (device_proof e now r u k s)) = sv_entropy s"
  by (simp_all add: device_proof_def Let_def split: option.split)

lemma hashPassword_frame [simp, frame]:
  "sv_key (snd (hashPassword e raw s)) = sv_key s"
  "sv_store (snd (hashPassword e raw s)) = sv_store s"
  "sv_accounts (snd (hashPassword e raw s)) = sv_accounts s"
  "sv_emails (snd (hashPassword e raw s)) = sv_emails s"
  "sv_refresh (snd (hashPassword e raw s)) = sv_refresh s"
  "sv_devices (snd (hashPassword e raw s)) = sv_devices s"
  "sv_sessions (snd (hashPassword e raw s)) = sv_sessions s"
  "sv_challenges (snd (hashPassword e raw s)) = sv_challenges s"
  "sv_peers (snd (hashPassword e raw s)) = sv_peers s"
  "sv_conns (snd (hashPassword e raw s)) = sv_conns s"
  "sv_sequences (snd (hashPassword e raw s)) = sv_sequences s"
  "sv_rates (snd (hashPassword e raw s)) = sv_rates s"
  "sv_audit (snd (hashPassword e raw s)) = sv_audit s"
  "sv_authSlots (snd (hashPassword e raw s)) = sv_authSlots s"
  "sv_iceURLs (snd (hashPassword e raw s)) = sv_iceURLs s"
  "sv_turnSecret (snd (hashPassword e raw s)) = sv_turnSecret s"
  "sv_closing (snd (hashPassword e raw s)) = sv_closing s"
  by (simp_all add: hashPassword_def split_def Let_def)

section \<open>Effect of the primitives\<close>

lemma record_audit_audit:
  "sv_audit (record_audit e now u a r s) =
     append_capped 10000 (sv_audit s)
       \<lparr>au_ID = RawURLEncode (rand_bytes e (sv_entropy s) 12), au_Actor = u, au_Action = a,
        au_Resource = r, au_At = now\<rparr>"
  by (simp add: record_audit_def randomID_def random_read_def)

lemma adjust_const:
  assumes "wf_map m" and "get m k = Some v"
  shows "adjust k (\<lambda>_. f v) m = adjust k f m"
proof -
  have "v' = v" if "(k, v') \<in> set m" for v'
    using assms that by (auto simp: wf_map_def dest: eq_key_imp_eq_value map_of_SomeD)
  then show ?thesis by (auto simp: adjust_def)
qed

lemma adjust_absent: "get m k = None \<Longrightarrow> adjust k f m = m"
  by (induction m) (auto split: if_splits)

lemma end_session_sessions:
  "wf_map (sv_sessions s) \<Longrightarrow>
   sv_sessions (end_session e now k st actor s) = adjust k (ended st) (sv_sessions s)"
  by (simp add: end_session_def Let_def adjust_const adjust_absent split: option.split)

lemma end_step_sessions:
  assumes "wf_map (sv_sessions s)"
  shows "sv_sessions (case get (sv_sessions s) k of None \<Rightarrow> s
      | Some v \<Rightarrow> if P v then end_session e now k st actor s else s)
    = adjust k (\<lambda>v. if P v then ended st v else v) (sv_sessions s)"
proof (cases "get (sv_sessions s) k")
  case None
  then show ?thesis by (simp add: adjust_absent)
next
  case (Some v)
  with assms have "adjust k (\<lambda>v. if P v then ended st v else v) (sv_sessions s)
      = adjust k (\<lambda>_. if P v then ended st v else v) (sv_sessions s)"
    by (rule adjust_const[symmetric])
  moreover have "adjust k (\<lambda>_. v) (sv_sessions s) = sv_sessions s"
    using adjust_const[OF assms Some, of "\<lambda>x. x"] by (simp add: adjust_def)
  moreover have "adjust k (\<lambda>_. ended st v) (sv_sessions s) = adjust k (ended st) (sv_sessions s)"
    by (rule adjust_const[OF assms Some])
  ultimately show ?thesis
    using Some assms by (simp add: end_session_sessions)
qed

lemma end_fold_sessions:
  assumes "wf_map (sv_sessions s)" and "distinct ks"
  shows "sv_sessions (fold (\<lambda>k s. case get (sv_sessions s) k of None \<Rightarrow> s
      | Some v \<Rightarrow> if P v then end_session e now k st actor s else s) ks s)
    = map (\<lambda>(k, v). (k, if k \<in> set ks \<and> P v then ended st v else v)) (sv_sessions s)"
  using assms
proof (induction ks arbitrary: s)
  case Nil
  then show ?case by (simp add: case_prod_unfold)
next
  case (Cons k ks)
  let ?s1 = "case get (sv_sessions s) k of None \<Rightarrow> s
      | Some v \<Rightarrow> if P v then end_session e now k st actor s else s"
  have s1: "sv_sessions ?s1 = adjust k (\<lambda>v. if P v then ended st v else v) (sv_sessions s)"
    by (rule end_step_sessions[OF Cons.prems(1)])
  with Cons.prems have "wf_map (sv_sessions ?s1)" by simp
  from Cons.IH[OF this] Cons.prems(2) s1 show ?case
    by (auto simp: adjust_def)
qed

lemma end_where_sessions:
  assumes "wf_map (sv_sessions s)"
  shows "sv_sessions (end_where e now P st actor s) =
    each (\<lambda>v. if P v then ended st v else v) (sv_sessions s)"
proof -
  have "distinct (map fst (sv_sessions s))"
    using assms by (simp add: wf_map_def)
  from end_fold_sessions[OF assms this, of P e now st actor] show ?thesis
    unfolding end_where_def each_def by (force intro: map_cong)
qed

lemma expire_sessions:
  "wf_map (sv_sessions s) \<Longrightarrow>
   sv_sessions (expire e now s) =
     each (\<lambda>v. if open_session v \<and> \<not> now < s_Expires v then ended ''expired'' v else v)
       (sv_sessions s)"
  by (simp add: expire_def Let_def end_where_sessions)

lemma device_proof_challenges:
  "sv_challenges (fst (device_proof e now r u k s)) =
     del (sv_challenges s) (header_of r ''X-Device-Nonce'')"
  by (simp add: device_proof_def Let_def split: option.split)

lemma device_proof_ok:
  "snd (device_proof e now r u k s) \<longleftrightarrow>
    (\<exists>c. get (sv_challenges s) (header_of r ''X-Device-Nonce'') = Some c \<and> ch_User c = u \<and>
      now < ch_Expires c \<and>
      VerifyDevice e k (header_of r ''X-Device-Signature'') (rq_Method r) (rq_Path r)
        (header_of r ''X-Device-Nonce''))"
  by (auto simp: device_proof_def Let_def split: option.splits)

lemma live_Some:
  "live now s (Some d) \<longleftrightarrow> \<not> d_Revoked d \<and> get (sv_peers s) (d_ID d) \<noteq> None \<and>
     time_sub now (d_LastSeen d) < 45 * second"
  by (simp add: live_def)

lemma live_None [simp]: "\<not> live now s None"
  by (simp add: live_def)

end
