(* ===== verification/Session_Handlers.thy ===== *)
theory Session_Handlers
  imports Service_State
begin

text \<open>
  The session handlers of \<open>service.go\<close>: a session is requested by an operator for a live target
  device, decided by the target's owner, its permissions changed or its input control handed over,
  and stopped. A session pointer is the key it is stored under.
\<close>

section \<open>Requests\<close>

record session_request =
  sq_SourceID :: string
  sq_TargetID :: string
  sq_Permissions :: "Permission list"

text \<open>The loop over the sessions: \<open>None\<close> when the user already has an open session with the
  target, otherwise the number of open sessions of the user.\<close>

fun scan_sessions :: "string \<Rightarrow> string \<Rightarrow> Session list \<Rightarrow> nat \<Rightarrow> nat option" where
  "scan_sessions user target [] count = Some count"
| "scan_sessions user target (v # vs) count =
     (if s_OperatorID v = user \<and> open_session v
      then if s_TargetID v = target then None else scan_sessions user target vs (count + 1)
      else scan_sessions user target vs count)"

text \<open>The end of \<open>requestSession\<close>, once every check has passed.\<close>

definition create_session ::
  "env \<Rightarrow> time \<Rightarrow> string \<Rightarrow> Device \<Rightarrow> Device \<Rightarrow> Permission list \<Rightarrow>
   'st service \<Rightarrow> 'st outcome" where
  "create_session e now user source target perms s =
     (let (ident, s) = randomID e 18 s;
          v = \<lparr>s_ID = ident, s_OperatorID = user, s_SourceID = d_ID source,
               s_TargetID = d_ID target, s_State = ''pending'',
               s_Requested = perms, s_Granted = [], s_Created = now,
               s_Expires = now + 2 * minute, s_Epoch = 1,
               s_SourcePublicKey = d_PublicKey source,
               s_TargetPublicKey = d_PublicKey target\<rparr>;
          s = s\<lparr>sv_sessions := put (sv_sessions s) (s_ID v) v\<rparr>
      in case get (sv_accounts s) user of
           None \<Rightarrow> (s, Panicked)
         | Some a \<Rightarrow>
             (record_audit e now user ''session.requested'' (s_ID v)
                (notify (s_TargetID v) ''session.requested'' (PRequest v (a_Name a)) s),
              Reply 201 (JSession v)))"

definition request_from ::
  "env \<Rightarrow> time \<Rightarrow> http_request \<Rightarrow> session_request \<Rightarrow> string \<Rightarrow> Device \<Rightarrow> Device \<Rightarrow>
   'st service \<Rightarrow> 'st outcome" where
  "request_from e now r q user source target s =
     (let (s, ok) = device_proof e now r user (d_PublicKey source) s in
      if \<not> ok then fail s 403 ''source device proof required''
      else if \<not> validPermissions (sq_Permissions q)
      then fail s 400 ''valid permissions including view required''
      else case scan_sessions user (d_ID target) (vals (sv_sessions s)) 0 of
        None \<Rightarrow> fail s 409 ''a session for this target already exists''
      | Some count \<Rightarrow>
          if count \<ge> 10 then fail s 409 ''maximum 10 pending or active sessions''
          else create_session e now user source target (sq_Permissions q) s)"

definition requestSession ::
  "env \<Rightarrow> time \<Rightarrow> http_request \<Rightarrow> session_request json_body \<Rightarrow> string \<Rightarrow>
   'st service \<Rightarrow> 'st outcome" where
  "requestSession e now r b user s =
     (case decode b of Inl rep \<Rightarrow> (s, rep)
      | Inr q \<Rightarrow>
      (case (get (sv_devices s) (sq_SourceID q), get (sv_devices s) (sq_TargetID q)) of
         (Some source, Some target) \<Rightarrow>
           if d_OwnerID source \<noteq> user \<or> \<not> live now s (Some source) \<or>
              \<not> live now s (Some target) \<or> sq_SourceID q = sq_TargetID q
           then fail s 404 ''available source and target devices required''
           else request_from e now r q user source target s
       | _ \<Rightarrow> fail s 404 ''available source and target devices required''))"

section \<open>The target's side\<close>

text \<open>\<open>targetSession\<close>: the session named in the path if the user owns its target device, that
  device is live and the request carries its proof; otherwise the failure reply. A session whose
  target device is unknown is a nil dereference.\<close>

definition targetSession ::
  "env \<Rightarrow> time \<Rightarrow> http_request \<Rightarrow> string \<Rightarrow> string \<Rightarrow> 'st service \<Rightarrow>
   'st outcome + ('st service \<times> Session)" where
  "targetSession e now r k user s =
     (case get (sv_sessions s) k of
        None \<Rightarrow> Inl (fail s 404 ''session not found'')
      | Some v \<Rightarrow>
          (case get (sv_devices s) (s_TargetID v) of
             None \<Rightarrow> Inl (s, Panicked)
           | Some d \<Rightarrow>
               if d_OwnerID d \<noteq> user then Inl (fail s 404 ''session not found'')
               else if \<not> live now s (Some d)
               then Inl (fail s 403 ''online target device proof required'')
               else
                 let (s, ok) = device_proof e now r user (d_PublicKey d) s in
                 if \<not> ok then Inl (fail s 403 ''online target device proof required'')
                 else Inr (s, v)))"

definition controllerBusy :: "'st service \<Rightarrow> Session \<Rightarrow> bool" where
  "controllerBusy s v \<longleftrightarrow>
     list_ex (\<lambda>other. s_ID other \<noteq> s_ID v \<and> s_TargetID other = s_TargetID v \<and>
                      s_State other = ''active'' \<and> controls (s_Granted other))
       (vals (sv_sessions s))"

text \<open>Writing the session \<open>v\<close> through its pointer, telling both devices and recording, as the
  successful ends of the three handlers do.\<close>

definition update_session ::
  "env \<Rightarrow> time \<Rightarrow> string \<Rightarrow> Session \<Rightarrow> string \<Rightarrow> string \<Rightarrow> 'st service \<Rightarrow> 'st outcome" where
  "update_session e now k v user action s =
     (let s = s\<lparr>sv_sessions := adjust k (\<lambda>_. v) (sv_sessions s)\<rparr>
      in (record_audit e now user action (s_ID v) (notify_both v s), Reply 200 (JSession v)))"

definition reply_ended ::
  "env \<Rightarrow> time \<Rightarrow> string \<Rightarrow> Session \<Rightarrow> string \<Rightarrow> string \<Rightarrow> 'st service \<Rightarrow> 'st outcome" where
  "reply_ended e now k v state user s =
     (end_session e now k state user s, Reply 200 (JSession (ended state v)))"

record decision_request =
  dr_Approve :: bool
  dr_Permissions :: "Permission list"

definition decideSession ::
  "env \<Rightarrow> time \<Rightarrow> http_request \<Rightarrow> string \<Rightarrow> decision_request json_body \<Rightarrow> string \<Rightarrow>
   'st service \<Rightarrow> 'st outcome" where
  "decideSession e now r k b user s =
     (case decode b of Inl rep \<Rightarrow> (s, rep)
      | Inr q \<Rightarrow>
      case targetSession e now r k user s of Inl out \<Rightarrow> out
      | Inr (s, v) \<Rightarrow>
          if s_State v \<noteq> ''pending'' then fail s 409 ''session is not pending''
          else if \<not> dr_Approve q then reply_ended e now k v ''rejected'' user s
          else if \<not> validPermissions (dr_Permissions q) \<or>
                  \<not> perm_subset (dr_Permissions q) (s_Requested v)
          then fail s 400 ''grants must be a subset of requested permissions''
          else if controls (dr_Permissions q) \<and> controllerBusy s v
          then fail s 409 ''another operator controls this device; approve view-only then hand over''
          else update_session e now k
                 (v\<lparr>s_Granted := dr_Permissions q, s_State := ''active'',
                    s_Expires := now + 8 * hour, s_Epoch := s_Epoch v + 1\<rparr>)
                 user ''session.approved'' s)"

definition changePermissions ::
  "env \<Rightarrow> time \<Rightarrow> http_request \<Rightarrow> string \<Rightarrow> Permission list json_body \<Rightarrow> string \<Rightarrow>
   'st service \<Rightarrow> 'st outcome" where
  "changePermissions e now r k b user s =
     (case decode b of Inl rep \<Rightarrow> (s, rep)
      | Inr perms \<Rightarrow>
      case targetSession e now r k user s of Inl out \<Rightarrow> out
      | Inr (s, v) \<Rightarrow>
          if s_State v \<noteq> ''active'' then fail s 409 ''session is not active''
          else if length perms = 0 then reply_ended e now k v ''revoked'' user s
          else if \<not> validPermissions perms \<or> \<not> perm_subset perms (s_Requested v)
          then fail s 400 ''invalid grants''
          else if controls perms \<and> controllerBusy s v
          then fail s 409 ''control handover required''
          else update_session e now k
                 (v\<lparr>s_Granted := perms, s_Epoch := s_Epoch v + 1\<rparr>)
                 user ''session.permissions_changed'' s)"

text \<open>The first loop of \<open>handover\<close>: every other active session of the target loses mouse and
  keyboard, and its devices are told.\<close>

definition is_rival :: "Session \<Rightarrow> Session \<Rightarrow> bool" where
  "is_rival v old \<longleftrightarrow>
     s_TargetID old = s_TargetID v \<and> s_State old = ''active'' \<and> s_ID old \<noteq> s_ID v"

definition yield_control :: "Session \<Rightarrow> Session" where
  "yield_control old =
     old\<lparr>s_Granted := drop_controls (s_Granted old), s_Epoch := s_Epoch old + 1\<rparr>"

definition take_from_rivals :: "Session \<Rightarrow> 'st service \<Rightarrow> 'st service" where
  "take_from_rivals v s =
     fold (\<lambda>k s. case get (sv_sessions s) k of
                   None \<Rightarrow> s
                 | Some old \<Rightarrow>
                     if is_rival v old
                     then notify_both (yield_control old)
                            (s\<lparr>sv_sessions := adjust k (\<lambda>_. yield_control old) (sv_sessions s)\<rparr>)
                     else s)
       (map fst (sv_sessions s)) s"

definition handover ::
  "env \<Rightarrow> time \<Rightarrow> http_request \<Rightarrow> string \<Rightarrow> string \<Rightarrow> 'st service \<Rightarrow> 'st outcome" where
  "handover e now r k user s =
     (case targetSession e now r k user s of Inl out \<Rightarrow> out
      | Inr (s, v) \<Rightarrow>
          if s_State v \<noteq> ''active'' \<or> \<not> controls (s_Requested v)
          then fail s 409 ''active session with requested control required''
          else update_session e now k
                 (v\<lparr>s_Granted := grant_controls (s_Requested v) (s_Granted v),
                    s_Epoch := s_Epoch v + 1\<rparr>)
                 user ''session.control_handover'' (take_from_rivals v s))"

section \<open>Stopping and listing\<close>

definition stopSession ::
  "env \<Rightarrow> time \<Rightarrow> string \<Rightarrow> string \<Rightarrow> 'st service \<Rightarrow> 'st outcome" where
  "stopSession e now k user s =
     (case get (sv_sessions s) k of
        None \<Rightarrow> fail s 404 ''session not found''
      | Some v \<Rightarrow>
          if \<not> visible s v user then fail s 404 ''session not found''
          else if open_session v then reply_ended e now k v ''closed'' user s
          else (s, Reply 200 (JSession v)))"

definition listSessions :: "string \<Rightarrow> 'st service \<Rightarrow> 'st outcome" where
  "listSessions user s =
     (s, Reply 200 (JSessions (sort_key (\<lambda>v. - s_Created v)
            (filter (\<lambda>v. visible s v user) (vals (sv_sessions s))))))"

text \<open>The loop of \<open>listAudit\<close> from the newest event down, at most 200 events.\<close>

definition audit_visible :: "'st service \<Rightarrow> string \<Rightarrow> Audit \<Rightarrow> bool" where
  "audit_visible s user ev \<longleftrightarrow>
     au_Actor ev = user \<or>
     (case get (sv_devices s) (au_Resource ev) of None \<Rightarrow> False | Some d \<Rightarrow> d_OwnerID d = user) \<or>
     (case get (sv_sessions s) (au_Resource ev) of None \<Rightarrow> False | Some v \<Rightarrow> visible s v user)"

fun audit_loop :: "('a \<Rightarrow> bool) \<Rightarrow> nat \<Rightarrow> 'a list \<Rightarrow> 'a list \<Rightarrow> 'a list" where
  "audit_loop P limit [] out = out"
| "audit_loop P limit (x # xs) out =
     (if length out < limit then audit_loop P limit xs (if P x then out @ [x] else out) else out)"

definition listAudit :: "string \<Rightarrow> 'st service \<Rightarrow> 'st outcome" where
  "listAudit user s =
     (s, Reply 200 (JAudit (audit_loop (audit_visible s user) 200 (rev (sv_audit s)) [])))"

end
