(* ===== verification/Session_Lifecycle.thy ===== *)
theory Session_Lifecycle
  imports Session_Handlers
begin

text \<open>
  The contract of the session table, and the proof that the session handlers keep it.
  \<open>session_step\<close> is the life of one session (pending, active, then one of four final states),
  \<open>table_step\<close> lifts it to the table: every operation moves each session by at most one step or
  adds one pending session. \<open>session_ok\<close> is the invariant of one session, \<open>table_inv\<close> the
  invariant of the table: one controller per target, one open session per operator and target, at
  most ten open sessions per operator.
\<close>

section \<open>The life of one session\<close>

definition final_states :: "string list" where
  "final_states = [''rejected'', ''closed'', ''expired'', ''revoked'']"

inductive session_step :: "time \<Rightarrow> Session \<Rightarrow> Session \<Rightarrow> bool" for now where
  finish: "open_session v \<Longrightarrow> st \<in> set final_states \<Longrightarrow>
     (st = ''rejected'' \<longrightarrow> s_State v = ''pending'') \<Longrightarrow> session_step now v (ended st v)"
| approve: "s_State v = ''pending'' \<Longrightarrow> validPermissions g \<Longrightarrow> set g \<subseteq> set (s_Requested v) \<Longrightarrow>
     session_step now v
       (v\<lparr>s_Granted := g, s_State := ''active'', s_Expires := now + 8 * hour,
          s_Epoch := s_Epoch v + 1\<rparr>)"
| regrant: "s_State v = ''active'' \<Longrightarrow> validPermissions g \<Longrightarrow> set g \<subseteq> set (s_Requested v) \<Longrightarrow>
     session_step now v (v\<lparr>s_Granted := g, s_Epoch := s_Epoch v + 1\<rparr>)"

inductive_cases session_stepE: "session_step now v v'"

definition initial_session :: "time \<Rightarrow> Session \<Rightarrow> bool" where
  "initial_session now v \<longleftrightarrow>
     s_State v = ''pending'' \<and> s_Granted v = [] \<and> validPermissions (s_Requested v) \<and>
     s_SourceID v \<noteq> s_TargetID v \<and> s_Created v = now \<and> s_Expires v = now + 2 * minute \<and>
     s_Epoch v = 1"

definition session_ok :: "Session \<Rightarrow> bool" where
  "session_ok v \<longleftrightarrow>
     s_State v \<in> {''pending'', ''active''} \<union> set final_states \<and>
     validPermissions (s_Requested v) \<and> set (s_Granted v) \<subseteq> set (s_Requested v) \<and>
     (if s_State v = ''active'' then validPermissions (s_Granted v) else s_Granted v = []) \<and>
     s_SourceID v \<noteq> s_TargetID v"

definition controlling :: "Session \<Rightarrow> bool" where
  "controlling v \<longleftrightarrow> s_State v = ''active'' \<and> controls (s_Granted v)"

lemmas session_defs = open_session_def ended_def final_states_def

lemma session_step_ok: "session_step now v v' \<Longrightarrow> session_ok v \<Longrightarrow> session_ok v'"
  by (erule session_stepE) (auto simp: session_ok_def session_defs)

lemma initial_session_ok: "initial_session now v \<Longrightarrow> session_ok v"
  by (simp add: initial_session_def session_ok_def)

lemma session_step_identity:
  "session_step now v v' \<Longrightarrow>
     s_ID v' = s_ID v \<and> s_OperatorID v' = s_OperatorID v \<and> s_SourceID v' = s_SourceID v \<and>
     s_TargetID v' = s_TargetID v \<and> s_Requested v' = s_Requested v \<and> s_Created v' = s_Created v \<and>
     s_SourcePublicKey v' = s_SourcePublicKey v \<and> s_TargetPublicKey v' = s_TargetPublicKey v"
  by (erule session_stepE) (auto simp: session_defs)

lemma session_step_open: "session_step now v v' \<Longrightarrow> open_session v"
  by (erule session_stepE) (auto simp: session_defs)

lemma session_step_epoch: "session_step now v v' \<Longrightarrow> s_Epoch v' = s_Epoch v + 1"
  by (erule session_stepE) (auto simp: session_defs)

lemma session_step_yield:
  assumes "session_ok v" and "s_State v = ''active''"
  shows "session_step now v (yield_control v)"
proof -
  from assms have "validPermissions (drop_controls (s_Granted v))"
    and "set (drop_controls (s_Granted v)) \<subseteq> set (s_Requested v)"
    by (auto simp: session_ok_def validPermissions_sets perm_names)
  from session_step.regrant[OF assms(2) this] show ?thesis
    by (simp add: yield_control_def)
qed

lemma session_step_grant:
  assumes "session_ok v" and "s_State v = ''active''"
  shows "session_step now v
    (v\<lparr>s_Granted := grant_controls (s_Requested v) (s_Granted v), s_Epoch := s_Epoch v + 1\<rparr>)"
proof (rule session_step.regrant[OF assms(2)])
  from assms show "validPermissions (grant_controls (s_Requested v) (s_Granted v))"
    by (auto simp: session_ok_def validPermissions_sets set_grant_controls distinct_grant_controls)
  from assms show "set (grant_controls (s_Requested v) (s_Granted v)) \<subseteq> set (s_Requested v)"
    by (intro grant_controls_subset) (simp add: session_ok_def)
qed

lemma yield_control_simps [simp]:
  "s_ID (yield_control v) = s_ID v"
  "s_State (yield_control v) = s_State v"
  "s_TargetID (yield_control v) = s_TargetID v"
  "s_SourceID (yield_control v) = s_SourceID v"
  "\<not> controlling (yield_control v)"
  by (simp_all add: yield_control_def controlling_def)

lemma ended_simps [simp]:
  "s_ID (ended st v) = s_ID v"
  "s_OperatorID (ended st v) = s_OperatorID v"
  "s_TargetID (ended st v) = s_TargetID v"
  "s_SourceID (ended st v) = s_SourceID v"
  "s_State (ended st v) = st"
  "\<not> controlling (ended st v)"
  by (simp_all add: ended_def controlling_def)

section \<open>The table\<close>

type_synonym session_table = "(string, Session) gomap"

definition moves :: "time \<Rightarrow> Session \<Rightarrow> Session \<Rightarrow> bool" where
  "moves now v v' \<longleftrightarrow> v' = v \<or> session_step now v v'"

definition settles :: "time \<Rightarrow> session_table \<Rightarrow> session_table \<Rightarrow> bool" where
  "settles now m m' \<longleftrightarrow> list_all2 (\<lambda>e e'. fst e' = fst e \<and> moves now (snd e) (snd e')) m m'"

inductive table_step :: "time \<Rightarrow> session_table \<Rightarrow> session_table \<Rightarrow> bool" for now where
  settle: "settles now m m' \<Longrightarrow> table_step now m m'"
| request: "get m (s_ID v) = None \<Longrightarrow> initial_session now v \<Longrightarrow>
     table_step now m (m @ [(s_ID v, v)])"

inductive_cases table_stepE: "table_step now m m'"

lemma moves_refl [simp]: "moves now v v"
  by (simp add: moves_def)

lemma moves_identity:
  "moves now v v' \<Longrightarrow> s_OperatorID v' = s_OperatorID v \<and> s_TargetID v' = s_TargetID v \<and>
     s_SourceID v' = s_SourceID v \<and> (open_session v' \<longrightarrow> open_session v)"
  by (auto simp: moves_def dest: session_step_identity session_step_open)

lemma settles_refl [simp]: "settles now m m"
  by (simp add: settles_def list.rel_refl)

lemma table_step_refl [simp]: "table_step now m m"
  by (simp add: table_step.settle)

lemma settles_map:
  assumes "\<And>k v. (k, v) \<in> set m \<Longrightarrow> moves now v (f k v)"
  shows "settles now m (map (\<lambda>(k, v). (k, f k v)) m)"
  using assms unfolding settles_def by (induction m) auto

lemma settles_each:
  assumes "\<And>k v. (k, v) \<in> set m \<Longrightarrow> moves now v (f v)"
  shows "settles now m (each f m)"
  unfolding each_def by (rule settles_map) (rule assms)

lemma settles_adjust:
  assumes "wf_map m" and "get m k = Some v" and "moves now v v'"
  shows "settles now m (adjust k (\<lambda>_. v') m)"
proof -
  have "moves now w (if k' = k then v' else w)" if "(k', w) \<in> set m" for k' w
    using that assms by (auto simp: wf_map_def dest: eq_key_imp_eq_value map_of_SomeD)
  then show ?thesis
    unfolding adjust_def by (rule settles_map)
qed

lemma settles_keys: "settles now m m' \<Longrightarrow> map fst m' = map fst m"
  unfolding settles_def by (induction rule: list_all2_induct) auto

lemma settles_wf: "settles now m m' \<Longrightarrow> wf_map m' = wf_map m"
  by (simp add: wf_map_def settles_keys)

lemma settles_get:
  "settles now m m' \<Longrightarrow> rel_option (moves now) (get m k) (get m' k)"
  unfolding settles_def by (induction rule: list_all2_induct) auto

lemma settles_get_fwd:
  "settles now m m' \<Longrightarrow> get m k = Some v \<Longrightarrow> \<exists>v'. get m' k = Some v' \<and> moves now v v'"
  using settles_get[of now m m' k] by (auto simp: option_rel_Some1)

lemma settles_get_bwd:
  "settles now m m' \<Longrightarrow> get m' k = Some v' \<Longrightarrow> \<exists>v. get m k = Some v \<and> moves now v v'"
  using settles_get[of now m m' k] by (auto simp: option_rel_Some2)

lemma settles_all:
  assumes "settles now m m'" and "all_map P m" and "\<And>k v v'. P k v \<Longrightarrow> session_step now v v' \<Longrightarrow> P k v'"
  shows "all_map P m'"
  using assms(1,2) unfolding settles_def
  by (induction rule: list_all2_induct) (auto simp: all_map_def moves_def intro: assms(3))

lemma settles_count:
  assumes "settles now m m'" and "\<And>v v'. session_step now v v' \<Longrightarrow> P v' \<Longrightarrow> P v"
  shows "count_map P m' \<le> count_map P m"
  using assms(1) unfolding settles_def
  by (induction rule: list_all2_induct) (auto simp: count_map_def moves_def dest: assms(2))

section \<open>The invariant of the table\<close>

definition rows_ok :: "session_table \<Rightarrow> bool" where
  "rows_ok m \<longleftrightarrow> wf_map m \<and> all_map (\<lambda>k v. s_ID v = k \<and> session_ok v) m"

definition one_controller :: "session_table \<Rightarrow> bool" where
  "one_controller m \<longleftrightarrow>
     (\<forall>k k' v v'. get m k = Some v \<and> get m k' = Some v' \<and> controlling v \<and> controlling v' \<and>
        s_TargetID v = s_TargetID v' \<longrightarrow> k = k')"

definition one_open :: "session_table \<Rightarrow> bool" where
  "one_open m \<longleftrightarrow>
     (\<forall>k k' v v'. get m k = Some v \<and> get m k' = Some v' \<and> open_session v \<and> open_session v' \<and>
        s_OperatorID v = s_OperatorID v' \<and> s_TargetID v = s_TargetID v' \<longrightarrow> k = k')"

definition open_limit :: "session_table \<Rightarrow> bool" where
  "open_limit m \<longleftrightarrow> (\<forall>u. count_map (\<lambda>v. s_OperatorID v = u \<and> open_session v) m \<le> 10)"

definition table_inv :: "session_table \<Rightarrow> bool" where
  "table_inv m \<longleftrightarrow> rows_ok m \<and> one_controller m \<and> one_open m \<and> open_limit m"

lemma table_inv_Nil [simp]: "table_inv []"
  by (simp add: table_inv_def rows_ok_def one_controller_def one_open_def open_limit_def
      count_map_def)

lemma rows_ok_wf [dest]: "rows_ok m \<Longrightarrow> wf_map m"
  by (simp add: rows_ok_def)

lemma rows_okD: "rows_ok m \<Longrightarrow> get m k = Some v \<Longrightarrow> s_ID v = k \<and> session_ok v"
  by (auto simp: rows_ok_def dest: all_mapD)

lemma settles_rows: "settles now m m' \<Longrightarrow> rows_ok m \<Longrightarrow> rows_ok m'"
  unfolding rows_ok_def
  by (auto simp: settles_wf intro: session_step_ok dest: session_step_identity
      elim!: settles_all)

lemma settles_one_open: "settles now m m' \<Longrightarrow> one_open m \<Longrightarrow> one_open m'"
  unfolding one_open_def
proof (intro allI impI, elim conjE)
  fix k k' v v'
  assume s: "settles now m m'"
    and u: "\<forall>k k' v v'. get m k = Some v \<and> get m k' = Some v' \<and> open_session v \<and>
        open_session v' \<and> s_OperatorID v = s_OperatorID v' \<and> s_TargetID v = s_TargetID v'
        \<longrightarrow> k = k'"
    and *: "get m' k = Some v" "get m' k' = Some v'" "open_session v" "open_session v'"
    "s_OperatorID v = s_OperatorID v'" "s_TargetID v = s_TargetID v'"
  obtain w where w: "get m k = Some w" "moves now w v"
    using settles_get_bwd[OF s *(1)] by blast
  obtain w' where w': "get m k' = Some w'" "moves now w' v'"
    using settles_get_bwd[OF s *(2)] by blast
  have "open_session w" "open_session w'" "s_OperatorID w = s_OperatorID w'"
    "s_TargetID w = s_TargetID w'"
    using moves_identity[OF w(2)] moves_identity[OF w'(2)] *(3-6) by simp_all
  with u w(1) w'(1) show "k = k'" by blast
qed

lemma settles_open_limit:
  assumes "settles now m m'" and "open_limit m"
  shows "open_limit m'"
  unfolding open_limit_def
proof
  fix u
  have "count_map (\<lambda>v. s_OperatorID v = u \<and> open_session v) m'
      \<le> count_map (\<lambda>v. s_OperatorID v = u \<and> open_session v) m"
    by (rule settles_count[OF assms(1)]) (auto dest: session_step_identity session_step_open)
  with assms(2) show "count_map (\<lambda>v. s_OperatorID v = u \<and> open_session v) m' \<le> 10"
    unfolding open_limit_def using order_trans by blast
qed

lemma settles_inv:
  "settles now m m' \<Longrightarrow> table_inv m \<Longrightarrow> one_controller m' \<Longrightarrow> table_inv m'"
  by (simp add: table_inv_def settles_rows settles_one_open settles_open_limit)

text \<open>No session of the target gains control.\<close>

lemma one_controller_mono:
  assumes "one_controller m"
    and "\<And>k v'. get m' k = Some v' \<Longrightarrow> controlling v' \<Longrightarrow>
           \<exists>v. get m k = Some v \<and> controlling v \<and> s_TargetID v = s_TargetID v'"
  shows "one_controller m'"
  unfolding one_controller_def
proof (intro allI impI, elim conjE)
  fix k k' v v'
  assume *: "get m' k = Some v" "get m' k' = Some v'" "controlling v" "controlling v'"
    "s_TargetID v = s_TargetID v'"
  from assms(2)[OF *(1) *(3)] assms(2)[OF *(2) *(4)] *(5) assms(1) show "k = k'"
    unfolding one_controller_def by metis
qed

text \<open>One session is rewritten; if it controls afterwards, no other session of its target did.\<close>

lemma one_controller_adjust:
  assumes "one_controller m" and "get m k = Some v" and "s_TargetID v' = s_TargetID v"
    and "controlling v' \<Longrightarrow> \<forall>k' w. get m k' = Some w \<and> k' \<noteq> k \<and> s_TargetID w = s_TargetID v
           \<longrightarrow> \<not> controlling w"
  shows "one_controller (adjust k (\<lambda>_. v') m)"
  unfolding one_controller_def
proof (intro allI impI, elim conjE)
  fix x y w w'
  assume "get (adjust k (\<lambda>_. v') m) x = Some w" "get (adjust k (\<lambda>_. v') m) y = Some w'"
    and c: "controlling w" "controlling w'" "s_TargetID w = s_TargetID w'"
  then have x: "if x = k then w = v' else get m x = Some w"
    and y: "if y = k then w' = v' else get m y = Some w'"
    using assms(2) by (auto simp: get_adjust split: if_splits)
  show "x = y"
  proof (cases "x = k \<or> y = k")
    case True
    with x y c assms(3,4) show ?thesis by (metis (full_types))
  next
    case False
    with x y c assms(1) show ?thesis unfolding one_controller_def by auto
  qed
qed

end
