(* ===== verification/Session_Safety.thy ===== *)
theory Session_Safety
  imports Session_Lifecycle
begin

text \<open>
  What each session handler does to the session table, branch by branch, and the proof that every
  one of them keeps the table invariant and moves the sessions along the lifecycle of
  \<open>Session_Lifecycle\<close>.
\<close>

section \<open>The target's side\<close>

text \<open>The user owns the target device of \<open>v\<close>, that device is connected, and the request proves
  possession of its key.\<close>

definition target_side ::
  "env \<Rightarrow> time \<Rightarrow> http_request \<Rightarrow> string \<Rightarrow> Session \<Rightarrow> 'st service \<Rightarrow> bool" where
  "target_side e now r user v s \<longleftrightarrow>
     (case get (sv_devices s) (s_TargetID v) of
        None \<Rightarrow> False
      | Some d \<Rightarrow> d_OwnerID d = user \<and> live now s (Some d) \<and>
                  snd (device_proof e now r user (d_PublicKey d) s))"

lemma targetSession_Inr:
  "targetSession e now r k user s = Inr (s', v) \<Longrightarrow>
     get (sv_sessions s) k = Some v \<and> target_side e now r user v s \<and>
     (\<exists>key. s' = fst (device_proof e now r user key s))"
  by (auto simp: targetSession_def target_side_def fail_def Let_def split_def
      split: option.splits if_splits)

lemma targetSession_Inr_frame:
  assumes "targetSession e now r k user s = Inr (s', v)"
  shows "sv_sessions s' = sv_sessions s" "sv_devices s' = sv_devices s"
    "sv_accounts s' = sv_accounts s" "sv_emails s' = sv_emails s" "sv_refresh s' = sv_refresh s"
    "sv_peers s' = sv_peers s" "sv_rates s' = sv_rates s" "sv_audit s' = sv_audit s"
    "sv_authSlots s' = sv_authSlots s" "sv_conns s' = sv_conns s"
    "sv_entropy s' = sv_entropy s" "sv_key s' = sv_key s" "sv_store s' = sv_store s"
  using targetSession_Inr[OF assms] by auto

text \<open>Failure changes nothing but the challenges.\<close>

lemma targetSession_Inl_frame:
  assumes "targetSession e now r k user s = Inl out"
  shows "sv_sessions (fst out) = sv_sessions s" "sv_devices (fst out) = sv_devices s"
    "sv_accounts (fst out) = sv_accounts s" "sv_emails (fst out) = sv_emails s"
    "sv_refresh (fst out) = sv_refresh s" "sv_peers (fst out) = sv_peers s"
    "sv_rates (fst out) = sv_rates s" "sv_audit (fst out) = sv_audit s"
    "sv_authSlots (fst out) = sv_authSlots s" "sv_conns (fst out) = sv_conns s"
    "sv_entropy (fst out) = sv_entropy s" "sv_key (fst out) = sv_key s"
    "sv_store (fst out) = sv_store s"
  using assms
  by (auto simp: targetSession_def fail_def Let_def split_def split: option.splits if_splits)

lemma targetSession_Inl_reply:
  assumes "targetSession e now r k user s = Inl out"
  shows "(\<exists>st m. snd out = Reply st (JError m) \<and> (st = 404 \<or> st = 403)) \<or>
    (snd out = Panicked \<and>
      (\<exists>v. get (sv_sessions s) k = Some v \<and> get (sv_devices s) (s_TargetID v) = None))"
  using assms
  by (auto simp: targetSession_def fail_def Let_def split_def split: option.splits if_splits)

section \<open>Sessions after each step\<close>

lemma update_session_sessions:
  "sv_sessions (fst (update_session e now k v user a s)) = adjust k (\<lambda>_. v) (sv_sessions s)"
  by (simp add: update_session_def Let_def)

lemma reply_ended_sessions:
  "get (sv_sessions s) k = Some v \<Longrightarrow>
   sv_sessions (fst (reply_ended e now k v st user s)) = adjust k (\<lambda>_. ended st v) (sv_sessions s)"
  by (simp add: reply_ended_def end_session_def Let_def)

lemma update_session_frame [simp, frame]:
  "sv_devices (fst (update_session e now k v user a s)) = sv_devices s"
  "sv_accounts (fst (update_session e now k v user a s)) = sv_accounts s"
  "sv_emails (fst (update_session e now k v user a s)) = sv_emails s"
  "sv_refresh (fst (update_session e now k v user a s)) = sv_refresh s"
  "sv_peers (fst (update_session e now k v user a s)) = sv_peers s"
  "sv_challenges (fst (update_session e now k v user a s)) = sv_challenges s"
  "sv_rates (fst (update_session e now k v user a s)) = sv_rates s"
  "sv_authSlots (fst (update_session e now k v user a s)) = sv_authSlots s"
  "sv_key (fst (update_session e now k v user a s)) = sv_key s"
  "sv_store (fst (update_session e now k v user a s)) = sv_store s"
  by (simp_all add: update_session_def Let_def)

lemma reply_ended_frame [simp, frame]:
  "sv_devices (fst (reply_ended e now k v st user s)) = sv_devices s"
  "sv_accounts (fst (reply_ended e now k v st user s)) = sv_accounts s"
  "sv_emails (fst (reply_ended e now k v st user s)) = sv_emails s"
  "sv_refresh (fst (reply_ended e now k v st user s)) = sv_refresh s"
  "sv_peers (fst (reply_ended e now k v st user s)) = sv_peers s"
  "sv_challenges (fst (reply_ended e now k v st user s)) = sv_challenges s"
  "sv_rates (fst (reply_ended e now k v st user s)) = sv_rates s"
  "sv_authSlots (fst (reply_ended e now k v st user s)) = sv_authSlots s"
  "sv_key (fst (reply_ended e now k v st user s)) = sv_key s"
  "sv_store (fst (reply_ended e now k v st user s)) = sv_store s"
  by (simp_all add: reply_ended_def)

text \<open>A fold over the keys whose step rewrites one entry.\<close>

lemma fold_adjust_keys:
  assumes "\<And>k s. wf_map (S s) \<Longrightarrow> S (g k s) = adjust k f (S s)"
    and "wf_map (S s)" and "distinct ks"
  shows "S (fold g ks s) = map (\<lambda>(k, v). (k, if k \<in> set ks then f v else v)) (S s)"
  using assms(2,3)
proof (induction ks arbitrary: s)
  case Nil
  then show ?case by (simp add: case_prod_unfold)
next
  case (Cons k ks)
  have s1: "S (g k s) = adjust k f (S s)" by (rule assms(1)[OF Cons.prems(1)])
  with Cons.prems have "wf_map (S (g k s))" by simp
  from Cons.IH[OF this] Cons.prems(2) s1 show ?case
    by (auto simp: adjust_def)
qed

lemma fold_adjust_each:
  assumes "\<And>k s. wf_map (S s) \<Longrightarrow> S (g k s) = adjust k f (S s)" and "wf_map (S s)"
  shows "S (fold g (map fst (S s)) s) = each f (S s)"
proof -
  have "distinct (map fst (S s))" using assms(2) by (simp add: wf_map_def)
  from fold_adjust_keys[OF assms(1) assms(2) this] show ?thesis
    unfolding each_def by (force intro: map_cong)
qed

lemma adjust_id: "(\<And>v. get m k = Some v \<Longrightarrow> f v = v) \<Longrightarrow> wf_map m \<Longrightarrow> adjust k f m = m"
  unfolding adjust_def wf_map_def
  by (rule map_idI) (auto simp: split_def dest: map_of_is_SomeI)

lemma take_from_rivals_sessions:
  assumes "wf_map (sv_sessions s)"
  shows "sv_sessions (take_from_rivals v s) =
    each (\<lambda>w. if is_rival v w then yield_control w else w) (sv_sessions s)"
  unfolding take_from_rivals_def
proof (rule fold_adjust_each[where S = sv_sessions, OF _ assms])
  fix k and s :: "'a service"
  assume wf: "wf_map (sv_sessions s)"
  show "sv_sessions (case get (sv_sessions s) k of None \<Rightarrow> s
      | Some old \<Rightarrow> if is_rival v old
          then notify_both (yield_control old)
                 (s\<lparr>sv_sessions := adjust k (\<lambda>_. yield_control old) (sv_sessions s)\<rparr>)
          else s)
    = adjust k (\<lambda>w. if is_rival v w then yield_control w else w) (sv_sessions s)"
  proof (cases "get (sv_sessions s) k")
    case None
    then show ?thesis by (simp add: adjust_absent)
  next
    case (Some old)
    show ?thesis
    proof (cases "is_rival v old")
      case True
      with Some adjust_const[OF wf Some, of "\<lambda>w. if is_rival v w then yield_control w else w"]
      show ?thesis by simp
    next
      case False
      with Some wf have "adjust k (\<lambda>w. if is_rival v w then yield_control w else w) (sv_sessions s)
          = sv_sessions s"
        by (intro adjust_id) auto
      with Some False show ?thesis by simp
    qed
  qed
qed

lemma take_from_rivals_frame [simp, frame]:
  "sv_devices (take_from_rivals v s) = sv_devices s"
  "sv_accounts (take_from_rivals v s) = sv_accounts s"
  "sv_emails (take_from_rivals v s) = sv_emails s"
  "sv_refresh (take_from_rivals v s) = sv_refresh s"
  "sv_peers (take_from_rivals v s) = sv_peers s"
  "sv_challenges (take_from_rivals v s) = sv_challenges s"
  "sv_rates (take_from_rivals v s) = sv_rates s"
  "sv_audit (take_from_rivals v s) = sv_audit s"
  "sv_authSlots (take_from_rivals v s) = sv_authSlots s"
  "sv_entropy (take_from_rivals v s) = sv_entropy s"
  "sv_key (take_from_rivals v s) = sv_key s"
  "sv_store (take_from_rivals v s) = sv_store s"
  unfolding take_from_rivals_def by (rule fold_frame, simp split: option.split)+

section \<open>The handlers, branch by branch\<close>

definition approved :: "time \<Rightarrow> Permission list \<Rightarrow> Session \<Rightarrow> Session" where
  "approved now g v =
     v\<lparr>s_Granted := g, s_State := ''active'', s_Expires := now + 8 * hour,
       s_Epoch := s_Epoch v + 1\<rparr>"

definition regranted :: "Permission list \<Rightarrow> Session \<Rightarrow> Session" where
  "regranted g v = v\<lparr>s_Granted := g, s_Epoch := s_Epoch v + 1\<rparr>"

definition error_reply :: "reply \<Rightarrow> bool" where
  "error_reply rep \<longleftrightarrow> (\<exists>st m. rep = Reply st (JError m)) \<or> rep = Panicked"

text \<open>What the three handlers on the target's side have in common: either the check fails and the
  sessions stay, or the rest of the handler runs on a state that differs in the challenges only.\<close>

definition same_core :: "'st service \<Rightarrow> 'st service \<Rightarrow> bool" where
  "same_core s s1 \<longleftrightarrow> (\<exists>c. s1 = s\<lparr>sv_challenges := c\<rparr>)"

lemma same_core_frame:
  assumes "same_core s s1"
  shows "sv_sessions s1 = sv_sessions s" "controllerBusy s1 v = controllerBusy s v"
  using assms by (auto simp: same_core_def controllerBusy_def)

lemma device_proof_core: "same_core s (fst (device_proof e now r user key s))"
  by (auto simp: same_core_def device_proof_def Let_def split: option.split)

lemma on_target_cases:
  assumes "(case targetSession e now r k user s of Inl out \<Rightarrow> out | Inr (s, v) \<Rightarrow> F s v) = (s', rep)"
  obtains
    (Failed) "sv_sessions s' = sv_sessions s" "error_reply rep"
  | (Ok) s1 v where "get (sv_sessions s) k = Some v" "target_side e now r user v s"
      "same_core s s1" "F s1 v = (s', rep)"
proof (cases "targetSession e now r k user s")
  case (Inl out)
  with targetSession_Inl_frame(1)[OF Inl] targetSession_Inl_reply[OF Inl] assms show thesis
    by (intro Failed) (auto simp: error_reply_def)
next
  case (Inr sv)
  then obtain s1 v where sv: "targetSession e now r k user s = Inr (s1, v)"
    by (cases sv) simp
  with assms targetSession_Inr[OF sv] device_proof_core show thesis
    by (intro Ok) auto
qed

lemma reply_ended_cases:
  assumes "reply_ended e now k v st user s1 = (s', rep)" and "same_core s s1"
    and "get (sv_sessions s) k = Some v"
  shows "sv_sessions s' = adjust k (\<lambda>_. ended st v) (sv_sessions s)"
    and "rep = Reply 200 (JSession (ended st v))"
  using reply_ended_sessions[of s1 k v e now st user] assms same_core_frame(1)[OF assms(2)]
  by (auto simp: reply_ended_def)

lemma update_session_cases:
  assumes "update_session e now k v user a s1 = (s', rep)" and "same_core s s1"
  shows "sv_sessions s' = adjust k (\<lambda>_. v) (sv_sessions s)" and "rep = Reply 200 (JSession v)"
  using update_session_sessions[of e now k v user a s1] assms same_core_frame(1)[OF assms(2)]
  by (auto simp: update_session_def Let_def)

lemma fail_cases:
  assumes "fail s1 st m = (s', rep)" and "same_core s s1"
  shows "sv_sessions s' = sv_sessions s" and "error_reply rep"
  using assms same_core_frame(1)[OF assms(2)] by (auto simp: fail_def error_reply_def)

lemma decode_cases:
  assumes "(case decode b of Inl rep \<Rightarrow> (s, rep) | Inr q \<Rightarrow> F q) = (s', rep)"
  obtains (Failed) "s' = s" "error_reply rep" | (Ok) q where "b = OneObject q" "F q = (s', rep)"
  using assms by (cases b) (auto simp: decode_def error_reply_def)

text \<open>A decision: refused, rejected or approved.\<close>

definition grantable :: "'st service \<Rightarrow> Session \<Rightarrow> Permission list \<Rightarrow> bool" where
  "grantable s v g \<longleftrightarrow>
     validPermissions g \<and> set g \<subseteq> set (s_Requested v) \<and> (controls g \<longrightarrow> \<not> controllerBusy s v)"

lemma decideSession_cases:
  assumes "decideSession e now r k b user s = (s', rep)"
  obtains
    (Failed) "sv_sessions s' = sv_sessions s" "error_reply rep"
  | (Rejected) q v where "b = OneObject q" "\<not> dr_Approve q" "get (sv_sessions s) k = Some v"
      "target_side e now r user v s" "s_State v = ''pending''"
      "sv_sessions s' = adjust k (\<lambda>_. ended ''rejected'' v) (sv_sessions s)"
      "rep = Reply 200 (JSession (ended ''rejected'' v))"
  | (Approved) q v where "b = OneObject q" "dr_Approve q" "get (sv_sessions s) k = Some v"
      "target_side e now r user v s" "s_State v = ''pending''" "grantable s v (dr_Permissions q)"
      "sv_sessions s' = adjust k (\<lambda>_. approved now (dr_Permissions q) v) (sv_sessions s)"
      "rep = Reply 200 (JSession (approved now (dr_Permissions q) v))"
  using assms unfolding decideSession_def
proof (elim decode_cases on_target_cases)
  fix q s1 v
  assume q: "b = OneObject q" and v: "get (sv_sessions s) k = Some v"
    "target_side e now r user v s" and c: "same_core s s1"
    and F: "(if s_State v \<noteq> ''pending'' then fail s1 409 ''session is not pending''
      else if \<not> dr_Approve q then reply_ended e now k v ''rejected'' user s1
      else if \<not> validPermissions (dr_Permissions q) \<or>
              \<not> perm_subset (dr_Permissions q) (s_Requested v)
      then fail s1 400 ''grants must be a subset of requested permissions''
      else if controls (dr_Permissions q) \<and> controllerBusy s1 v
      then fail s1 409 ''another operator controls this device; approve view-only then hand over''
      else update_session e now k
             (v\<lparr>s_Granted := dr_Permissions q, s_State := ''active'',
                s_Expires := now + 8 * hour, s_Epoch := s_Epoch v + 1\<rparr>)
             user ''session.approved'' s1) = (s', rep)"
  consider "\<exists>st m. fail s1 st m = (s', rep)"
    | "s_State v = ''pending''" "\<not> dr_Approve q"
      "reply_ended e now k v ''rejected'' user s1 = (s', rep)"
    | "s_State v = ''pending''" "dr_Approve q" "grantable s v (dr_Permissions q)"
      "update_session e now k (approved now (dr_Permissions q) v) user ''session.approved'' s1
         = (s', rep)"
    using F by (auto simp: grantable_def approved_def same_core_frame(2)[OF c] split: if_splits)
  then show thesis
  proof cases
    case 1
    with fail_cases[OF _ c] show thesis by (metis Failed)
  next
    case 2
    with reply_ended_cases[OF 2(3) c v(1)] q v show thesis by (intro Rejected)
  next
    case 3
    with update_session_cases[OF 3(4) c] q v show thesis by (intro Approved)
  qed
qed (use Failed in auto)

text \<open>A change of permissions: refused, revoked (no permission left) or regranted.\<close>

lemma changePermissions_cases:
  assumes "changePermissions e now r k b user s = (s', rep)"
  obtains
    (Failed) "sv_sessions s' = sv_sessions s" "error_reply rep"
  | (Revoked) v where "b = OneObject []" "get (sv_sessions s) k = Some v"
      "target_side e now r user v s" "s_State v = ''active''"
      "sv_sessions s' = adjust k (\<lambda>_. ended ''revoked'' v) (sv_sessions s)"
      "rep = Reply 200 (JSession (ended ''revoked'' v))"
  | (Regranted) g v where "b = OneObject g" "get (sv_sessions s) k = Some v"
      "target_side e now r user v s" "s_State v = ''active''" "grantable s v g"
      "sv_sessions s' = adjust k (\<lambda>_. regranted g v) (sv_sessions s)"
      "rep = Reply 200 (JSession (regranted g v))"
  using assms unfolding changePermissions_def
proof (elim decode_cases on_target_cases)
  fix g s1 v
  assume q: "b = OneObject g" and v: "get (sv_sessions s) k = Some v"
    "target_side e now r user v s" and c: "same_core s s1"
    and F: "(if s_State v \<noteq> ''active'' then fail s1 409 ''session is not active''
      else if length g = 0 then reply_ended e now k v ''revoked'' user s1
      else if \<not> validPermissions g \<or> \<not> perm_subset g (s_Requested v)
      then fail s1 400 ''invalid grants''
      else if controls g \<and> controllerBusy s1 v then fail s1 409 ''control handover required''
      else update_session e now k (v\<lparr>s_Granted := g, s_Epoch := s_Epoch v + 1\<rparr>)
             user ''session.permissions_changed'' s1) = (s', rep)"
  consider "\<exists>st m. fail s1 st m = (s', rep)"
    | "s_State v = ''active''" "g = []" "reply_ended e now k v ''revoked'' user s1 = (s', rep)"
    | "s_State v = ''active''" "grantable s v g"
      "update_session e now k (regranted g v) user ''session.permissions_changed'' s1 = (s', rep)"
    using F by (auto simp: grantable_def regranted_def same_core_frame(2)[OF c] split: if_splits)
  then show thesis
  proof cases
    case 1
    with fail_cases[OF _ c] show thesis by (metis Failed)
  next
    case 2
    with reply_ended_cases[OF 2(3) c v(1)] q v show thesis by (intro Revoked) simp_all
  next
    case 3
    with update_session_cases[OF 3(3) c] q v show thesis by (intro Regranted)
  qed
qed (use Failed in auto)

text \<open>A handover: refused, or the session takes every input control it asked for and each rival on
  the same target gives up its own.\<close>

definition handed_over :: "Session \<Rightarrow> Session" where
  "handed_over v =
     v\<lparr>s_Granted := grant_controls (s_Requested v) (s_Granted v), s_Epoch := s_Epoch v + 1\<rparr>"

definition yield_rivals :: "Session \<Rightarrow> session_table \<Rightarrow> session_table" where
  "yield_rivals v = each (\<lambda>w. if is_rival v w then yield_control w else w)"

lemma handover_cases:
  assumes "handover e now r k user s = (s', rep)" and "wf_map (sv_sessions s)"
  obtains
    (Failed) "sv_sessions s' = sv_sessions s" "error_reply rep"
  | (Moved) v where "get (sv_sessions s) k = Some v" "target_side e now r user v s"
      "s_State v = ''active''" "controls (s_Requested v)"
      "sv_sessions s' = adjust k (\<lambda>_. handed_over v) (yield_rivals v (sv_sessions s))"
      "rep = Reply 200 (JSession (handed_over v))"
  using assms(1) unfolding handover_def
proof (elim on_target_cases)
  fix s1 v
  assume v: "get (sv_sessions s) k = Some v" "target_side e now r user v s"
    and c: "same_core s s1"
    and F: "(if s_State v \<noteq> ''active'' \<or> \<not> controls (s_Requested v)
      then fail s1 409 ''active session with requested control required''
      else update_session e now k
             (v\<lparr>s_Granted := grant_controls (s_Requested v) (s_Granted v),
                s_Epoch := s_Epoch v + 1\<rparr>)
             user ''session.control_handover'' (take_from_rivals v s1)) = (s', rep)"
  have wf: "wf_map (sv_sessions s1)"
    using assms(2) same_core_frame(1)[OF c] by simp
  consider "\<exists>st m. fail s1 st m = (s', rep)"
    | "s_State v = ''active''" "controls (s_Requested v)"
      "update_session e now k (handed_over v) user ''session.control_handover''
         (take_from_rivals v s1) = (s', rep)"
    using F by (auto simp: handed_over_def split: if_splits)
  then show thesis
  proof cases
    case 1
    with fail_cases[OF _ c] show thesis by (metis Failed)
  next
    case 2
    with update_session_sessions[of e now k "handed_over v" user "''session.control_handover''"
        "take_from_rivals v s1"] take_from_rivals_sessions[OF wf, of v] v same_core_frame(1)[OF c]
    show thesis
      by (intro Moved) (auto simp: yield_rivals_def update_session_def Let_def)
  qed
qed (use Failed in auto)

text \<open>Stopping a session.\<close>

lemma stopSession_cases:
  assumes "stopSession e now k user s = (s', rep)"
  obtains
    (Failed) "s' = s" "rep = Reply 404 (JError ''session not found'')"
  | (Closed) v where "get (sv_sessions s) k = Some v" "visible s v user" "open_session v"
      "sv_sessions s' = adjust k (\<lambda>_. ended ''closed'' v) (sv_sessions s)"
      "rep = Reply 200 (JSession (ended ''closed'' v))"
  | (Final) v where "get (sv_sessions s) k = Some v" "visible s v user" "\<not> open_session v"
      "s' = s" "rep = Reply 200 (JSession v)"
  using assms reply_ended_sessions[of s k _ e now "''closed''" user]
  by (auto simp: stopSession_def fail_def reply_ended_def split: option.splits if_splits)

text \<open>Requesting a session.\<close>

lemma scan_sessions_None:
  "scan_sessions user target vs n = None \<longleftrightarrow>
     (\<exists>v \<in> set vs. s_OperatorID v = user \<and> open_session v \<and> s_TargetID v = target)"
  by (induction vs arbitrary: n) auto

lemma scan_sessions_Some:
  "scan_sessions user target vs n = Some c \<Longrightarrow>
     c = n + length (filter (\<lambda>v. s_OperatorID v = user \<and> open_session v) vs) \<and>
     (\<forall>v \<in> set vs. s_OperatorID v = user \<longrightarrow> open_session v \<longrightarrow> s_TargetID v \<noteq> target)"
proof (induction vs arbitrary: n)
  case (Cons v vs)
  then show ?case by (fastforce split: if_splits)
qed simp

definition new_session ::
  "time \<Rightarrow> string \<Rightarrow> string \<Rightarrow> Device \<Rightarrow> Device \<Rightarrow> Permission list \<Rightarrow> Session" where
  "new_session now ident user source target perms =
     \<lparr>s_ID = ident, s_OperatorID = user, s_SourceID = d_ID source, s_TargetID = d_ID target,
      s_State = ''pending'', s_Requested = perms, s_Granted = [], s_Created = now,
      s_Expires = now + 2 * minute, s_Epoch = 1, s_SourcePublicKey = d_PublicKey source,
      s_TargetPublicKey = d_PublicKey target\<rparr>"

lemma new_session_simps [simp]:
  "s_ID (new_session now i u d d' g) = i"
  "s_OperatorID (new_session now i u d d' g) = u"
  "s_SourceID (new_session now i u d d' g) = d_ID d"
  "s_TargetID (new_session now i u d d' g) = d_ID d'"
  "s_State (new_session now i u d d' g) = ''pending''"
  "s_Granted (new_session now i u d d' g) = []"
  "s_Requested (new_session now i u d d' g) = g"
  "s_SourcePublicKey (new_session now i u d d' g) = d_PublicKey d"
  "s_TargetPublicKey (new_session now i u d d' g) = d_PublicKey d'"
  "open_session (new_session now i u d d' g)"
  "\<not> controlling (new_session now i u d d' g)"
  by (simp_all add: new_session_def open_session_def controlling_def)

lemma new_session_initial:
  "validPermissions g \<Longrightarrow> d_ID d \<noteq> d_ID d' \<Longrightarrow> initial_session now (new_session now i u d d' g)"
  by (simp add: initial_session_def new_session_def)

definition next_id :: "env \<Rightarrow> nat \<Rightarrow> 'st service \<Rightarrow> string" where
  "next_id e n s = RawURLEncode (rand_bytes e (sv_entropy s) n)"

lemma randomID_next: "randomID e n s = (next_id e n s, s\<lparr>sv_entropy := sv_entropy s + 1\<rparr>)"
  by (simp add: randomID_def random_read_def next_id_def)

definition requestable ::
  "time \<Rightarrow> string \<Rightarrow> session_request \<Rightarrow> Device \<Rightarrow> Device \<Rightarrow> 'st service \<Rightarrow> bool" where
  "requestable now user q source target s \<longleftrightarrow>
     get (sv_devices s) (sq_SourceID q) = Some source \<and>
     get (sv_devices s) (sq_TargetID q) = Some target \<and>
     d_OwnerID source = user \<and> live now s (Some source) \<and> live now s (Some target) \<and>
     sq_SourceID q \<noteq> sq_TargetID q \<and> validPermissions (sq_Permissions q) \<and>
     (\<forall>v \<in> set (vals (sv_sessions s)). s_OperatorID v = user \<longrightarrow> open_session v \<longrightarrow>
        s_TargetID v \<noteq> d_ID target) \<and>
     count_map (\<lambda>v. s_OperatorID v = user \<and> open_session v) (sv_sessions s) < 10"

lemma create_session_cases:
  assumes "create_session e now user source target g s = (s', rep)"
    and "v = new_session now (next_id e 18 s) user source target g"
  shows "sv_sessions s' = put (sv_sessions s) (s_ID v) v"
    and "rep = (if get (sv_accounts s) user = None then Panicked else Reply 201 (JSession v))"
  using assms
  by (auto simp: create_session_def randomID_next new_session_def Let_def split: option.splits)

lemma request_from_cases:
  assumes "request_from e now r q user source target s = (s', rep)"
    and "v = new_session now (next_id e 18 s) user source target (sq_Permissions q)"
  obtains
    (Failed) "sv_sessions s' = sv_sessions s" "error_reply rep"
  | (Requested) "snd (device_proof e now r user (d_PublicKey source) s)"
      "validPermissions (sq_Permissions q)"
      "\<forall>w \<in> set (vals (sv_sessions s)). s_OperatorID w = user \<longrightarrow> open_session w \<longrightarrow>
         s_TargetID w \<noteq> d_ID target"
      "count_map (\<lambda>w. s_OperatorID w = user \<and> open_session w) (sv_sessions s) < 10"
      "sv_sessions s' = put (sv_sessions s) (s_ID v) v"
      "rep = (if get (sv_accounts s) user = None then Panicked else Reply 201 (JSession v))"
proof -
  obtain s1 ok where p: "device_proof e now r user (d_PublicKey source) s = (s1, ok)"
    by (cases "device_proof e now r user (d_PublicKey source) s")
  then have s1: "s1 = fst (device_proof e now r user (d_PublicKey source) s)" by simp
  have c: "same_core s s1" unfolding s1 by (rule device_proof_core)
  consider "\<exists>st m. fail s1 st m = (s', rep)"
    | count where "ok" "validPermissions (sq_Permissions q)"
      "scan_sessions user (d_ID target) (vals (sv_sessions s1)) 0 = Some count" "count < 10"
      "create_session e now user source target (sq_Permissions q) s1 = (s', rep)"
    using assms(1) by (auto simp: request_from_def p split: option.splits if_splits)
  then show thesis
  proof cases
    case 1
    with fail_cases[OF _ c] show thesis by (metis Failed)
  next
    case (2 count)
    have eq: "next_id e 18 s1 = next_id e 18 s" "sv_sessions s1 = sv_sessions s"
      "sv_accounts s1 = sv_accounts s" by (simp_all add: s1 next_id_def)
    have "snd (device_proof e now r user (d_PublicKey source) s)" using p 2(1) by simp
    moreover note create_session_cases[OF 2(5), of v] scan_sessions_Some[OF 2(3)]
    ultimately show thesis
      using 2(2,4) assms(2) by (intro Requested) (simp_all add: count_map_def eq)
  qed
qed

lemma requestSession_cases:
  assumes "requestSession e now r b user s = (s', rep)"
  obtains
    (Failed) "sv_sessions s' = sv_sessions s" "error_reply rep"
  | (Requested) q source target v where "b = OneObject q" "requestable now user q source target s"
      "snd (device_proof e now r user (d_PublicKey source) s)"
      "v = new_session now (next_id e 18 s) user source target (sq_Permissions q)"
      "sv_sessions s' = put (sv_sessions s) (s_ID v) v"
      "rep = (if get (sv_accounts s) user = None then Panicked else Reply 201 (JSession v))"
  using assms unfolding requestSession_def
proof (elim decode_cases)
  fix q
  assume q: "b = OneObject q"
    and F: "(case (get (sv_devices s) (sq_SourceID q), get (sv_devices s) (sq_TargetID q)) of
       (Some source, Some target) \<Rightarrow>
         if d_OwnerID source \<noteq> user \<or> \<not> live now s (Some source) \<or>
            \<not> live now s (Some target) \<or> sq_SourceID q = sq_TargetID q
         then fail s 404 ''available source and target devices required''
         else request_from e now r q user source target s
     | _ \<Rightarrow> fail s 404 ''available source and target devices required'') = (s', rep)"
  consider "\<exists>st m. fail s st m = (s', rep)"
    | source target where "get (sv_devices s) (sq_SourceID q) = Some source"
      "get (sv_devices s) (sq_TargetID q) = Some target" "d_OwnerID source = user"
      "live now s (Some source)" "live now s (Some target)" "sq_SourceID q \<noteq> sq_TargetID q"
      "request_from e now r q user source target s = (s', rep)"
    using F by (auto split: option.splits if_splits)
  then show thesis
  proof cases
    case 1
    then show thesis by (intro Failed) (auto simp: fail_def error_reply_def)
  next
    case (2 source target)
    from 2(7) refl show thesis
      by (rule request_from_cases) (use 2 q Failed Requested in \<open>auto simp: requestable_def\<close>)
  qed
qed (use Failed in auto)

section \<open>The handlers keep the invariant and follow the lifecycle\<close>

text \<open>What every operation owes the session table.\<close>

definition keeps_table :: "time \<Rightarrow> session_table \<Rightarrow> session_table \<Rightarrow> bool" where
  "keeps_table now m m' \<longleftrightarrow> table_step now m m' \<and> table_inv m'"

lemma keeps_refl [simp]: "table_inv m \<Longrightarrow> keeps_table now m m"
  by (simp add: keeps_table_def)

lemma keeps_settle:
  "table_inv m \<Longrightarrow> settles now m m' \<Longrightarrow> one_controller m' \<Longrightarrow> keeps_table now m m'"
  by (simp add: keeps_table_def table_step.settle settles_inv)

lemma table_invD:
  assumes "table_inv m"
  shows "rows_ok m" "wf_map m" "one_controller m" "one_open m" "open_limit m"
  using assms by (auto simp: table_inv_def)

lemma table_inv_row: "table_inv m \<Longrightarrow> get m k = Some v \<Longrightarrow> s_ID v = k \<and> session_ok v"
  by (rule rows_okD[OF table_invD(1)])

text \<open>Rewriting one session by a step of its lifecycle that does not bring a second controller.\<close>

lemma keeps_adjust:
  assumes "table_inv m" and "get m k = Some v" and "session_step now v v'"
    and "controlling v' \<Longrightarrow> \<forall>k' w. get m k' = Some w \<and> k' \<noteq> k \<and> s_TargetID w = s_TargetID v
           \<longrightarrow> \<not> controlling w"
  shows "keeps_table now m (adjust k (\<lambda>_. v') m)"
proof (rule keeps_settle[OF assms(1)])
  show "settles now m (adjust k (\<lambda>_. v') m)"
    using assms by (intro settles_adjust) (auto simp: moves_def dest: table_invD)
  have "s_TargetID v' = s_TargetID v"
    using session_step_identity[OF assms(3)] by simp
  then show "one_controller (adjust k (\<lambda>_. v') m)"
    using assms table_invD(3)[OF assms(1)] by (intro one_controller_adjust)
qed

lemma keeps_ended:
  assumes "table_inv m" and "get m k = Some v" and "open_session v" and "st \<in> set final_states"
    and "st = ''rejected'' \<longrightarrow> s_State v = ''pending''"
  shows "keeps_table now m (adjust k (\<lambda>_. ended st v) m)"
  by (rule keeps_adjust[OF assms(1,2) session_step.finish[OF assms(3-5)]]) simp

lemma keeps_end_each:
  assumes "table_inv m" and "\<And>v. P v \<Longrightarrow> open_session v"
    and "st \<in> set final_states" and "st \<noteq> ''rejected''"
  shows "keeps_table now m (each (\<lambda>v. if P v then ended st v else v) m)"
proof (rule keeps_settle[OF assms(1)])
  show "settles now m (each (\<lambda>v. if P v then ended st v else v) m)"
    using assms(2-) by (intro settles_each) (auto simp: moves_def intro: session_step.finish)
  show "one_controller (each (\<lambda>v. if P v then ended st v else v) m)"
    by (rule one_controller_mono[OF table_invD(3)[OF assms(1)]])
       (auto simp: get_each split: if_splits)
qed

lemma not_busy:
  assumes "rows_ok (sv_sessions s)" and "\<not> controllerBusy s v" and "s_ID v = k"
  shows "\<forall>k' w. get (sv_sessions s) k' = Some w \<and> k' \<noteq> k \<and> s_TargetID w = s_TargetID v
    \<longrightarrow> \<not> controlling w"
proof (intro allI impI notI, elim conjE)
  fix k' w
  assume w: "get (sv_sessions s) k' = Some w" "k' \<noteq> k" "s_TargetID w = s_TargetID v"
    and c: "controlling w"
  from rows_okD[OF assms(1) w(1)] w(2) assms(3) have "s_ID w \<noteq> s_ID v" by simp
  moreover from w(1) have "w \<in> set (vals (sv_sessions s))"
    by (auto dest: map_of_SomeD intro: rev_image_eqI)
  ultimately show False
    using assms(2) w(3) c by (auto simp: controllerBusy_def controlling_def list_ex_iff)
qed

lemma grantable_quiet:
  assumes "rows_ok (sv_sessions s)" and "grantable s v g" and "controls g" and "s_ID v = k"
  shows "\<forall>k' w. get (sv_sessions s) k' = Some w \<and> k' \<noteq> k \<and> s_TargetID w = s_TargetID v
    \<longrightarrow> \<not> controlling w"
  by (rule not_busy[OF assms(1) _ assms(4)]) (use assms(2,3) in \<open>simp add: grantable_def\<close>)

lemma controlling_granted:
  "controlling (approved now g v) \<Longrightarrow> controls g"
  "controlling (regranted g v) \<Longrightarrow> controls g"
  by (simp_all add: controlling_def approved_def regranted_def)

lemma controllingD: "controlling v \<Longrightarrow> s_State v = ''active''"
  by (simp add: controlling_def)

theorem decideSession_keeps:
  assumes "table_inv (sv_sessions s)"
  shows "keeps_table now (sv_sessions s) (sv_sessions (fst (decideSession e now r k b user s)))"
proof -
  obtain s' rep where d: "decideSession e now r k b user s = (s', rep)" by force
  note inv = assms and row = table_inv_row[OF assms]
  from d show ?thesis
  proof (cases rule: decideSession_cases)
    case Failed
    with d inv show ?thesis by simp
  next
    case (Rejected q v)
    with keeps_ended[OF inv Rejected(3), of "''rejected''" now] d show ?thesis
      by (simp add: session_defs)
  next
    case (Approved q v)
    have "session_step now v (approved now (dr_Permissions q) v)"
      using Approved unfolding approved_def grantable_def by (intro session_step.approve) auto
    moreover have "\<forall>k' w. get (sv_sessions s) k' = Some w \<and> k' \<noteq> k \<and>
        s_TargetID w = s_TargetID v \<longrightarrow> \<not> controlling w"
      if "controlling (approved now (dr_Permissions q) v)"
      using that Approved(6) row[OF Approved(3)] controlling_granted(1)
      by (intro grantable_quiet[OF table_invD(1)[OF inv]]) auto
    ultimately have "keeps_table now (sv_sessions s)
        (adjust k (\<lambda>_. approved now (dr_Permissions q) v) (sv_sessions s))"
      by (rule keeps_adjust[OF inv Approved(3)])
    with Approved(7) d show ?thesis by simp
  qed
qed

theorem changePermissions_keeps:
  assumes "table_inv (sv_sessions s)"
  shows "keeps_table now (sv_sessions s)
    (sv_sessions (fst (changePermissions e now r k b user s)))"
proof -
  obtain s' rep where d: "changePermissions e now r k b user s = (s', rep)" by force
  note inv = assms and row = table_inv_row[OF assms]
  from d show ?thesis
  proof (cases rule: changePermissions_cases)
    case Failed
    with d inv show ?thesis by simp
  next
    case (Revoked v)
    with keeps_ended[OF inv Revoked(2), of "''revoked''" now] d show ?thesis
      by (simp add: session_defs)
  next
    case (Regranted g v)
    have "session_step now v (regranted g v)"
      using Regranted unfolding regranted_def grantable_def by (intro session_step.regrant) auto
    moreover have "\<forall>k' w. get (sv_sessions s) k' = Some w \<and> k' \<noteq> k \<and>
        s_TargetID w = s_TargetID v \<longrightarrow> \<not> controlling w"
      if "controlling (regranted g v)"
      using that Regranted(5) row[OF Regranted(2)] controlling_granted(2)
      by (intro grantable_quiet[OF table_invD(1)[OF inv]]) auto
    ultimately have "keeps_table now (sv_sessions s)
        (adjust k (\<lambda>_. regranted g v) (sv_sessions s))"
      by (rule keeps_adjust[OF inv Regranted(2)])
    with Regranted(6) d show ?thesis by simp
  qed
qed

text \<open>The table after a handover: every other session of the target has lost its input control.\<close>

lemma get_yield_rivals:
  "get (yield_rivals v m) x =
     map_option (\<lambda>w. if is_rival v w then yield_control w else w) (get m x)"
  by (simp add: yield_rivals_def get_each)

lemma yield_moves:
  assumes "table_inv m" and "(x, w) \<in> set m"
  shows "moves now w (if is_rival v w then yield_control w else w)"
proof -
  have "get m x = Some w" using assms table_invD(2) by (simp add: wf_map_get)
  then show ?thesis
    using table_inv_row[OF assms(1)] session_step_yield by (auto simp: moves_def is_rival_def)
qed

lemma yield_rivals_inv:
  assumes "table_inv m"
  shows "table_inv (yield_rivals v m)"
proof (rule settles_inv[OF _ assms])
  show "settles now m (yield_rivals v m)"
    unfolding yield_rivals_def by (rule settles_each) (rule yield_moves[OF assms])
  show "one_controller (yield_rivals v m)"
    by (rule one_controller_mono[OF table_invD(3)[OF assms]])
      (auto simp: get_yield_rivals split: if_splits)
qed

lemma yield_rivals_quiet:
  assumes "table_inv m" and "get m k = Some v" and "get (yield_rivals v m) x = Some w" and "x \<noteq> k"
    and "s_TargetID w = s_TargetID v"
  shows "\<not> controlling w"
proof -
  note row = table_inv_row[OF assms(1)]
  from assms(3) obtain u where u: "get m x = Some u" "w = (if is_rival v u then yield_control u else u)"
    by (auto simp: get_yield_rivals)
  show ?thesis
  proof (cases "is_rival v u")
    case False
    with u(2) assms(4,5) row[OF u(1)] row[OF assms(2)] have "s_State w \<noteq> ''active''"
      by (auto simp: is_rival_def)
    then show ?thesis by (auto dest: controllingD)
  qed (use u in simp)
qed

lemma handover_table:
  assumes inv: "table_inv m" and v: "get m k = Some v" "s_State v = ''active''"
  shows "keeps_table now m (adjust k (\<lambda>_. handed_over v) (yield_rivals v m))"
    and "get m k' = Some w \<Longrightarrow> k' \<noteq> k \<Longrightarrow>
      get (adjust k (\<lambda>_. handed_over v) (yield_rivals v m)) k' =
        Some (if s_TargetID w = s_TargetID v \<and> s_State w = ''active'' then yield_control w else w)"
proof -
  note row = table_inv_row[OF inv]
  let ?f = "\<lambda>x w. if x = k then handed_over v else if is_rival v w then yield_control w else w"
  have self: "get (yield_rivals v m) k = Some v"
    using v row[OF v(1)] by (simp add: get_yield_rivals is_rival_def)
  have step: "session_step now v (handed_over v)"
    unfolding handed_over_def using row[OF v(1)] v(2) by (intro session_step_grant) auto
  have inv2: "table_inv (adjust k (\<lambda>_. handed_over v) (yield_rivals v m))"
    using keeps_adjust[OF yield_rivals_inv[OF inv] self step] yield_rivals_quiet[OF inv v(1)]
    unfolding keeps_table_def by blast
  have "adjust k (\<lambda>_. handed_over v) (yield_rivals v m) = map (\<lambda>(x, w). (x, ?f x w)) m"
    by (auto simp: adjust_def yield_rivals_def each_def)
  moreover have "moves now w (?f x w)" if "(x, w) \<in> set m" for x w
  proof (cases "x = k")
    case True
    have "get m x = Some w" using that table_invD(2)[OF inv] by (simp add: wf_map_get)
    with True v(1) have "w = v" by simp
    with True step show ?thesis by (simp add: moves_def)
  qed (use yield_moves[OF inv that] in simp)
  ultimately have "settles now m (adjust k (\<lambda>_. handed_over v) (yield_rivals v m))"
    by (simp only: settles_map)
  with inv2 show "keeps_table now m (adjust k (\<lambda>_. handed_over v) (yield_rivals v m))"
    by (simp add: keeps_table_def table_step.settle)
  show "get m k' = Some w \<Longrightarrow> k' \<noteq> k \<Longrightarrow>
      get (adjust k (\<lambda>_. handed_over v) (yield_rivals v m)) k' =
        Some (if s_TargetID w = s_TargetID v \<and> s_State w = ''active'' then yield_control w else w)"
    using row[of k' w] row[OF v(1)] by (auto simp: get_adjust get_yield_rivals is_rival_def)
qed

theorem handover_keeps:
  assumes "table_inv (sv_sessions s)"
  shows "keeps_table now (sv_sessions s) (sv_sessions (fst (handover e now r k user s)))"
proof -
  obtain s' rep where d: "handover e now r k user s = (s', rep)" by force
  from d table_invD(2)[OF assms] show ?thesis
    by (cases rule: handover_cases) (use assms d handover_table(1)[OF assms] in auto)
qed

theorem stopSession_keeps:
  assumes "table_inv (sv_sessions s)"
  shows "keeps_table now (sv_sessions s) (sv_sessions (fst (stopSession e now k user s)))"
proof -
  obtain s' rep where d: "stopSession e now k user s = (s', rep)" by force
  from d show ?thesis
    by (cases rule: stopSession_cases)
      (use assms d keeps_ended[OF assms, of k _ "''closed''" now] in \<open>auto simp: session_defs\<close>)
qed

lemma one_open_put:
  assumes "one_open m"
    and one: "\<forall>w \<in> set (vals m). s_OperatorID w = s_OperatorID v \<longrightarrow> open_session w \<longrightarrow>
        s_TargetID w \<noteq> s_TargetID v"
  shows "one_open (put m k v)"
proof -
  have other: "False" if "get m x = Some w" "open_session w" "s_OperatorID w = s_OperatorID v"
    "s_TargetID w = s_TargetID v" for x w
  proof -
    have "w \<in> set (vals m)" using that(1) by (auto dest: map_of_SomeD intro: rev_image_eqI)
    with one that(2-4) show False by blast
  qed
  show ?thesis
    unfolding one_open_def
  proof (intro allI impI, elim conjE)
    fix x y w w'
    assume g: "get (put m k v) x = Some w" "get (put m k v) y = Some w'"
      and o: "open_session w" "open_session w'" "s_OperatorID w = s_OperatorID w'"
        "s_TargetID w = s_TargetID w'"
    show "x = y"
    proof (rule ccontr)
      assume "x \<noteq> y"
      moreover have "x = k \<and> w = v \<or> get m x = Some w"
        using g(1) by (cases "x = k") (simp_all add: get_put)
      moreover have "y = k \<and> w' = v \<or> get m y = Some w'"
        using g(2) by (cases "y = k") (simp_all add: get_put)
      ultimately consider "w = v" "get m y = Some w'" | "w' = v" "get m x = Some w"
        | "get m x = Some w" "get m y = Some w'"
        by blast
      then show False
      proof cases
        case 3
        with \<open>x \<noteq> y\<close> o assms(1) show False unfolding one_open_def by blast
      qed (use o other in metis)+
    qed
  qed
qed

lemma request_table:
  assumes inv: "table_inv m" and fresh: "get m (s_ID v) = None" and ini: "initial_session now v"
    and one: "\<forall>w \<in> set (vals m). s_OperatorID w = s_OperatorID v \<longrightarrow> open_session w \<longrightarrow>
        s_TargetID w \<noteq> s_TargetID v"
    and few: "count_map (\<lambda>w. s_OperatorID w = s_OperatorID v \<and> open_session w) m < 10"
  shows "keeps_table now m (put m (s_ID v) v)"
proof -
  have idle: "\<not> controlling v" using ini by (simp add: initial_session_def controlling_def)
  have "rows_ok (put m (s_ID v) v)"
    using table_invD(1)[OF inv] ini
    by (auto simp: rows_ok_def initial_session_ok intro: all_map_put)
  moreover have "one_controller (put m (s_ID v) v)"
    by (rule one_controller_mono[OF table_invD(3)[OF inv]])
      (use idle in \<open>auto simp: get_put split: if_splits\<close>)
  moreover have "one_open (put m (s_ID v) v)"
    by (rule one_open_put[OF table_invD(4)[OF inv] one])
  moreover have "open_limit (put m (s_ID v) v)"
    using table_invD(5)[OF inv] few unfolding open_limit_def
    by (auto simp: count_put_new[OF fresh])
  ultimately have "table_inv (put m (s_ID v) v)" by (simp add: table_inv_def)
  moreover have "table_step now m (put m (s_ID v) v)"
    unfolding put_new[OF fresh] by (rule table_step.request[OF fresh ini])
  ultimately show ?thesis by (simp add: keeps_table_def)
qed

theorem requestSession_keeps:
  assumes "table_inv (sv_sessions s)" and "get (sv_sessions s) (next_id e 18 s) = None"
    and "all_map (\<lambda>k d. d_ID d = k) (sv_devices s)"
  shows "keeps_table now (sv_sessions s) (sv_sessions (fst (requestSession e now r b user s)))"
proof -
  obtain s' rep where d: "requestSession e now r b user s = (s', rep)" by force
  from d show ?thesis
  proof (cases rule: requestSession_cases)
    case Failed
    with d assms show ?thesis by simp
  next
    case (Requested q source target v)
    then have "d_ID source \<noteq> d_ID target"
      using all_mapD[OF assms(3)] by (metis requestable_def)
    with Requested have "initial_session now v"
      by (simp add: new_session_initial requestable_def)
    with Requested assms(2) d show ?thesis
      using request_table[OF assms(1), of v now] by (simp add: requestable_def)
  qed
qed

theorem end_where_keeps:
  assumes "table_inv (sv_sessions s)" and "\<And>v. P v \<Longrightarrow> open_session v"
    and "st \<in> set final_states" and "st \<noteq> ''rejected''"
  shows "keeps_table now (sv_sessions s) (sv_sessions (end_where e now P st actor s))"
  using keeps_end_each[OF assms] by (simp add: end_where_sessions[OF table_invD(2)[OF assms(1)]])

theorem expire_keeps:
  assumes "table_inv (sv_sessions s)"
  shows "keeps_table now (sv_sessions s) (sv_sessions (expire e now s))"
  using keeps_end_each[OF assms, of "\<lambda>v. open_session v \<and> \<not> now < s_Expires v" "''expired''" now]
  by (simp add: expire_sessions[OF table_invD(2)[OF assms]] final_states_def)

end
