(* ===== verification/Device_Handlers.thy ===== *)
theory Device_Handlers
  imports Service_State
begin

text \<open>
  The device handlers of \<open>service.go\<close>: \<open>registerDevice\<close> with its scan of the registered
  devices, \<open>listDevices\<close>, \<open>lookupDevice\<close> and \<open>revokeDevice\<close>. \<open>sort.Slice\<close> is modelled by the
  stable sort, one of the orders it may leave equal names in.
\<close>

record device_request =
  dq_Name :: string
  dq_PublicKey :: string
  dq_OS :: string
  dq_DeviceType :: string

text \<open>The range loop over the devices: it leaves at the device with the given key, or ends with the
  number of the user's unrevoked devices.\<close>

datatype device_scan =
  ScanForeign | ScanRevoked | ScanFound string Device | ScanCount nat

fun scan_devices ::
  "string \<Rightarrow> string \<Rightarrow> (string \<times> Device) list \<Rightarrow> nat \<Rightarrow> device_scan" where
  "scan_devices user pk [] count = ScanCount count"
| "scan_devices user pk ((k, d) # ds) count =
     (if d_PublicKey d = pk then
        if d_OwnerID d \<noteq> user then ScanForeign
        else if d_Revoked d then ScanRevoked
        else ScanFound k d
      else if d_OwnerID d = user \<and> \<not> d_Revoked d then scan_devices user pk ds (count + 1)
      else scan_devices user pk ds count)"

definition device_type :: "device_request \<Rightarrow> string" where
  "device_type q = (if dq_DeviceType q = [] then ''pc'' else dq_DeviceType q)"

definition valid_os :: "device_request \<Rightarrow> bool" where
  "valid_os q \<longleftrightarrow>
     (device_type q = ''pc'' \<and> (dq_OS q = ''Windows 10'' \<or> dq_OS q = ''Windows 11'')) \<or>
     (device_type q = ''android'' \<and> dq_OS q \<noteq> [])"

definition registerDevice ::
  "env \<Rightarrow> time \<Rightarrow> http_request \<Rightarrow> device_request json_body \<Rightarrow> string \<Rightarrow>
   'st service \<Rightarrow> 'st outcome" where
  "registerDevice e now r b user s =
     (case decode b of Inl rep \<Rightarrow> (s, rep)
      | Inr q \<Rightarrow>
      if length (dq_Name q) < 1 \<or> length (dq_Name q) > 80 \<or> \<not> valid_os q
      then fail s 400 ''device name and supported OS required''
      else
        let (s, ok) = device_proof e now r user (dq_PublicKey q) s in
        if \<not> ok then fail s 403 ''device identity proof required''
        else case scan_devices user (dq_PublicKey q) (sv_devices s) 0 of
          ScanForeign \<Rightarrow> fail s 409 ''device identity already registered''
        | ScanRevoked \<Rightarrow> fail s 403 ''device identity has been revoked''
        | ScanFound k d \<Rightarrow>
            let d' = d\<lparr>d_Name := dq_Name q, d_OS := dq_OS q, d_DeviceType := device_type q\<rparr>;
                s = s\<lparr>sv_devices := adjust k (\<lambda>_. d') (sv_devices s)\<rparr>
            in (record_audit e now user ''device.registration_confirmed'' (d_ID d') s,
                Reply 200 (JDevice d'))
        | ScanCount n \<Rightarrow>
            if n \<ge> 100 then fail s 409 ''device registration limit reached''
            else
              let (ident, s) = randomID e 12 s;
                  d = \<lparr>d_ID = ident, d_Name = dq_Name q, d_OwnerID = user,
                       d_PublicKey = dq_PublicKey q, d_OS = dq_OS q,
                       d_DeviceType = device_type q, d_LastSeen = zero_time, d_Revoked = False,
                       d_Online = False, d_Unattended = False\<rparr>;
                  s = s\<lparr>sv_devices := put (sv_devices s) (d_ID d) d\<rparr>
              in (record_audit e now user ''device.registered'' (d_ID d) s,
                  Reply 201 (JDevice d)))"

definition listDevices :: "time \<Rightarrow> string \<Rightarrow> 'st service \<Rightarrow> 'st outcome" where
  "listDevices now user s =
     (s, Reply 200 (JDevices (sort_key d_Name
            (map (\<lambda>d. d\<lparr>d_Online := live now s (Some d)\<rparr>)
              (filter (\<lambda>d. d_OwnerID d = user) (vals (sv_devices s)))))))"

definition lookupDevice :: "time \<Rightarrow> string \<Rightarrow> string \<Rightarrow> 'st service \<Rightarrow> 'st outcome" where
  "lookupDevice now code user s =
     (case get (sv_devices s) (strip_spaces code) of
        None \<Rightarrow> fail s 404 ''device not found''
      | Some d \<Rightarrow>
          if d_Revoked d then fail s 404 ''device not found''
          else (s, Reply 200 (JLookup (d_ID d) (d_Name d) (d_DeviceType d) (live now s (Some d)))))"

definition close_peer :: "string \<Rightarrow> 'st service \<Rightarrow> 'st service" where
  "close_peer i s =
     (case get (sv_peers s) i of
        None \<Rightarrow> s
      | Some p \<Rightarrow>
          if (case get (sv_conns s) p of None \<Rightarrow> False | Some c \<Rightarrow> p_socket c)
          then s\<lparr>sv_closing := sv_closing s @ [p]\<rparr> else s)"

definition revokeDevice ::
  "env \<Rightarrow> time \<Rightarrow> string \<Rightarrow> string \<Rightarrow> 'st service \<Rightarrow> 'st outcome" where
  "revokeDevice e now k user s =
     (case get (sv_devices s) k of
        None \<Rightarrow> fail s 404 ''device not found''
      | Some d \<Rightarrow>
          if d_OwnerID d \<noteq> user then fail s 404 ''device not found''
          else
            let s = s\<lparr>sv_devices := adjust k (\<lambda>d. d\<lparr>d_Revoked := True\<rparr>) (sv_devices s)\<rparr>;
                s = end_where e now
                      (\<lambda>v. (s_SourceID v = d_ID d \<or> s_TargetID v = d_ID d) \<and> open_session v)
                      ''revoked'' user s;
                s = close_peer (d_ID d) s
            in (record_audit e now user ''device.revoked'' (d_ID d) s, Reply 200 JOk))"

end
