(* ===== verification/Device_Safety.thy ===== *)
theory Device_Safety
  imports Session_Safety Device_Handlers
begin

text \<open>
  The device table and its link to the session table: identifiers and public keys are unique, a
  user has at most a hundred unrevoked devices, every session names two registered devices with
  the keys they had when it was requested, and an open session names no revoked device.
\<close>

section \<open>The invariant of the device table\<close>

type_synonym device_table = "(string, Device) gomap"

definition device_inv :: "device_table \<Rightarrow> bool" where
  "device_inv m \<longleftrightarrow>
     wf_map m \<and> all_map (\<lambda>k d. d_ID d = k) m \<and>
     (\<forall>k k' d d'. get m k = Some d \<and> get m k' = Some d' \<and> d_PublicKey d = d_PublicKey d'
        \<longrightarrow> k = k') \<and>
     (\<forall>u. count_map (\<lambda>d. d_OwnerID d = u \<and> \<not> d_Revoked d) m \<le> 100)"

definition linked :: "device_table \<Rightarrow> Session \<Rightarrow> bool" where
  "linked ds v \<longleftrightarrow>
     (case (get ds (s_SourceID v), get ds (s_TargetID v)) of
        (Some d, Some d') \<Rightarrow>
          d_OwnerID d = s_OperatorID v \<and> d_PublicKey d = s_SourcePublicKey v \<and>
          d_PublicKey d' = s_TargetPublicKey v \<and>
          (open_session v \<longrightarrow> \<not> d_Revoked d \<and> \<not> d_Revoked d')
      | _ \<Rightarrow> False)"

definition link_inv :: "device_table \<Rightarrow> session_table \<Rightarrow> bool" where
  "link_inv ds m \<longleftrightarrow> all_map (\<lambda>k v. linked ds v) m"

lemma device_inv_Nil [simp]: "device_inv []"
  by (simp add: device_inv_def count_map_def)

lemma link_inv_Nil [simp]: "link_inv ds []"
  by (simp add: link_inv_def)

lemma device_invD:
  assumes "device_inv m"
  shows "wf_map m" "all_map (\<lambda>k d. d_ID d = k) m"
    "get m k = Some d \<Longrightarrow> get m k' = Some d' \<Longrightarrow> d_PublicKey d = d_PublicKey d' \<Longrightarrow> k = k'"
    "count_map (\<lambda>d. d_OwnerID d = u \<and> \<not> d_Revoked d) m \<le> 100"
  using assms unfolding device_inv_def by blast+

lemma linkedE:
  assumes "linked ds v"
  obtains d d' where "get ds (s_SourceID v) = Some d" "get ds (s_TargetID v) = Some d'"
    "d_OwnerID d = s_OperatorID v" "d_PublicKey d = s_SourcePublicKey v"
    "d_PublicKey d' = s_TargetPublicKey v" "open_session v \<Longrightarrow> \<not> d_Revoked d \<and> \<not> d_Revoked d'"
  using assms by (auto simp: linked_def split: option.splits)

lemma link_invD: "link_inv ds m \<Longrightarrow> get m k = Some v \<Longrightarrow> linked ds v"
  unfolding link_inv_def by (drule all_mapD)

lemma linked_step: "session_step now v v' \<Longrightarrow> linked ds v \<Longrightarrow> linked ds v'"
  using session_step_identity[of now v v'] session_step_open[of now v v']
  by (auto simp: linked_def split: option.splits)

lemma linked_ended:
  assumes "linked ds v" and "open_session v" and "st \<in> set final_states" and "st \<noteq> ''rejected''"
  shows "linked ds (ended st v)"
  using assms by (intro linked_step[OF session_step.finish[where now = 0]]) auto

text \<open>Every table step that starts no session keeps the link; so does a session between two
  unrevoked devices.\<close>

lemma settles_link: "settles now m m' \<Longrightarrow> link_inv ds m \<Longrightarrow> link_inv ds m'"
  unfolding link_inv_def by (erule settles_all) (auto intro: linked_step)

lemma table_step_link:
  assumes "table_step now m m'" and "link_inv ds m"
    and "\<And>v. m' = m @ [(s_ID v, v)] \<Longrightarrow> linked ds v"
  shows "link_inv ds m'"
  using assms(1)
proof cases
  case settle
  from settles_link[OF this assms(2)] show ?thesis .
next
  case (request v)
  with assms(2,3) show ?thesis by (auto simp: link_inv_def all_map_def)
qed

text \<open>A device table that forgets no device, owner, key or unrevoked status keeps the link.\<close>

definition extends_devices :: "device_table \<Rightarrow> device_table \<Rightarrow> bool" where
  "extends_devices ds ds' \<longleftrightarrow>
     (\<forall>k d. get ds k = Some d \<longrightarrow>
        (\<exists>d'. get ds' k = Some d' \<and> d_OwnerID d' = d_OwnerID d \<and>
              d_PublicKey d' = d_PublicKey d \<and> d_Revoked d' = d_Revoked d))"

lemma linked_extends: "extends_devices ds ds' \<Longrightarrow> linked ds v \<Longrightarrow> linked ds' v"
proof (erule linkedE)
  fix d d'
  assume ext: "extends_devices ds ds'" and d: "get ds (s_SourceID v) = Some d"
    "get ds (s_TargetID v) = Some d'" "d_OwnerID d = s_OperatorID v"
    "d_PublicKey d = s_SourcePublicKey v" "d_PublicKey d' = s_TargetPublicKey v"
    "open_session v \<Longrightarrow> \<not> d_Revoked d \<and> \<not> d_Revoked d'"
  from ext d(1) obtain w where "get ds' (s_SourceID v) = Some w" "d_OwnerID w = d_OwnerID d"
    "d_PublicKey w = d_PublicKey d" "d_Revoked w = d_Revoked d"
    unfolding extends_devices_def by blast
  moreover from ext d(2) obtain w' where "get ds' (s_TargetID v) = Some w'"
    "d_PublicKey w' = d_PublicKey d'" "d_Revoked w' = d_Revoked d'"
    unfolding extends_devices_def by blast
  moreover note d
  ultimately show "linked ds' v" by (simp add: linked_def)
qed

lemma link_extends: "extends_devices ds ds' \<Longrightarrow> link_inv ds m \<Longrightarrow> link_inv ds' m"
  unfolding link_inv_def by (auto elim!: all_map_mono intro: linked_extends)

section \<open>registerDevice\<close>

lemma scan_devices_found:
  "scan_devices user pk ds n = ScanFound k d \<Longrightarrow>
     (k, d) \<in> set ds \<and> d_PublicKey d = pk \<and> d_OwnerID d = user \<and> \<not> d_Revoked d"
proof (induction ds arbitrary: n)
  case (Cons e ds)
  then show ?case by (cases e) (fastforce split: if_splits)
qed simp

lemma scan_devices_count:
  "scan_devices user pk ds n = ScanCount c \<Longrightarrow>
     c = n + count_map (\<lambda>d. d_OwnerID d = user \<and> \<not> d_Revoked d) ds \<and>
     (\<forall>d \<in> set (vals ds). d_PublicKey d \<noteq> pk)"
proof (induction ds arbitrary: n)
  case Nil
  then show ?case by (simp add: count_map_def)
next
  case (Cons e ds)
  then show ?case by (cases e) (fastforce simp: count_map_def split: if_splits)
qed

definition renamed :: "device_request \<Rightarrow> Device \<Rightarrow> Device" where
  "renamed q d = d\<lparr>d_Name := dq_Name q, d_OS := dq_OS q, d_DeviceType := device_type q\<rparr>"

definition new_device :: "string \<Rightarrow> string \<Rightarrow> device_request \<Rightarrow> Device" where
  "new_device ident user q =
     \<lparr>d_ID = ident, d_Name = dq_Name q, d_OwnerID = user, d_PublicKey = dq_PublicKey q,
      d_OS = dq_OS q, d_DeviceType = device_type q, d_LastSeen = zero_time, d_Revoked = False,
      d_Online = False, d_Unattended = False\<rparr>"

lemma device_rows_simps [simp]:
  "d_ID (renamed q d) = d_ID d" "d_OwnerID (renamed q d) = d_OwnerID d"
  "d_PublicKey (renamed q d) = d_PublicKey d" "d_Revoked (renamed q d) = d_Revoked d"
  "d_LastSeen (renamed q d) = d_LastSeen d"
  "d_ID (new_device i u q) = i" "d_OwnerID (new_device i u q) = u"
  "d_PublicKey (new_device i u q) = dq_PublicKey q" "\<not> d_Revoked (new_device i u q)"
  "d_LastSeen (new_device i u q) = zero_time"
  by (simp_all add: renamed_def new_device_def)

lemma registerDevice_cases:
  assumes "registerDevice e now r b user s = (s', rep)"
  obtains
    (Failed) "sv_devices s' = sv_devices s" "error_reply rep"
  | (Confirmed) q k d where "b = OneObject q" "snd (device_proof e now r user (dq_PublicKey q) s)"
      "(k, d) \<in> set (sv_devices s)" "d_PublicKey d = dq_PublicKey q" "d_OwnerID d = user"
      "\<not> d_Revoked d" "sv_devices s' = adjust k (\<lambda>_. renamed q d) (sv_devices s)"
      "rep = Reply 200 (JDevice (renamed q d))"
  | (Registered) q where "b = OneObject q" "snd (device_proof e now r user (dq_PublicKey q) s)"
      "\<forall>d \<in> set (vals (sv_devices s)). d_PublicKey d \<noteq> dq_PublicKey q"
      "count_map (\<lambda>d. d_OwnerID d = user \<and> \<not> d_Revoked d) (sv_devices s) < 100"
      "sv_devices s' = put (sv_devices s) (next_id e 12 s) (new_device (next_id e 12 s) user q)"
      "rep = Reply 201 (JDevice (new_device (next_id e 12 s) user q))"
proof (cases b)
  case (OneObject q)
  obtain s1 ok where p: "device_proof e now r user (dq_PublicKey q) s = (s1, ok)"
    by (cases "device_proof e now r user (dq_PublicKey q) s")
  then have s1: "s1 = fst (device_proof e now r user (dq_PublicKey q) s)"
    and ok: "snd (device_proof e now r user (dq_PublicKey q) s) = ok" by simp_all
  have eq: "sv_devices s1 = sv_devices s" "next_id e 12 s1 = next_id e 12 s"
    by (simp_all add: s1 next_id_def)
  note def = registerDevice_def decode_def OneObject p Let_def fail_def error_reply_def
  show thesis
  proof (cases "length (dq_Name q) < 1 \<or> length (dq_Name q) > 80 \<or> \<not> valid_os q \<or> \<not> ok")
    case True
    with assms eq show thesis by (intro Failed) (auto simp: def split: if_splits)
  next
    case good: False
    show thesis
    proof (cases "scan_devices user (dq_PublicKey q) (sv_devices s) 0")
      case (ScanFound k d)
      with good assms eq scan_devices_found[OF ScanFound] ok OneObject show thesis
        by (intro Confirmed[of q k d]) (auto simp: def renamed_def)
    next
      case (ScanCount n)
      show thesis
      proof (cases "n \<ge> 100")
        case True
        with good ScanCount assms eq show thesis by (intro Failed) (auto simp: def)
      next
        case False
        with good ScanCount assms eq scan_devices_count[OF ScanCount] ok OneObject show thesis
          by (intro Registered[of q]) (auto simp: def randomID_next new_device_def)
      qed
    qed (use good assms eq in \<open>auto intro!: Failed simp: def\<close>)
  qed
qed (use assms Failed in \<open>auto simp: registerDevice_def decode_def error_reply_def\<close>)

lemma registerDevice_frame [simp, frame]:
  "sv_sessions (fst (registerDevice e now r b user s)) = sv_sessions s"
  "sv_accounts (fst (registerDevice e now r b user s)) = sv_accounts s"
  "sv_emails (fst (registerDevice e now r b user s)) = sv_emails s"
  "sv_refresh (fst (registerDevice e now r b user s)) = sv_refresh s"
  "sv_peers (fst (registerDevice e now r b user s)) = sv_peers s"
  "sv_conns (fst (registerDevice e now r b user s)) = sv_conns s"
  "sv_rates (fst (registerDevice e now r b user s)) = sv_rates s"
  "sv_authSlots (fst (registerDevice e now r b user s)) = sv_authSlots s"
  "sv_key (fst (registerDevice e now r b user s)) = sv_key s"
  "sv_store (fst (registerDevice e now r b user s)) = sv_store s"
  by (simp_all add: registerDevice_def fail_def Let_def split_def
      split: json_body.split device_scan.split sum.split)

lemma device_inv_put:
  assumes inv: "device_inv m" and fresh: "get m (d_ID d) = None"
    and key: "\<forall>w \<in> set (vals m). d_PublicKey w \<noteq> d_PublicKey d"
    and few: "count_map (\<lambda>w. d_OwnerID w = d_OwnerID d \<and> \<not> d_Revoked w) m < 100"
  shows "device_inv (put m (d_ID d) d)"
  unfolding device_inv_def
proof (intro conjI allI impI)
  have val: "w \<in> set (vals m)" if "get m x = Some w" for x w
    using that by (auto dest: map_of_SomeD intro: rev_image_eqI)
  show "wf_map (put m (d_ID d) d)" using device_invD(1)[OF inv] by simp
  show "all_map (\<lambda>k d. d_ID d = k) (put m (d_ID d) d)"
    by (rule all_map_put) (use device_invD(2)[OF inv] in auto)
  show "count_map (\<lambda>w. d_OwnerID w = u \<and> \<not> d_Revoked w) (put m (d_ID d) d) \<le> 100" for u
    using device_invD(4)[OF inv, of u] few by (auto simp: count_put_new[OF fresh])
  fix x y w w'
  assume *: "get (put m (d_ID d) d) x = Some w \<and> get (put m (d_ID d) d) y = Some w' \<and>
    d_PublicKey w = d_PublicKey w'"
  then have x: "if x = d_ID d then w = d else get m x = Some w"
    and y: "if y = d_ID d then w' = d else get m y = Some w'"
    by (auto simp: get_put split: if_splits)
  show "x = y"
  proof (rule ccontr)
    assume ne: "x \<noteq> y"
    consider "x = d_ID d" "y \<noteq> d_ID d" | "x \<noteq> d_ID d" "y = d_ID d"
      | "x \<noteq> d_ID d" "y \<noteq> d_ID d" using ne by blast
    then show False
    proof cases
      case 1
      then have "w = d" and "w' \<in> set (vals m)" using x y val by auto
      with key * show False by metis
    next
      case 2
      then have "w' = d" and "w \<in> set (vals m)" using x y val by auto
      with key * show False by metis
    next
      case 3
      then have "get m x = Some w" and "get m y = Some w'" using x y by simp_all
      with ne * device_invD(3)[OF inv] show False by blast
    qed
  qed
qed

text \<open>Rewriting one device without touching identifier, owner or key, and without undoing a
  revocation.\<close>

lemma device_inv_adjust:
  assumes inv: "device_inv m"
    and f: "\<And>d. get m k = Some d \<Longrightarrow> d_ID (f d) = d_ID d \<and> d_OwnerID (f d) = d_OwnerID d \<and>
      d_PublicKey (f d) = d_PublicKey d \<and> (d_Revoked d \<longrightarrow> d_Revoked (f d))"
  shows "device_inv (adjust k f m)"
  unfolding device_inv_def
proof (intro conjI allI impI)
  have g: "get m k = Some d" if "(k, d) \<in> set m" for d
    using that device_invD(1)[OF inv] by (simp add: wf_map_get)
  show "wf_map (adjust k f m)" using device_invD(1)[OF inv] by simp
  show "all_map (\<lambda>k d. d_ID d = k) (adjust k f m)"
    by (rule all_map_adjust[OF device_invD(2)[OF inv]]) (use f g in auto)
  show "count_map (\<lambda>w. d_OwnerID w = u \<and> \<not> d_Revoked w) (adjust k f m) \<le> 100" for u
    by (rule order_trans[OF count_adjust_le device_invD(4)[OF inv, of u]]) (use f g in auto)
  have pre: "\<exists>u. get m x = Some u \<and> d_PublicKey u = d_PublicKey w"
    if "get (adjust k f m) x = Some w" for x w
    using that f by (auto simp: get_adjust split: if_splits)
  fix x y w w'
  assume *: "get (adjust k f m) x = Some w \<and> get (adjust k f m) y = Some w' \<and>
    d_PublicKey w = d_PublicKey w'"
  with pre[of x w] pre[of y w'] device_invD(3)[OF inv, of x _ y] show "x = y" by metis
qed

theorem registerDevice_keeps:
  assumes inv: "device_inv (sv_devices s)" and fresh: "get (sv_devices s) (next_id e 12 s) = None"
  shows "device_inv (sv_devices (fst (registerDevice e now r b user s)))"
    and "extends_devices (sv_devices s) (sv_devices (fst (registerDevice e now r b user s)))"
proof -
  obtain s' rep where d: "registerDevice e now r b user s = (s', rep)" by force
  have "device_inv (sv_devices s') \<and> extends_devices (sv_devices s) (sv_devices s')"
    using d
  proof (cases rule: registerDevice_cases)
    case Failed
    with inv show ?thesis by (simp add: extends_devices_def)
  next
    case (Confirmed q k dev)
    have g: "get (sv_devices s) k = Some dev"
      using Confirmed(3) device_invD(1)[OF inv] by (simp add: wf_map_get)
    have "device_inv (adjust k (\<lambda>_. renamed q dev) (sv_devices s))"
      by (rule device_inv_adjust[OF inv]) (use g in auto)
    then show ?thesis
      using Confirmed(7) g by (auto simp: extends_devices_def get_adjust)
  next
    case (Registered q)
    with device_inv_put[OF inv, of "new_device (next_id e 12 s) user q"] fresh show ?thesis
      by (auto simp: extends_devices_def get_put)
  qed
  with d show "device_inv (sv_devices (fst (registerDevice e now r b user s)))"
    and "extends_devices (sv_devices s) (sv_devices (fst (registerDevice e now r b user s)))"
    by simp_all
qed

section \<open>revokeDevice\<close>

lemma close_peer_frame [simp, frame]:
  "sv_key (close_peer i s) = sv_key s"
  "sv_store (close_peer i s) = sv_store s"
  "sv_accounts (close_peer i s) = sv_accounts s"
  "sv_emails (close_peer i s) = sv_emails s"
  "sv_refresh (close_peer i s) = sv_refresh s"
  "sv_devices (close_peer i s) = sv_devices s"
  "sv_sessions (close_peer i s) = sv_sessions s"
  "sv_challenges (close_peer i s) = sv_challenges s"
  "sv_peers (close_peer i s) = sv_peers s"
  "sv_conns (close_peer i s) = sv_conns s"
  "sv_rates (close_peer i s) = sv_rates s"
  "sv_audit (close_peer i s) = sv_audit s"
  "sv_authSlots (close_peer i s) = sv_authSlots s"
  "sv_entropy (close_peer i s) = sv_entropy s"
  by (simp_all add: close_peer_def split: option.split)

definition uses_device :: "string \<Rightarrow> Session \<Rightarrow> bool" where
  "uses_device k v \<longleftrightarrow> s_SourceID v = k \<or> s_TargetID v = k"

lemma revokeDevice_cases:
  assumes "revokeDevice e now k user s = (s', rep)" and "wf_map (sv_sessions s)"
    and "device_inv (sv_devices s)"
  obtains
    (Failed) "s' = s" "rep = Reply 404 (JError ''device not found'')"
  | (Revoked) d where "get (sv_devices s) k = Some d" "d_OwnerID d = user" "rep = Reply 200 JOk"
      "sv_devices s' = adjust k (\<lambda>d. d\<lparr>d_Revoked := True\<rparr>) (sv_devices s)"
      "sv_sessions s' =
         each (\<lambda>v. if uses_device k v \<and> open_session v then ended ''revoked'' v else v)
           (sv_sessions s)"
proof (cases "get (sv_devices s) k")
  case None
  with assms(1) show thesis by (intro Failed) (auto simp: revokeDevice_def fail_def)
next
  case (Some d)
  have k: "d_ID d = k" using all_mapD[OF device_invD(2)[OF assms(3)] Some] .
  show thesis
  proof (cases "d_OwnerID d = user")
    case False
    with assms(1) Some show thesis by (intro Failed) (auto simp: revokeDevice_def fail_def)
  next
    case True
    with assms(1,2) Some k show thesis
      by (intro Revoked[of d])
        (auto simp: revokeDevice_def Let_def end_where_sessions uses_device_def)
  qed
qed

lemma revokeDevice_frame [simp, frame]:
  "sv_accounts (fst (revokeDevice e now k user s)) = sv_accounts s"
  "sv_emails (fst (revokeDevice e now k user s)) = sv_emails s"
  "sv_refresh (fst (revokeDevice e now k user s)) = sv_refresh s"
  "sv_challenges (fst (revokeDevice e now k user s)) = sv_challenges s"
  "sv_peers (fst (revokeDevice e now k user s)) = sv_peers s"
  "sv_rates (fst (revokeDevice e now k user s)) = sv_rates s"
  "sv_authSlots (fst (revokeDevice e now k user s)) = sv_authSlots s"
  "sv_key (fst (revokeDevice e now k user s)) = sv_key s"
  "sv_store (fst (revokeDevice e now k user s)) = sv_store s"
  by (simp_all add: revokeDevice_def fail_def Let_def split: option.split)

theorem revokeDevice_keeps:
  assumes "device_inv (sv_devices s)" and "table_inv (sv_sessions s)"
    and "link_inv (sv_devices s) (sv_sessions s)"
  shows "device_inv (sv_devices (fst (revokeDevice e now k user s))) \<and>
    keeps_table now (sv_sessions s) (sv_sessions (fst (revokeDevice e now k user s))) \<and>
    link_inv (sv_devices (fst (revokeDevice e now k user s)))
      (sv_sessions (fst (revokeDevice e now k user s)))"
proof -
  obtain s' rep where d: "revokeDevice e now k user s = (s', rep)" by force
  from d table_invD(2)[OF assms(2)] assms(1) show ?thesis
  proof (cases rule: revokeDevice_cases)
    case Failed
    with d assms show ?thesis by simp
  next
    case (Revoked dev)
    let ?f = "\<lambda>v. if uses_device k v \<and> open_session v then ended ''revoked'' v else v"
    have 1: "device_inv (sv_devices s')"
      unfolding Revoked(4) by (rule device_inv_adjust[OF assms(1)]) simp
    have 2: "keeps_table now (sv_sessions s) (sv_sessions s')"
      unfolding Revoked(5) using assms(2)
      by (rule keeps_end_each) (auto simp: final_states_def)
    have "linked (sv_devices s') (?f v)" if "linked (sv_devices s) v" for v
      using that unfolding Revoked(4)
      by (elim linkedE)
        (auto simp: linked_def get_adjust uses_device_def open_session_def ended_def)
    then have 3: "link_inv (sv_devices s') (sv_sessions s')"
      using assms(3) unfolding Revoked(5) link_inv_def by (elim all_map_each)
    from 1 2 3 d show ?thesis by simp
  qed
qed

end
