(* ===== verification/Auth_Handlers.thy ===== *)
theory Auth_Handlers
  imports Service_State
begin

text \<open>
  The account handlers of \<open>service.go\<close>: bearer authentication, the slots that bound concurrent
  password hashing, \<open>register\<close>, \<open>login\<close>, refresh-token rotation with reuse detection,
  \<open>logout\<close> with \<open>invalidate\<close>, \<open>me\<close> and \<open>newChallenge\<close>.
\<close>

section \<open>Bearer authentication\<close>

definition auth_user :: "env \<Rightarrow> time \<Rightarrow> http_request \<Rightarrow> 'st service \<Rightarrow> reply + string" where
  "auth_user e now r s =
     (let raw = header_of r ''Authorization'' in
      if \<not> HasPrefix raw ''Bearer ''
      then Inl (Reply 401 (JError ''authentication required''))
      else case verifyAccess e now (TrimPrefix raw ''Bearer '') s of
        None \<Rightarrow> Inl (Reply 401 (JError ''invalid or expired access token''))
      | Some user \<Rightarrow>
          if get (sv_accounts s) user = None
          then Inl (Reply 401 (JError ''account unavailable''))
          else Inr user)"

definition auth ::
  "env \<Rightarrow> time \<Rightarrow> http_request \<Rightarrow> (string \<Rightarrow> 'st service \<Rightarrow> 'st outcome) \<Rightarrow>
   'st service \<Rightarrow> 'st outcome" where
  "auth e now r handler s =
     (case auth_user e now r s of Inl rep \<Rightarrow> (s, rep) | Inr user \<Rightarrow> handler user s)"

section \<open>Authentication slots\<close>

definition authSlot :: "'st service \<Rightarrow> 'st service option" where
  "authSlot s =
     (if sv_authSlots s < 2 then Some (s\<lparr>sv_authSlots := sv_authSlots s + 1\<rparr>) else None)"

definition releaseSlot :: "'st service \<Rightarrow> 'st service" where
  "releaseSlot s = s\<lparr>sv_authSlots := sv_authSlots s - 1\<rparr>"

definition busy :: "'st service \<Rightarrow> 'st outcome" where
  "busy s = fail s 429 ''authentication busy; retry shortly''"

definition reply_tokens :: "nat \<Rightarrow> 'st service \<times> tokens option \<Rightarrow> 'st outcome" where
  "reply_tokens status r =
     (fst r, case snd r of None \<Rightarrow> Panicked | Some t \<Rightarrow> Reply status (JTokens t))"

section \<open>Registration and login\<close>

record register_request =
  rg_Email :: string
  rg_Name :: string
  rg_Password :: string

record login_request =
  lg_Email :: string
  lg_Password :: string

definition en_dash :: string where "en_dash = [CHR 0xE2, CHR 0x80, CHR 0x93]"

definition register_invalid :: "env \<Rightarrow> string \<Rightarrow> register_request \<Rightarrow> bool" where
  "register_invalid e email q \<longleftrightarrow>
     parse_address e email \<noteq> Some email \<or> length email > 254 \<or>
     length (rg_Name q) < 1 \<or> length (rg_Name q) > 80 \<or>
     length (rg_Password q) < 12 \<or> length (rg_Password q) > 256"

text \<open>The critical section of \<open>register\<close>, after the password has been hashed.\<close>

definition register_insert ::
  "env \<Rightarrow> time \<Rightarrow> string \<Rightarrow> string \<Rightarrow> password \<Rightarrow> 'st service \<Rightarrow> 'st outcome" where
  "register_insert e now email name p s =
     (if (case get (sv_emails s) email of None \<Rightarrow> False | Some i \<Rightarrow> i \<noteq> [])
      then fail s 409 ''account cannot be registered''
      else
        let (ident, s) = randomID e 18 s;
            s = s\<lparr>sv_accounts := put (sv_accounts s) ident
                    \<lparr>a_ID = ident, a_Email = email, a_Name = name, a_Password = p, a_Version = 0\<rparr>,
                  sv_emails := put (sv_emails s) email ident\<rparr>;
            s = record_audit e now ident ''account.registered'' ident s
        in reply_tokens 201 (issue e now ident [] s))"

definition register_locked ::
  "env \<Rightarrow> time \<Rightarrow> string \<Rightarrow> string \<Rightarrow> string \<Rightarrow> 'st service \<Rightarrow> 'st outcome" where
  "register_locked e now email name raw s =
     (let (p, s) = hashPassword e raw s in register_insert e now email name p s)"

definition register ::
  "env \<Rightarrow> time \<Rightarrow> register_request json_body \<Rightarrow> 'st service \<Rightarrow> 'st outcome" where
  "register e now b s =
     (case decode b of Inl rep \<Rightarrow> (s, rep)
      | Inr q \<Rightarrow>
      let email = ToLower (unicode_lower e) (TrimSpace (rg_Email q)) in
      if register_invalid e email q
      then fail s 400 (''valid email, name and password of 12'' @ en_dash @ ''256 bytes required'')
      else case authSlot s of None \<Rightarrow> busy s
      | Some s \<Rightarrow>
          let (s, rep) = register_locked e now email (rg_Name q) (rg_Password q) s
          in (releaseSlot s, rep))"

definition find_account :: "env \<Rightarrow> string \<Rightarrow> 'st service \<Rightarrow> account option" where
  "find_account e email s =
     get (sv_accounts s)
       (case get (sv_emails s) (ToLower (unicode_lower e) (TrimSpace email)) of
          None \<Rightarrow> [] | Some i \<Rightarrow> i)"

definition no_password :: password where
  "no_password = \<lparr>pw_Salt = replicate 16 (CHR 0x00), pw_Hash = replicate 32 (CHR 0x00)\<rparr>"

text \<open>\<open>login\<close> after the account has been looked up: the hash, and the second critical section.\<close>

definition login_finish ::
  "env \<Rightarrow> time \<Rightarrow> login_request \<Rightarrow> account option \<Rightarrow> 'st service \<Rightarrow> 'st outcome" where
  "login_finish e now q a s =
     (let p = (case a of None \<Rightarrow> no_password | Some a \<Rightarrow> a_Password a);
          ok = matches e p (lg_Password q)
      in case a of
           None \<Rightarrow> fail s 401 ''invalid credentials''
         | Some a \<Rightarrow>
             if \<not> ok then fail s 401 ''invalid credentials''
             else reply_tokens 200
                    (issue e now (a_ID a) []
                      (record_audit e now (a_ID a) ''account.login'' (a_ID a) s)))"

definition login_locked ::
  "env \<Rightarrow> time \<Rightarrow> login_request \<Rightarrow> 'st service \<Rightarrow> 'st outcome" where
  "login_locked e now q s = login_finish e now q (find_account e (lg_Email q) s) s"

definition login ::
  "env \<Rightarrow> time \<Rightarrow> login_request json_body \<Rightarrow> 'st service \<Rightarrow> 'st outcome" where
  "login e now b s =
     (case decode b of Inl rep \<Rightarrow> (s, rep)
      | Inr q \<Rightarrow>
      if length (lg_Password q) > 256 then fail s 400 ''invalid credentials''
      else case authSlot s of None \<Rightarrow> busy s
      | Some s \<Rightarrow>
          let (s, rep) = login_locked e now q s in (releaseSlot s, rep))"

section \<open>Invalidation, rotation, logout\<close>

text \<open>The loop of \<open>invalidate\<close> over the peers: the device of each peer is dereferenced, so a
  peer whose identifier is not a registered device is a nil dereference.\<close>

fun close_owned ::
  "string \<Rightarrow> (string \<times> nat) list \<Rightarrow> 'st service \<Rightarrow> 'st service \<times> bool" where
  "close_owned user [] s = (s, True)"
| "close_owned user ((i, p) # ps) s =
     (case get (sv_devices s) i of
        None \<Rightarrow> (s, False)
      | Some d \<Rightarrow>
          if d_OwnerID d = user \<and>
             (case get (sv_conns s) p of None \<Rightarrow> False | Some c \<Rightarrow> p_socket c)
          then close_owned user ps (s\<lparr>sv_closing := sv_closing s @ [p]\<rparr>)
          else close_owned user ps s)"

definition invalidate ::
  "env \<Rightarrow> time \<Rightarrow> string \<Rightarrow> 'st service \<Rightarrow> 'st service \<times> bool" where
  "invalidate e now user s =
     (case get (sv_accounts s) user of
        None \<Rightarrow> (s, False)
      | Some a \<Rightarrow>
          let s = s\<lparr>sv_accounts :=
                      adjust user (\<lambda>a. a\<lparr>a_Version := a_Version a + 1\<rparr>) (sv_accounts s),
                    sv_refresh :=
                      each (\<lambda>v. if r_UserID v = user then v\<lparr>r_Used := True\<rparr> else v)
                        (sv_refresh s)\<rparr>;
              s = end_where e now (\<lambda>v. visible s v user \<and> open_session v) ''closed'' user s
          in close_owned user (sv_peers s) s)"

definition rotate :: "env \<Rightarrow> time \<Rightarrow> string json_body \<Rightarrow> 'st service \<Rightarrow> 'st outcome" where
  "rotate e now b s =
     (case decode b of Inl rep \<Rightarrow> (s, rep)
      | Inr token \<Rightarrow>
      case get (sv_refresh s) (digest e token) of
        None \<Rightarrow> fail s 401 ''invalid refresh token''
      | Some t \<Rightarrow>
          if \<not> now < r_Expires t then fail s 401 ''invalid refresh token''
          else if r_Used t then
            let s = s\<lparr>sv_refresh :=
                        each (\<lambda>x. if r_Family x = r_Family t then x\<lparr>r_Used := True\<rparr> else x)
                          (sv_refresh s)\<rparr>;
                (s, ok) = invalidate e now (r_UserID t) s
            in if \<not> ok then (s, Panicked)
               else fail (record_audit e now (r_UserID t) ''auth.refresh_reuse'' (r_Family t) s)
                      401 ''refresh token reuse; sign in again''
          else
            let s = s\<lparr>sv_refresh :=
                        adjust (digest e token) (\<lambda>t. t\<lparr>r_Used := True\<rparr>) (sv_refresh s)\<rparr>
            in reply_tokens 200 (issue e now (r_UserID t) (r_Family t) s))"

definition logout :: "env \<Rightarrow> time \<Rightarrow> string \<Rightarrow> 'st service \<Rightarrow> 'st outcome" where
  "logout e now user s =
     (let (s, ok) = invalidate e now user s in
      if \<not> ok then (s, Panicked)
      else (record_audit e now user ''account.logout'' user s, Reply 200 JOk))"

definition me :: "string \<Rightarrow> 'st service \<Rightarrow> 'st outcome" where
  "me user s =
     (case get (sv_accounts s) user of
        None \<Rightarrow> (s, Panicked)
      | Some a \<Rightarrow> (s, Reply 200 (JMe (a_ID a) (a_Name a) (a_Email a))))"

definition newChallenge :: "env \<Rightarrow> time \<Rightarrow> string \<Rightarrow> 'st service \<Rightarrow> 'st outcome" where
  "newChallenge e now user s =
     (let (nonce, s) = randomID e 32 s
      in (s\<lparr>sv_challenges := put (sv_challenges s) nonce
              \<lparr>ch_User = user, ch_Expires = now + minute\<rparr>\<rparr>,
          Reply 201 (JNonce nonce)))"

end
