(* ===== verification/Account_Safety.thy ===== *)
theory Account_Safety
  imports Session_Safety Auth_Handlers
begin

text \<open>
  Accounts, refresh tokens and access tokens: the account table and the e-mail index agree, every
  family of refresh tokens has at most one unused token, and what \<open>register\<close>, \<open>login\<close>,
  \<open>rotate\<close> and \<open>logout\<close> do to them.
\<close>

section \<open>The invariants\<close>

type_synonym account_table = "(string, account) gomap"
type_synonym email_index = "(string, string) gomap"
type_synonym refresh_table = "(string, refreshToken) gomap"

definition account_inv :: "account_table \<Rightarrow> email_index \<Rightarrow> bool" where
  "account_inv as ems \<longleftrightarrow>
     wf_map as \<and> wf_map ems \<and>
     (\<forall>k a. get as k = Some a \<longrightarrow> a_ID a = k \<and> k \<noteq> [] \<and> get ems (a_Email a) = Some k) \<and>
     (\<forall>x k. get ems x = Some k \<longrightarrow> (\<exists>a. get as k = Some a \<and> a_Email a = x))"

definition token_inv :: "refresh_table \<Rightarrow> bool" where
  "token_inv ts \<longleftrightarrow>
     wf_map ts \<and>
     (\<forall>h h' t t'. get ts h = Some t \<and> get ts h' = Some t' \<and> r_Family t = r_Family t' \<longrightarrow>
        r_UserID t = r_UserID t' \<and> (\<not> r_Used t \<and> \<not> r_Used t' \<longrightarrow> h = h'))"

lemma account_inv_Nil [simp]: "account_inv [] []"
  by (simp add: account_inv_def)

lemma token_inv_Nil [simp]: "token_inv []"
  by (simp add: token_inv_def)

lemma account_invD:
  assumes "account_inv as ems"
  shows "wf_map as" "wf_map ems"
    "get as k = Some a \<Longrightarrow> a_ID a = k \<and> k \<noteq> [] \<and> get ems (a_Email a) = Some k"
    "get ems x = Some k \<Longrightarrow> \<exists>a. get as k = Some a \<and> a_Email a = x"
  using assms unfolding account_inv_def by blast+

lemma token_invD:
  assumes "token_inv ts"
  shows "wf_map ts"
    "get ts h = Some t \<Longrightarrow> get ts h' = Some t' \<Longrightarrow> r_Family t = r_Family t' \<Longrightarrow>
       r_UserID t = r_UserID t' \<and> (\<not> r_Used t \<and> \<not> r_Used t' \<longrightarrow> h = h')"
  using assms unfolding token_inv_def by blast+

text \<open>Forgetting tokens and marking them used keep the invariant; so do changes of accounts that
  keep the identifiers.\<close>

definition fewer_tokens :: "refresh_table \<Rightarrow> refresh_table \<Rightarrow> bool" where
  "fewer_tokens ts ts' \<longleftrightarrow>
     wf_map ts' \<and>
     (\<forall>h t'. get ts' h = Some t' \<longrightarrow>
        (\<exists>t. get ts h = Some t \<and> r_UserID t' = r_UserID t \<and> r_Family t' = r_Family t \<and>
             r_Expires t' = r_Expires t \<and> (r_Used t \<longrightarrow> r_Used t')))"

lemma fewer_tokensD:
  "fewer_tokens ts ts' \<Longrightarrow> get ts' h = Some t' \<Longrightarrow>
     \<exists>t. get ts h = Some t \<and> r_UserID t' = r_UserID t \<and> r_Family t' = r_Family t \<and>
         r_Expires t' = r_Expires t \<and> (r_Used t \<longrightarrow> r_Used t')"
  by (simp add: fewer_tokens_def)

lemma fewer_tokens_inv:
  assumes "fewer_tokens ts ts'" and "token_inv ts"
  shows "token_inv ts'"
  unfolding token_inv_def
proof (intro conjI allI impI)
  show "wf_map ts'" using assms(1) by (simp add: fewer_tokens_def)
  fix h h' t t'
  assume *: "get ts' h = Some t \<and> get ts' h' = Some t' \<and> r_Family t = r_Family t'"
  obtain u where u: "get ts h = Some u" "r_UserID t = r_UserID u" "r_Family t = r_Family u"
    "r_Used u \<longrightarrow> r_Used t" using fewer_tokensD[OF assms(1)] * by blast
  obtain u' where u': "get ts h' = Some u'" "r_UserID t' = r_UserID u'"
    "r_Family t' = r_Family u'" "r_Used u' \<longrightarrow> r_Used t'"
    using fewer_tokensD[OF assms(1)] * by blast
  from * u(3) u'(3) have "r_Family u = r_Family u'" by simp
  from token_invD(2)[OF assms(2) u(1) u'(1) this] u(2,4) u'(2,4)
  show "r_UserID t = r_UserID t'" and "\<not> r_Used t \<and> \<not> r_Used t' \<Longrightarrow> h = h'" by auto
qed

lemma fewer_each:
  assumes "wf_map ts"
    and "\<And>t. r_UserID (f t) = r_UserID t \<and> r_Family (f t) = r_Family t \<and>
           r_Expires (f t) = r_Expires t \<and> (r_Used t \<longrightarrow> r_Used (f t))"
  shows "fewer_tokens ts (each f ts)"
  using assms by (auto simp: fewer_tokens_def get_each)

lemma fewer_adjust:
  assumes "wf_map ts"
    and "\<And>t. r_UserID (f t) = r_UserID t \<and> r_Family (f t) = r_Family t \<and>
           r_Expires (f t) = r_Expires t \<and> (r_Used t \<longrightarrow> r_Used (f t))"
  shows "fewer_tokens ts (adjust k f ts)"
  using assms by (auto simp: fewer_tokens_def get_adjust)

lemma fewer_filter: "wf_map ts \<Longrightarrow> fewer_tokens ts (filter (\<lambda>(k, t). P t) ts)"
  by (auto simp: fewer_tokens_def get_filter split: option.splits if_splits)

lemma fewer_refl: "wf_map ts \<Longrightarrow> fewer_tokens ts ts"
  by (simp add: fewer_tokens_def)

lemma fewer_trans:
  assumes "fewer_tokens a b" and "fewer_tokens b c"
  shows "fewer_tokens a c"
  unfolding fewer_tokens_def
proof (intro conjI allI impI)
  show "wf_map c" using assms(2) by (simp add: fewer_tokens_def)
  fix h t
  assume "get c h = Some t"
  with fewer_tokensD[OF assms(2)] obtain u where u: "get b h = Some u" "r_UserID t = r_UserID u"
    "r_Family t = r_Family u" "r_Expires t = r_Expires u" "r_Used u \<longrightarrow> r_Used t" by blast
  from fewer_tokensD[OF assms(1) u(1)] u(2-5)
  show "\<exists>t'. get a h = Some t' \<and> r_UserID t = r_UserID t' \<and> r_Family t = r_Family t' \<and>
      r_Expires t = r_Expires t' \<and> (r_Used t' \<longrightarrow> r_Used t)" by metis
qed

section \<open>Issuing tokens\<close>

definition new_family :: "env \<Rightarrow> string \<Rightarrow> 'st service \<Rightarrow> string" where
  "new_family e family s = (if family = [] then next_id e 24 s else family)"

definition new_raw :: "env \<Rightarrow> string \<Rightarrow> 'st service \<Rightarrow> string" where
  "new_raw e family s =
     RawURLEncode
       (rand_bytes e (if family = [] then sv_entropy s + 1 else sv_entropy s) 32)"

lemma issue_effect:
  "sv_refresh (fst (issue e now u family s)) =
     put (sv_refresh s) (digest e (new_raw e family s))
       \<lparr>r_UserID = u, r_Family = new_family e family s, r_Expires = now + 7 * 24 * hour,
        r_Used = False\<rparr>"
  "snd (issue e now u family s) =
     (case get (sv_accounts s) u of None \<Rightarrow> None
      | Some a \<Rightarrow> Some \<lparr>t_AccessToken = Sign e (sv_key s) u (a_Version a) now,
                        t_RefreshToken = new_raw e family s, t_ExpiresIn = 600,
                        t_TokenType = ''Bearer''\<rparr>)"
  by (auto simp: issue_def randomID_next next_id_def new_family_def new_raw_def signAccess_def
      Let_def split: option.split)

lemma token_inv_put:
  assumes inv: "token_inv ts"
    and fam: "\<And>k x. get ts k = Some x \<Longrightarrow> r_Family x = r_Family t \<Longrightarrow>
      r_Used x \<and> r_UserID x = r_UserID t"
  shows "token_inv (put ts h t)"
  unfolding token_inv_def
proof (intro conjI allI impI)
  show "wf_map (put ts h t)" using token_invD(1)[OF inv] by simp
  fix k k' x x'
  assume "get (put ts h t) k = Some x \<and> get (put ts h t) k' = Some x' \<and> r_Family x = r_Family x'"
  then have x: "if k = h then x = t else get ts k = Some x"
    and x': "if k' = h then x' = t else get ts k' = Some x'"
    and f: "r_Family x = r_Family x'"
    by (auto simp: get_put split: if_splits)
  have "r_UserID x = r_UserID x' \<and> (\<not> r_Used x \<and> \<not> r_Used x' \<longrightarrow> k = k')"
  proof (cases "k = h \<or> k' = h")
    case True
    then show ?thesis using x x' f fam[of k x] fam[of k' x'] by (auto split: if_splits)
  next
    case False
    with x x' have "get ts k = Some x" "get ts k' = Some x'" by simp_all
    from token_invD(2)[OF inv this f] show ?thesis .
  qed
  then show "r_UserID x = r_UserID x'" and "\<not> r_Used x \<and> \<not> r_Used x' \<Longrightarrow> k = k'" by auto
qed

text \<open>A fresh draw: the family is in no token, the digest is no key.\<close>

definition fresh_issue :: "env \<Rightarrow> string \<Rightarrow> 'st service \<Rightarrow> bool" where
  "fresh_issue e family s \<longleftrightarrow>
     get (sv_refresh s) (digest e (new_raw e family s)) = None \<and>
     (family = [] \<longrightarrow> all_map (\<lambda>h t. r_Family t \<noteq> next_id e 24 s) (sv_refresh s))"

lemma issue_keeps:
  assumes "token_inv (sv_refresh s)"
    and "fresh_issue e family s"
    and "\<And>h t. family \<noteq> [] \<Longrightarrow> get (sv_refresh s) h = Some t \<Longrightarrow> r_Family t = family \<Longrightarrow>
      r_Used t \<and> r_UserID t = u"
  shows "token_inv (sv_refresh (fst (issue e now u family s)))"
  unfolding issue_effect(1)
proof (rule token_inv_put[OF assms(1)])
  fix k x
  assume x: "get (sv_refresh s) k = Some x" and f: "r_Family x =
    r_Family \<lparr>r_UserID = u, r_Family = new_family e family s, r_Expires = now + 7 * 24 * hour,
      r_Used = False\<rparr>"
  show "r_Used x \<and> r_UserID x = r_UserID \<lparr>r_UserID = u, r_Family = new_family e family s,
    r_Expires = now + 7 * 24 * hour, r_Used = False\<rparr>"
  proof (cases "family = []")
    case True
    with assms(2) x have "r_Family x \<noteq> next_id e 24 s"
      by (auto simp: fresh_issue_def dest: all_mapD)
    with f True show ?thesis by (simp add: new_family_def)
  next
    case False
    with assms(3)[OF False x] f show ?thesis by (simp add: new_family_def)
  qed
qed

section \<open>Ending every access of a user\<close>

lemma close_owned_frame [simp, frame]:
  "sv_accounts (fst (close_owned user ps s)) = sv_accounts s"
  "sv_emails (fst (close_owned user ps s)) = sv_emails s"
  "sv_refresh (fst (close_owned user ps s)) = sv_refresh s"
  "sv_devices (fst (close_owned user ps s)) = sv_devices s"
  "sv_sessions (fst (close_owned user ps s)) = sv_sessions s"
  "sv_challenges (fst (close_owned user ps s)) = sv_challenges s"
  "sv_peers (fst (close_owned user ps s)) = sv_peers s"
  "sv_conns (fst (close_owned user ps s)) = sv_conns s"
  "sv_rates (fst (close_owned user ps s)) = sv_rates s"
  "sv_audit (fst (close_owned user ps s)) = sv_audit s"
  "sv_authSlots (fst (close_owned user ps s)) = sv_authSlots s"
  "sv_key (fst (close_owned user ps s)) = sv_key s"
  "sv_store (fst (close_owned user ps s)) = sv_store s"
  "sv_entropy (fst (close_owned user ps s)) = sv_entropy s"
  by (induction user ps s rule: close_owned.induct) (simp_all split: option.split)

lemma close_owned_ok:
  "snd (close_owned user ps s) \<longleftrightarrow> (\<forall>(i, p) \<in> set ps. get (sv_devices s) i \<noteq> None)"
  by (induction user ps s rule: close_owned.induct) (auto split: option.split)

definition peers_known :: "'st service \<Rightarrow> bool" where
  "peers_known s \<longleftrightarrow> (\<forall>(i, p) \<in> set (sv_peers s). get (sv_devices s) i \<noteq> None)"

definition closes_for :: "'st service \<Rightarrow> string \<Rightarrow> Session \<Rightarrow> Session" where
  "closes_for s user v =
     (if visible s v user \<and> open_session v then ended ''closed'' v else v)"

definition uses_up :: "string \<Rightarrow> refreshToken \<Rightarrow> refreshToken" where
  "uses_up user t = (if r_UserID t = user then t\<lparr>r_Used := True\<rparr> else t)"

lemma visible_cong: "sv_devices s = sv_devices s' \<Longrightarrow> visible s v u = visible s' v u"
  by (simp add: visible_def)

lemma invalidate_effect:
  assumes "get (sv_accounts s) user = Some a" and "wf_map (sv_sessions s)"
  shows "sv_accounts (fst (invalidate e now user s)) =
      adjust user (\<lambda>a. a\<lparr>a_Version := a_Version a + 1\<rparr>) (sv_accounts s)"
    and "sv_refresh (fst (invalidate e now user s)) = each (uses_up user) (sv_refresh s)"
    and "sv_sessions (fst (invalidate e now user s)) = each (closes_for s user) (sv_sessions s)"
    and "snd (invalidate e now user s) = peers_known s"
  using assms
  by (simp_all add: invalidate_def Let_def end_where_sessions uses_up_def[abs_def]
      closes_for_def[abs_def] close_owned_ok peers_known_def
      visible_cong[of "s\<lparr>sv_accounts := _, sv_refresh := _\<rparr>" s])

lemma invalidate_frame [simp, frame]:
  "sv_emails (fst (invalidate e now user s)) = sv_emails s"
  "sv_devices (fst (invalidate e now user s)) = sv_devices s"
  "sv_challenges (fst (invalidate e now user s)) = sv_challenges s"
  "sv_peers (fst (invalidate e now user s)) = sv_peers s"
  "sv_rates (fst (invalidate e now user s)) = sv_rates s"
  "sv_authSlots (fst (invalidate e now user s)) = sv_authSlots s"
  "sv_key (fst (invalidate e now user s)) = sv_key s"
  "sv_store (fst (invalidate e now user s)) = sv_store s"
  by (simp_all add: invalidate_def Let_def split: option.split)

text \<open>The accounts before and after a change of versions.\<close>

definition bumped :: "string \<Rightarrow> account_table \<Rightarrow> account_table" where
  "bumped user = adjust user (\<lambda>a. a\<lparr>a_Version := a_Version a + 1\<rparr>)"

lemma bumped_inv: "account_inv as ems \<Longrightarrow> account_inv (bumped user as) ems"
  unfolding account_inv_def bumped_def
  by (auto simp: get_adjust split: if_splits) (metis account.select_convs(2) account.surjective
      account.update_convs(5) option.map(2))

lemma invalidate_unknown:
  "get (sv_accounts s) user = None \<Longrightarrow> invalidate e now user s = (s, False)"
  by (simp add: invalidate_def)

lemma invalidate_keeps:
  assumes "account_inv (sv_accounts s) (sv_emails s)"
    and "token_inv (sv_refresh s)" and "table_inv (sv_sessions s)"
    and "invalidate e now user s = (s', ok)"
  shows "account_inv (sv_accounts s') (sv_emails s') \<and> token_inv (sv_refresh s') \<and>
    keeps_table now (sv_sessions s) (sv_sessions s')"
proof (cases "get (sv_accounts s) user")
  case None
  with assms invalidate_unknown[OF None, of e now] show ?thesis by simp
next
  case (Some a)
  note eff = invalidate_effect[OF Some table_invD(2)[OF assms(3)], of e now]
  have s': "s' = fst (invalidate e now user s)" using assms(4) by simp
  have "account_inv (sv_accounts s') (sv_emails s')"
    using bumped_inv[OF assms(1), of user] by (simp add: s' eff bumped_def)
  moreover have "fewer_tokens (sv_refresh s) (each (uses_up user) (sv_refresh s))"
    by (rule fewer_each) (use token_invD(1)[OF assms(2)] in \<open>auto simp: uses_up_def\<close>)
  then have "token_inv (sv_refresh s')"
    using fewer_tokens_inv assms(2) by (simp add: s' eff)
  moreover have "closes_for s user =
      (\<lambda>v. if visible s v user \<and> open_session v then ended ''closed'' v else v)"
    by (auto simp: closes_for_def)
  then have "keeps_table now (sv_sessions s) (sv_sessions s')"
    unfolding s' eff(3)
    by (simp only:) (rule keeps_end_each[OF assms(3)], auto simp: final_states_def)
  ultimately show ?thesis by blast
qed

section \<open>logout\<close>

lemma logout_cases:
  assumes "logout e now user s = (s', rep)"
  obtains s1 ok where "invalidate e now user s = (s1, ok)"
    "sv_accounts s' = sv_accounts s1" "sv_emails s' = sv_emails s1"
    "sv_refresh s' = sv_refresh s1" "sv_sessions s' = sv_sessions s1"
    "sv_key s' = sv_key s1" "rep = (if ok then Reply 200 JOk else Panicked)"
proof -
  obtain s1 ok where i: "invalidate e now user s = (s1, ok)" by force
  show thesis
    by (rule that[OF i]) (use assms i in \<open>auto simp: logout_def split: if_splits\<close>)
qed

text \<open>A version bump refuses every access token the user had.\<close>

lemma bumped_refuses:
  assumes "verifyAccess e now token s = Some user" and "sv_key s' = sv_key s"
    and "sv_accounts s' = bumped user (sv_accounts s)"
  shows "verifyAccess e now' token s' \<noteq> Some user"
proof
  assume b: "verifyAccess e now' token s' = Some user"
  have core: "Verify e key token t = Inr c \<Longrightarrow> Verify e key token t' = Inr c' \<Longrightarrow> c = c'"
    for key t t' c c'
    by (auto simp: Verify_def Let_def split: if_splits option.splits)
  from assms(1) obtain c a where a: "Verify e (sv_key s) token now = Inr c"
    "get (sv_accounts s) user = Some a" "a_Version a = c_Version c" "c_Subject c = user"
    by (auto simp: verifyAccess_def split: sum.splits option.splits if_splits)
  from b obtain c' a' where a': "Verify e (sv_key s) token now' = Inr c'"
    "get (sv_accounts s') user = Some a'" "a_Version a' = c_Version c'"
    by (auto simp: verifyAccess_def assms(2) split: sum.splits option.splits if_splits)
  from a(2) a'(2) assms(3) have "a_Version a' = a_Version a + 1"
    by (auto simp: bumped_def get_adjust)
  with a(3) a'(3) core[OF a(1) a'(1)] show False by simp
qed

section \<open>rotate\<close>

definition spends_family :: "string \<Rightarrow> refreshToken \<Rightarrow> refreshToken" where
  "spends_family f x = (if r_Family x = f then x\<lparr>r_Used := True\<rparr> else x)"

definition spent :: "refreshToken \<Rightarrow> refreshToken" where
  "spent t = t\<lparr>r_Used := True\<rparr>"

lemma reply_tokens_simps [simp]:
  "fst (reply_tokens st r) = fst r"
  "snd (reply_tokens st r) = (case snd r of None \<Rightarrow> Panicked | Some t \<Rightarrow> Reply st (JTokens t))"
  by (simp_all add: reply_tokens_def)

lemma rotate_cases:
  assumes "rotate e now b s = (s', rep)"
  obtains
    (Failed) "s' = s" "\<exists>st m. rep = Reply st (JError m)"
  | (Reuse) token t s1 ok where "b = OneObject token"
      "get (sv_refresh s) (digest e token) = Some t" "now < r_Expires t" "r_Used t"
      "invalidate e now (r_UserID t)
         (s\<lparr>sv_refresh := each (spends_family (r_Family t)) (sv_refresh s)\<rparr>) = (s1, ok)"
      "s' = (if ok then record_audit e now (r_UserID t) ''auth.refresh_reuse'' (r_Family t) s1
             else s1)"
      "rep = (if ok then Reply 401 (JError ''refresh token reuse; sign in again'') else Panicked)"
  | (Rotated) token t s1 where "b = OneObject token"
      "get (sv_refresh s) (digest e token) = Some t" "now < r_Expires t" "\<not> r_Used t"
      "s1 = s\<lparr>sv_refresh := adjust (digest e token) spent (sv_refresh s)\<rparr>"
      "s' = fst (issue e now (r_UserID t) (r_Family t) s1)"
      "rep = (case snd (issue e now (r_UserID t) (r_Family t) s1) of
                None \<Rightarrow> Panicked | Some t \<Rightarrow> Reply 200 (JTokens t))"
proof (cases b)
  case (OneObject token)
  note def = rotate_def decode_def OneObject
  show thesis
  proof (cases "get (sv_refresh s) (digest e token)")
    case None
    with assms show thesis by (intro Failed) (auto simp: def fail_def)
  next
    case (Some t)
    consider "\<not> now < r_Expires t" | "now < r_Expires t" "r_Used t"
      | "now < r_Expires t" "\<not> r_Used t" by blast
    then show thesis
    proof cases
      case 1
      with Some assms show thesis by (intro Failed) (auto simp: def fail_def)
    next
      case 2
      obtain s1 ok where i: "invalidate e now (r_UserID t)
         (s\<lparr>sv_refresh := each (spends_family (r_Family t)) (sv_refresh s)\<rparr>) = (s1, ok)" by force
      with 2 Some assms show thesis
        by (intro Reuse[OF OneObject Some _ _ i])
          (auto simp: def fail_def Let_def spends_family_def[abs_def] split: if_splits)
    next
      case 3
      with Some assms show thesis
        by (intro Rotated[OF OneObject Some _ _ refl])
          (auto simp: def Let_def spent_def[abs_def] reply_tokens_def)
    qed
  qed
qed (use assms Failed in \<open>auto simp: rotate_def decode_def\<close>)

text \<open>Spending one token of a family and issuing its successor.\<close>

lemma successor_keeps:
  assumes ti: "token_inv (sv_refresh s)" and fresh: "fresh_issue e (r_Family t) s"
    and t: "get (sv_refresh s) h = Some t" "\<not> r_Used t"
    and s1: "s1 = s\<lparr>sv_refresh := adjust h spent (sv_refresh s)\<rparr>"
  shows "token_inv (sv_refresh (fst (issue e now (r_UserID t) (r_Family t) s1)))"
proof (rule issue_keeps)
  have fr: "sv_refresh s1 = adjust h spent (sv_refresh s)"
    "sv_accounts s1 = sv_accounts s" "sv_entropy s1 = sv_entropy s"
    by (simp_all add: s1)
  have "fewer_tokens (sv_refresh s) (sv_refresh s1)"
    using token_invD(1)[OF ti] unfolding fr by (auto intro!: fewer_adjust simp: spent_def)
  from fewer_tokens_inv[OF this ti] show "token_inv (sv_refresh s1)" by (simp add: fr)
  show "fresh_issue e (r_Family t) s1"
    using fresh by (auto simp: fresh_issue_def fr get_adjust new_raw_def next_id_def spent_def
        intro!: all_map_adjust)
  show "r_Used x \<and> r_UserID x = r_UserID t"
    if "get (sv_refresh s1) i = Some x" "r_Family x = r_Family t" for i x
  proof -
    from that(1) obtain x0 where x0: "get (sv_refresh s) i = Some x0"
      "x = (if i = h then spent x0 else x0)"
      by (auto simp: fr get_adjust split: if_splits)
    with that(2) have "r_Family x0 = r_Family t" by (auto simp: spent_def split: if_splits)
    from token_invD(2)[OF ti x0(1) t(1) this] x0(2) t(2) show ?thesis
      by (auto simp: spent_def)
  qed
qed

lemma rotate_keeps:
  assumes "account_inv (sv_accounts s) (sv_emails s)"
    and "token_inv (sv_refresh s)" and "table_inv (sv_sessions s)"
    and "\<And>f. fresh_issue e f s"
    and "rotate e now b s = (s', rep)"
  shows "account_inv (sv_accounts s') (sv_emails s')"
    and "token_inv (sv_refresh s')"
    and "keeps_table now (sv_sessions s) (sv_sessions s')"
proof -
  have "account_inv (sv_accounts s') (sv_emails s') \<and>
    token_inv (sv_refresh s') \<and>
    keeps_table now (sv_sessions s) (sv_sessions s')"
    using assms(5)
  proof (cases rule: rotate_cases)
    case Failed
    with assms(1-3) show ?thesis by simp
  next
    case (Reuse token t s1 ok)
    let ?s0 = "s\<lparr>sv_refresh := each (spends_family (r_Family t)) (sv_refresh s)\<rparr>"
    have "fewer_tokens (sv_refresh s) (sv_refresh ?s0)"
      using token_invD(1)[OF assms(2)] by (auto intro!: fewer_each simp: spends_family_def)
    from fewer_tokens_inv[OF this assms(2)]
    have "token_inv (sv_refresh ?s0)" by simp
    from invalidate_keeps[OF _ this _ Reuse(5)] assms(1,3) show ?thesis
      unfolding Reuse(6) by simp
  next
    case (Rotated token t s1)
    from successor_keeps[OF assms(2,4) Rotated(2,4,5)]
    have "token_inv (sv_refresh (fst (issue e now (r_UserID t) (r_Family t) s1)))" .
    then show ?thesis
      using assms(1,3) by (simp add: Rotated(5,6))
  qed
  then show "account_inv (sv_accounts s') (sv_emails s')"
    and "token_inv (sv_refresh s')"
    and "keeps_table now (sv_sessions s) (sv_sessions s')" by blast+
qed

section \<open>register and login\<close>

definition new_account ::
  "string \<Rightarrow> string \<Rightarrow> string \<Rightarrow> password \<Rightarrow> account" where
  "new_account ident email name p =
     \<lparr>a_ID = ident, a_Email = email, a_Name = name, a_Password = p, a_Version = 0\<rparr>"

definition normal_email :: "env \<Rightarrow> string \<Rightarrow> string" where
  "normal_email e x = ToLower (unicode_lower e) (TrimSpace x)"

text \<open>The identifier, the password and the state in which tokens are issued.\<close>

definition reg_id :: "env \<Rightarrow> 'st service \<Rightarrow> string" where
  "reg_id e s = RawURLEncode (rand_bytes e (sv_entropy s + 1) 18)"

definition reg_password :: "env \<Rightarrow> string \<Rightarrow> 'st service \<Rightarrow> password" where
  "reg_password e raw s =
     (let salt = rand_bytes e (sv_entropy s) 16
      in \<lparr>pw_Salt = salt, pw_Hash = argon2id e raw salt 3 (64 * 1024) 2 32\<rparr>)"

lemma reg_password_matches [simp]: "matches e (reg_password e raw s) raw"
  by (simp add: matches_def reg_password_def Let_def)

lemma releaseSlot_frame [simp, frame]:
  "sv_accounts (releaseSlot s) = sv_accounts s" "sv_emails (releaseSlot s) = sv_emails s"
  "sv_refresh (releaseSlot s) = sv_refresh s" "sv_devices (releaseSlot s) = sv_devices s"
  "sv_sessions (releaseSlot s) = sv_sessions s" "sv_challenges (releaseSlot s) = sv_challenges s"
  "sv_peers (releaseSlot s) = sv_peers s" "sv_conns (releaseSlot s) = sv_conns s"
  "sv_rates (releaseSlot s) = sv_rates s" "sv_audit (releaseSlot s) = sv_audit s"
  "sv_key (releaseSlot s) = sv_key s" "sv_store (releaseSlot s) = sv_store s"
  "sv_entropy (releaseSlot s) = sv_entropy s"
  "sv_authSlots (releaseSlot s) = sv_authSlots s - 1"
  by (simp_all add: releaseSlot_def)

lemma authSlot_Some:
  "authSlot s = Some s1 \<longleftrightarrow>
     sv_authSlots s < 2 \<and> s1 = s\<lparr>sv_authSlots := sv_authSlots s + 1\<rparr>"
  by (auto simp: authSlot_def)

lemma register_insert_cases:
  assumes "register_insert e now email name p s = (s', rep)"
    and "account_inv (sv_accounts s) (sv_emails s)"
  obtains
    (Taken) k where "get (sv_emails s) email = Some k" "s' = s"
      "rep = Reply 409 (JError ''account cannot be registered'')"
  | (Created) s2 t where "get (sv_emails s) email = None"
      "sv_accounts s2 =
         put (sv_accounts s) (next_id e 18 s) (new_account (next_id e 18 s) email name p)"
      "sv_emails s2 = put (sv_emails s) email (next_id e 18 s)"
      "sv_refresh s2 = sv_refresh s" "sv_sessions s2 = sv_sessions s"
      "sv_devices s2 = sv_devices s" "sv_key s2 = sv_key s" "sv_authSlots s2 = sv_authSlots s"
      "sv_entropy s2 = sv_entropy s + 2"
      "s' = fst (issue e now (next_id e 18 s) [] s2)"
      "snd (issue e now (next_id e 18 s) [] s2) = Some t" "rep = Reply 201 (JTokens t)"
proof (cases "get (sv_emails s) email")
  case (Some k)
  with account_invD(4)[OF assms(2) Some] account_invD(3)[OF assms(2), of k] have "k \<noteq> []"
    by blast
  with assms(1) Some show thesis by (intro Taken) (auto simp: register_insert_def fail_def)
next
  case None
  let ?i = "next_id e 18 s"
  let ?s1 = "s\<lparr>sv_entropy := sv_entropy s + 1,
      sv_accounts := put (sv_accounts s) ?i (new_account ?i email name p),
      sv_emails := put (sv_emails s) email ?i\<rparr>"
  let ?s2 = "record_audit e now ?i ''account.registered'' ?i ?s1"
  have "register_insert e now email name p s = reply_tokens 201 (issue e now ?i [] ?s2)"
    using None by (simp add: register_insert_def randomID_next Let_def new_account_def)
  moreover obtain t where t: "snd (issue e now ?i [] ?s2) = Some t"
    by (simp add: issue_effect(2) get_put)
  moreover have "sv_entropy ?s2 = sv_entropy s + 2"
    by (simp add: record_audit_def randomID_def random_read_def)
  ultimately show thesis
    using assms(1) by (intro Created[OF None _ _ _ _ _ _ _ _ _ t]) (auto simp: reply_tokens_def)
qed

lemma register_locked_insert:
  "register_locked e now email name raw s =
     register_insert e now email name (reg_password e raw s) (s\<lparr>sv_entropy := sv_entropy s + 1\<rparr>)"
  "reg_id e s = next_id e 18 (s\<lparr>sv_entropy := sv_entropy s + 1\<rparr>)"
  by (simp_all add: register_locked_def hashPassword_def random_read_def reg_password_def Let_def
      reg_id_def next_id_def)

lemma register_locked_cases:
  assumes "register_locked e now email name raw s = (s', rep)"
    and "account_inv (sv_accounts s) (sv_emails s)"
  obtains
    (Taken) k where "get (sv_emails s) email = Some k"
      "s' = s\<lparr>sv_entropy := sv_entropy s + 1\<rparr>"
      "rep = Reply 409 (JError ''account cannot be registered'')"
  | (Created) s2 t where "get (sv_emails s) email = None"
      "sv_accounts s2 =
         put (sv_accounts s) (reg_id e s)
           (new_account (reg_id e s) email name (reg_password e raw s))"
      "sv_emails s2 = put (sv_emails s) email (reg_id e s)"
      "sv_refresh s2 = sv_refresh s" "sv_sessions s2 = sv_sessions s"
      "sv_devices s2 = sv_devices s" "sv_key s2 = sv_key s" "sv_authSlots s2 = sv_authSlots s"
      "sv_entropy s2 = sv_entropy s + 3"
      "s' = fst (issue e now (reg_id e s) [] s2)"
      "snd (issue e now (reg_id e s) [] s2) = Some t" "rep = Reply 201 (JTokens t)"
proof -
  from assms(1) have "register_insert e now email name (reg_password e raw s)
      (s\<lparr>sv_entropy := sv_entropy s + 1\<rparr>) = (s', rep)"
    by (simp add: register_locked_insert)
  moreover from assms(2) have "account_inv (sv_accounts (s\<lparr>sv_entropy := sv_entropy s + 1\<rparr>))
      (sv_emails (s\<lparr>sv_entropy := sv_entropy s + 1\<rparr>))" by simp
  ultimately show thesis
  proof (cases rule: register_insert_cases)
    case (Taken k)
    with that(1) show thesis by simp
  next
    case (Created s2 t)
    show thesis by (rule that(2)[of s2 t]) (use Created in \<open>simp_all add: register_locked_insert(2)\<close>)
  qed
qed

lemma account_inv_put:
  assumes "account_inv as ems" and "get as k = None" and "get ems (a_Email a) = None"
    and "a_ID a = k" and "k \<noteq> []"
  shows "account_inv (put as k a) (put ems (a_Email a) k)"
  unfolding account_inv_def
proof (intro conjI allI impI)
  show "wf_map (put as k a)" "wf_map (put ems (a_Email a) k)"
    using account_invD(1,2)[OF assms(1)] by simp_all
  have 1: "a_ID b = x \<and> x \<noteq> [] \<and> get (put ems (a_Email a) k) (a_Email b) = Some x"
    if "get (put as k a) x = Some b" for x b
  proof (cases "x = k")
    case True
    with that assms(4,5) show ?thesis by (simp add: get_put)
  next
    case False
    with that have b: "get as x = Some b" by (simp add: get_put)
    with account_invD(3)[OF assms(1) b] assms(3) have "a_Email b \<noteq> a_Email a" by auto
    with account_invD(3)[OF assms(1) b] show ?thesis by (simp add: get_put)
  qed
  then show "a_ID b = x" "x \<noteq> []" "get (put ems (a_Email a) k) (a_Email b) = Some x"
    if "get (put as k a) x = Some b" for x b using that by blast+
  show "\<exists>b. get (put as k a) i = Some b \<and> a_Email b = x"
    if "get (put ems (a_Email a) k) x = Some i" for x i
  proof (cases "x = a_Email a")
    case True
    with that show ?thesis by (simp add: get_put)
  next
    case False
    with that have "get ems x = Some i" by (simp add: get_put)
    from account_invD(4)[OF assms(1) this] assms(2) show ?thesis by (auto simp: get_put)
  qed
qed

lemma register_insert_keeps:
  assumes "register_insert e now email name p s = (s', rep)"
    and "account_inv (sv_accounts s) (sv_emails s)"
    and "token_inv (sv_refresh s)"
    and "get (sv_accounts s) (next_id e 18 s) = None" and "next_id e 18 s \<noteq> []"
    and "fresh_issue e [] (s\<lparr>sv_entropy := sv_entropy s + 2\<rparr>)"
  shows "account_inv (sv_accounts s') (sv_emails s') \<and>
    token_inv (sv_refresh s')"
  using assms(1,2)
proof (cases rule: register_insert_cases)
  case (Taken k)
  with assms show ?thesis by simp
next
  case (Created s2 t)
  let ?a = "new_account (next_id e 18 s) email name p"
  have "account_inv (put (sv_accounts s) (next_id e 18 s) ?a)
      (put (sv_emails s) (a_Email ?a) (next_id e 18 s))"
    using assms(2,4,5) Created(1) by (intro account_inv_put) (simp_all add: new_account_def)
  then have ai: "account_inv (sv_accounts s2) (sv_emails s2)"
    by (simp add: Created(2,3) new_account_def)
  have "token_inv (sv_refresh s2)"
    unfolding Created(4)
    by (rule assms(3))
  moreover have "fresh_issue e [] s2"
    using assms(6) by (simp add: fresh_issue_def new_raw_def next_id_def Created(4,9))
  ultimately have "token_inv (sv_refresh (fst (issue e now (next_id e 18 s) [] s2)))"
    by (intro issue_keeps) simp_all
  with ai show ?thesis by (simp add: Created(10))
qed

lemma register_locked_keeps:
  assumes "register_locked e now email name raw s = (s', rep)"
    and "account_inv (sv_accounts s) (sv_emails s)"
    and "token_inv (sv_refresh s)"
    and "get (sv_accounts s) (reg_id e s) = None" and "reg_id e s \<noteq> []"
    and "fresh_issue e [] (s\<lparr>sv_entropy := sv_entropy s + 3\<rparr>)"
  shows "account_inv (sv_accounts s') (sv_emails s') \<and>
    token_inv (sv_refresh s')"
  using assms
  by (intro register_insert_keeps[where p = "reg_password e raw s" and s = "s\<lparr>sv_entropy := sv_entropy s + 1\<rparr>"])
    (simp_all add: register_locked_insert numeral_3_eq_3)

lemma register_cases:
  assumes "register e now b s = (s', rep)"
  obtains
    (Failed) "s' = s" "\<exists>st m. rep = Reply st (JError m)"
  | (Locked) q s1 where "b = OneObject q" "\<not> register_invalid e (normal_email e (rg_Email q)) q"
      "sv_authSlots s < 2"
      "register_locked e now (normal_email e (rg_Email q)) (rg_Name q) (rg_Password q)
         (s\<lparr>sv_authSlots := sv_authSlots s + 1\<rparr>) = (s1, rep)"
      "s' = releaseSlot s1"
proof (cases b)
  case (OneObject q)
  note def = register_def decode_def OneObject normal_email_def[symmetric] Let_def authSlot_def
  show thesis
  proof (cases "register_invalid e (normal_email e (rg_Email q)) q \<or> \<not> sv_authSlots s < 2")
    case True
    with assms show thesis by (intro Failed) (auto simp: def fail_def busy_def split: if_splits)
  next
    case False
    obtain s1 rep1 where l: "register_locked e now (normal_email e (rg_Email q)) (rg_Name q)
        (rg_Password q) (s\<lparr>sv_authSlots := sv_authSlots s + 1\<rparr>) = (s1, rep1)" by force
    with False assms have "s' = releaseSlot s1" "rep1 = rep" by (auto simp: def)
    with False l show thesis by (intro Locked[OF OneObject]) auto
  qed
qed (use assms Failed in \<open>auto simp: register_def decode_def\<close>)

lemma login_finish_cases:
  assumes "login_finish e now q found s = (s', rep)"
  obtains
    (Refused) "s' = s" "rep = Reply 401 (JError ''invalid credentials'')"
      "\<forall>a. found = Some a \<longrightarrow> \<not> matches e (a_Password a) (lg_Password q)"
  | (Accepted) a s1 where "found = Some a"
      "matches e (a_Password a) (lg_Password q)"
      "s1 = record_audit e now (a_ID a) ''account.login'' (a_ID a) s"
      "s' = fst (issue e now (a_ID a) [] s1)"
      "rep = (case snd (issue e now (a_ID a) [] s1) of
                None \<Rightarrow> Panicked | Some t \<Rightarrow> Reply 200 (JTokens t))"
proof (cases "\<exists>a. found = Some a \<and> matches e (a_Password a) (lg_Password q)")
  case True
  then obtain a where a: "found = Some a" "matches e (a_Password a) (lg_Password q)" by blast
  with assms show thesis
    by (intro Accepted[OF a refl]) (auto simp: login_finish_def Let_def reply_tokens_def)
next
  case False
  with assms show thesis
    by (intro Refused) (auto simp: login_finish_def Let_def fail_def split: option.splits)
qed

lemma login_locked_cases:
  assumes "login_locked e now q s = (s', rep)"
  obtains
    (Refused) "s' = s" "rep = Reply 401 (JError ''invalid credentials'')"
      "\<forall>a. find_account e (lg_Email q) s = Some a \<longrightarrow> \<not> matches e (a_Password a) (lg_Password q)"
  | (Accepted) a s1 where "find_account e (lg_Email q) s = Some a"
      "matches e (a_Password a) (lg_Password q)"
      "s1 = record_audit e now (a_ID a) ''account.login'' (a_ID a) s"
      "s' = fst (issue e now (a_ID a) [] s1)"
      "rep = (case snd (issue e now (a_ID a) [] s1) of
                None \<Rightarrow> Panicked | Some t \<Rightarrow> Reply 200 (JTokens t))"
  using assms unfolding login_locked_def by (rule login_finish_cases) (use that in blast)+

lemma login_cases:
  assumes "login e now b s = (s', rep)"
  obtains
    (Failed) "s' = s" "\<exists>st m. rep = Reply st (JError m)"
  | (Locked) q s1 where "b = OneObject q" "length (lg_Password q) \<le> 256" "sv_authSlots s < 2"
      "login_locked e now q (s\<lparr>sv_authSlots := sv_authSlots s + 1\<rparr>) = (s1, rep)"
      "s' = releaseSlot s1"
proof (cases b)
  case (OneObject q)
  note def = login_def decode_def OneObject Let_def authSlot_def
  show thesis
  proof (cases "length (lg_Password q) > 256 \<or> \<not> sv_authSlots s < 2")
    case True
    with assms show thesis by (intro Failed) (auto simp: def fail_def busy_def split: if_splits)
  next
    case False
    obtain s1 rep1 where l: "login_locked e now q (s\<lparr>sv_authSlots := sv_authSlots s + 1\<rparr>)
        = (s1, rep1)" by force
    with False assms have "s' = releaseSlot s1" "rep1 = rep" by (auto simp: def)
    with False l show thesis by (intro Locked[OF OneObject]) auto
  qed
qed (use assms Failed in \<open>auto simp: login_def decode_def\<close>)

lemma find_account_inv:
  assumes "account_inv (sv_accounts s) (sv_emails s)" and "find_account e x s = Some a"
  shows "get (sv_accounts s) (a_ID a) = Some a" and "a_Email a = normal_email e x"
proof -
  from assms(2) obtain k where k: "get (sv_accounts s) k = Some a"
    and "k = (case get (sv_emails s) (normal_email e x) of None \<Rightarrow> [] | Some i \<Rightarrow> i)"
    by (simp add: find_account_def normal_email_def)
  with account_invD(3)[OF assms(1) k] account_invD(4)[OF assms(1), of "normal_email e x" k]
  show "get (sv_accounts s) (a_ID a) = Some a" and "a_Email a = normal_email e x"
    by (auto split: option.splits)
qed

lemma login_locked_keeps:
  assumes "login_locked e now q s = (s', rep)"
    and "account_inv (sv_accounts s) (sv_emails s)"
    and "token_inv (sv_refresh s)"
    and "fresh_issue e [] (s\<lparr>sv_entropy := sv_entropy s + 1\<rparr>)"
  shows "account_inv (sv_accounts s') (sv_emails s') \<and>
    token_inv (sv_refresh s')"
  using assms(1)
proof (cases rule: login_locked_cases)
  case Refused
  with assms show ?thesis by simp
next
  case (Accepted a s1)
  have fr: "sv_accounts s1 = sv_accounts s" "sv_emails s1 = sv_emails s"
    "sv_refresh s1 = sv_refresh s" "sv_entropy s1 = sv_entropy s + 1"
    by (simp_all add: Accepted(3) record_audit_def randomID_def random_read_def)
  have "fresh_issue e [] s1"
    using assms(4) by (simp add: fresh_issue_def new_raw_def next_id_def fr)
  with assms(3) find_account_inv(1)[OF assms(2) Accepted(1)]
  have "token_inv (sv_refresh (fst (issue e now (a_ID a) [] s1)))"
    by (intro issue_keeps) (simp_all add: fr)
  with assms(2) show ?thesis by (simp add: Accepted(4) fr)
qed

end
