(* ===== verification/Ice_Handlers.thy ===== *)
theory Ice_Handlers
  imports Service_State
begin

text \<open>
  \<open>internal/platform/ice.go\<close>: the start-up configuration of STUN and TURN endpoints and the
  handler that hands relay credentials to the participants of an active session.
\<close>

datatype ice_error = InvalidIceURL | TurnSecretRequired

definition is_turn :: "string \<Rightarrow> bool" where
  "is_turn url \<longleftrightarrow> HasPrefix url ''turn:'' \<or> HasPrefix url ''turns:''"

definition is_ice_url :: "string \<Rightarrow> bool" where
  "is_ice_url url \<longleftrightarrow> HasPrefix url ''stun:'' \<or> HasPrefix url ''stuns:'' \<or> is_turn url"

fun check_ice :: "string list \<Rightarrow> string \<Rightarrow> ice_error option" where
  "check_ice [] secret = None"
| "check_ice (url # urls) secret =
     (if \<not> is_ice_url url \<or> ContainsAny url [CHR '' '', CHR 0x0A, CHR 0x0D, CHR ''@'']
      then Some InvalidIceURL
      else if is_turn url \<and> (length secret < 32 \<or> ContainsStr secret ''REPLACE'')
      then Some TurnSecretRequired
      else check_ice urls secret)"

definition ConfigureICE ::
  "string list \<Rightarrow> string \<Rightarrow> 'st service \<Rightarrow> 'st service \<times> ice_error option" where
  "ConfigureICE urls secret s =
     (case check_ice urls secret of
        Some err \<Rightarrow> (s, Some err)
      | None \<Rightarrow> (s\<lparr>sv_iceURLs := urls, sv_turnSecret := secret\<rparr>, None))"

definition iceConfiguration ::
  "env \<Rightarrow> time \<Rightarrow> string \<Rightarrow> string \<Rightarrow> 'st service \<Rightarrow> 'st outcome" where
  "iceConfiguration e now k user s =
     (case get (sv_sessions s) k of
        None \<Rightarrow> fail s 404 ''session not found''
      | Some session \<Rightarrow>
          if \<not> visible s session user then fail s 404 ''session not found''
          else if s_State session \<noteq> ''active'' \<or> \<not> now < s_Expires session
          then fail s 403 ''an active approved session is required''
          else if length (sv_iceURLs s) = 0
          then fail s 503 ''STUN/TURN endpoints are not configured''
          else
            let limit = now + 10 * minute;
                expires = (if s_Expires session < limit then s_Expires session else limit);
                login = TURNCredential e (sv_turnSecret s) user expires;
                entries = map (\<lambda>url. \<lparr>ice_url = url,
                                      ice_login = (if is_turn url then Some login else None)\<rparr>)
                            (sv_iceURLs s)
            in (s, Reply 200 (JIce entries expires)))"

end
