(* ===== verification/Memory_Store.thy ===== *)
theory Memory_Store
  imports Store_Model
begin

text \<open>
  \<open>internal/store/memory.go\<close>: the in-process store, one definition per method. Every method
  holds the mutex from its first to its last statement, so a method is one atomic step on the
  record of maps. A range loop over a map follows the order of the association list. Reads of
  \<open>time.Now()\<close> are the parameter \<open>now\<close>.
\<close>

record MemoryStore =
  ms_accounts :: "(string, Account) gomap"
  ms_emails :: "(string, string) gomap"
  ms_refresh :: "(string, RefreshToken) gomap"
  ms_devices :: "(string, StoreDevice) gomap"
  ms_sessions :: "(string, StoreSession) gomap"
  ms_audit :: "AuditEvent list"
  ms_secondFactor :: "(string, SecondFactor) gomap"
  ms_emailTokens :: "(string, EmailToken) gomap"
  ms_orgs :: "(string, Organization) gomap"
  ms_memberships :: "(string, Membership) gomap"
  ms_invites :: "(string, OrgInvite) gomap"
  ms_workflows :: "(string, Workflow) gomap"
  ms_wfRuns :: "(string, WorkflowRun) gomap"
  ms_transfers :: "(string, TransferRecord) gomap"
  ms_online :: "(string, time) gomap"

type_synonym mem_result = "MemoryStore \<times> store_error option"

definition NewMemoryStore :: MemoryStore where
  "NewMemoryStore =
     \<lparr>ms_accounts = [], ms_emails = [], ms_refresh = [], ms_devices = [], ms_sessions = [],
      ms_audit = [], ms_secondFactor = [], ms_emailTokens = [], ms_orgs = [],
      ms_memberships = [], ms_invites = [], ms_workflows = [], ms_wfRuns = [],
      ms_transfers = [], ms_online = []\<rparr>"

definition memberKey :: "string \<Rightarrow> string \<Rightarrow> string" where
  "memberKey orgID userID = orgID @ '':'' @ userID"

section \<open>Accounts\<close>

definition CreateAccount ::
  "time \<Rightarrow> MemoryStore \<Rightarrow> string \<Rightarrow> string \<Rightarrow> string \<Rightarrow> string \<Rightarrow> mem_result" where
  "CreateAccount now m ident email name passwordHash =
     (if get (ms_emails m) email \<noteq> None then (m, Some ErrConflict)
      else (m\<lparr>ms_accounts := put (ms_accounts m) ident
                \<lparr>ac_ID = ident, ac_Email = email, ac_Name = name, ac_PasswordHash = passwordHash,
                 ac_TokenVersion = 0, ac_EmailVerifiedAt = None, ac_CreatedAt = now\<rparr>,
              ms_emails := put (ms_emails m) email ident\<rparr>, None))"

definition GetAccountByID :: "MemoryStore \<Rightarrow> string \<Rightarrow> store_error + Account" where
  "GetAccountByID m ident =
     (case get (ms_accounts m) ident of None \<Rightarrow> Inl ErrNotFound | Some a \<Rightarrow> Inr a)"

definition GetAccountByEmail :: "MemoryStore \<Rightarrow> string \<Rightarrow> store_error + Account" where
  "GetAccountByEmail m email =
     (case get (ms_emails m) email of
        None \<Rightarrow> Inl ErrNotFound
      | Some ident \<Rightarrow>
          (case get (ms_accounts m) ident of None \<Rightarrow> Inl NilDereference | Some a \<Rightarrow> Inr a))"

definition UpdateAccountVersion :: "MemoryStore \<Rightarrow> string \<Rightarrow> mem_result" where
  "UpdateAccountVersion m userID =
     (case get (ms_accounts m) userID of
        None \<Rightarrow> (m, Some ErrNotFound)
      | Some a \<Rightarrow>
          (m\<lparr>ms_accounts :=
               adjust userID (\<lambda>a. a\<lparr>ac_TokenVersion := ac_TokenVersion a + 1\<rparr>) (ms_accounts m)\<rparr>,
           None))"

definition SetEmailVerified :: "MemoryStore \<Rightarrow> string \<Rightarrow> time \<Rightarrow> mem_result" where
  "SetEmailVerified m userID t =
     (case get (ms_accounts m) userID of
        None \<Rightarrow> (m, Some ErrNotFound)
      | Some a \<Rightarrow>
          (m\<lparr>ms_accounts :=
               adjust userID (\<lambda>a. a\<lparr>ac_EmailVerifiedAt := Some t\<rparr>) (ms_accounts m)\<rparr>, None))"

definition UpdatePassword :: "MemoryStore \<Rightarrow> string \<Rightarrow> string \<Rightarrow> mem_result" where
  "UpdatePassword m userID passwordHash =
     (case get (ms_accounts m) userID of
        None \<Rightarrow> (m, Some ErrNotFound)
      | Some a \<Rightarrow>
          (m\<lparr>ms_accounts :=
               adjust userID
                 (\<lambda>a. a\<lparr>ac_PasswordHash := passwordHash,
                        ac_TokenVersion := ac_TokenVersion a + 1\<rparr>) (ms_accounts m)\<rparr>, None))"

section \<open>Refresh tokens\<close>

definition CreateRefreshToken ::
  "MemoryStore \<Rightarrow> string \<Rightarrow> string \<Rightarrow> string \<Rightarrow> time \<Rightarrow> mem_result" where
  "CreateRefreshToken m hash userID familyID expires =
     (m\<lparr>ms_refresh := put (ms_refresh m) hash
          \<lparr>rt_Hash = hash, rt_UserID = userID, rt_FamilyID = familyID, rt_ExpiresAt = expires,
           rt_UsedAt = None, rt_RevokedAt = None\<rparr>\<rparr>, None)"

definition GetRefreshToken :: "MemoryStore \<Rightarrow> string \<Rightarrow> store_error + RefreshToken" where
  "GetRefreshToken m hash =
     (case get (ms_refresh m) hash of None \<Rightarrow> Inl ErrNotFound | Some t \<Rightarrow> Inr t)"

definition MarkRefreshTokenUsed :: "MemoryStore \<Rightarrow> string \<Rightarrow> time \<Rightarrow> mem_result" where
  "MarkRefreshTokenUsed m hash at =
     (case get (ms_refresh m) hash of
        None \<Rightarrow> (m, Some ErrNotFound)
      | Some t \<Rightarrow>
          (m\<lparr>ms_refresh := adjust hash (\<lambda>t. t\<lparr>rt_UsedAt := Some at\<rparr>) (ms_refresh m)\<rparr>, None))"

definition RevokeFamily :: "time \<Rightarrow> MemoryStore \<Rightarrow> string \<Rightarrow> mem_result" where
  "RevokeFamily now m familyID =
     (m\<lparr>ms_refresh := each
          (\<lambda>t. if rt_FamilyID t = familyID
               then t\<lparr>rt_UsedAt := Some now, rt_RevokedAt := Some now\<rparr> else t)
          (ms_refresh m)\<rparr>, None)"

section \<open>Devices\<close>

definition CreateDevice :: "MemoryStore \<Rightarrow> StoreDevice \<Rightarrow> mem_result" where
  "CreateDevice m d =
     (if get (ms_devices m) (sd_ID d) \<noteq> None then (m, Some ErrConflict)
      else (m\<lparr>ms_devices := put (ms_devices m) (sd_ID d) d\<rparr>, None))"

definition GetDevice :: "MemoryStore \<Rightarrow> string \<Rightarrow> store_error + StoreDevice" where
  "GetDevice m ident =
     (case get (ms_devices m) ident of None \<Rightarrow> Inl ErrNotFound | Some d \<Rightarrow> Inr d)"

definition GetDeviceByPublicKey :: "MemoryStore \<Rightarrow> string \<Rightarrow> store_error + StoreDevice" where
  "GetDeviceByPublicKey m publicKey =
     (case find (\<lambda>d. sd_PublicKey d = publicKey) (vals (ms_devices m)) of
        None \<Rightarrow> Inl ErrNotFound
      | Some d \<Rightarrow> Inr d)"

definition ListDevicesByOwner :: "MemoryStore \<Rightarrow> string \<Rightarrow> StoreDevice list" where
  "ListDevicesByOwner m ownerID = filter (\<lambda>d. sd_OwnerID d = ownerID) (vals (ms_devices m))"

definition UpdateDevice :: "MemoryStore \<Rightarrow> StoreDevice \<Rightarrow> mem_result" where
  "UpdateDevice m d =
     (if get (ms_devices m) (sd_ID d) = None then (m, Some ErrNotFound)
      else (m\<lparr>ms_devices := put (ms_devices m) (sd_ID d) d\<rparr>, None))"

definition RevokeDevice :: "MemoryStore \<Rightarrow> string \<Rightarrow> time \<Rightarrow> mem_result" where
  "RevokeDevice m ident at =
     (case get (ms_devices m) ident of
        None \<Rightarrow> (m, Some ErrNotFound)
      | Some d \<Rightarrow>
          (m\<lparr>ms_devices :=
               adjust ident (\<lambda>d. d\<lparr>sd_RevokedAt := Some at, sd_Revoked := True\<rparr>) (ms_devices m)\<rparr>,
           None))"

section \<open>Sessions\<close>

definition CreateSession :: "MemoryStore \<Rightarrow> StoreSession \<Rightarrow> mem_result" where
  "CreateSession m s =
     (if get (ms_sessions m) (ss_ID s) \<noteq> None then (m, Some ErrConflict)
      else (m\<lparr>ms_sessions := put (ms_sessions m) (ss_ID s) s\<rparr>, None))"

definition GetSession :: "MemoryStore \<Rightarrow> string \<Rightarrow> store_error + StoreSession" where
  "GetSession m ident =
     (case get (ms_sessions m) ident of None \<Rightarrow> Inl ErrNotFound | Some s \<Rightarrow> Inr s)"

definition UpdateSession :: "MemoryStore \<Rightarrow> StoreSession \<Rightarrow> mem_result" where
  "UpdateSession m s =
     (if get (ms_sessions m) (ss_ID s) = None then (m, Some ErrNotFound)
      else (m\<lparr>ms_sessions := put (ms_sessions m) (ss_ID s) s\<rparr>, None))"

definition ListActiveSessionsByDevice :: "MemoryStore \<Rightarrow> string \<Rightarrow> StoreSession list" where
  "ListActiveSessionsByDevice m deviceID =
     filter (\<lambda>s. (ss_SourceDeviceID s = deviceID \<or> ss_TargetDeviceID s = deviceID) \<and>
                 (ss_State s = ''pending'' \<or> ss_State s = ''active''))
       (vals (ms_sessions m))"

definition ListSessionsByOperator :: "MemoryStore \<Rightarrow> string \<Rightarrow> StoreSession list" where
  "ListSessionsByOperator m operatorID =
     filter (\<lambda>s. ss_OperatorID s = operatorID) (vals (ms_sessions m))"

section \<open>Audit\<close>

definition CreateAudit :: "MemoryStore \<Rightarrow> AuditEvent \<Rightarrow> mem_result" where
  "CreateAudit m e = (m\<lparr>ms_audit := append_capped 10000 (ms_audit m) e\<rparr>, None)"

text \<open>The loop of \<open>ListAudit\<close> from the newest event down, \<open>limit\<close> being a Go \<open>int\<close> that
  may be zero or negative.\<close>

fun audit_scan ::
  "string \<Rightarrow> int \<Rightarrow> AuditEvent list \<Rightarrow> AuditEvent list \<Rightarrow> AuditEvent list" where
  "audit_scan actorID limit [] out = out"
| "audit_scan actorID limit (e # es) out =
     (if int (length out) < limit
      then audit_scan actorID limit es (if ae_ActorID e = actorID then out @ [e] else out)
      else out)"

definition ListAudit :: "MemoryStore \<Rightarrow> string \<Rightarrow> int \<Rightarrow> AuditEvent list" where
  "ListAudit m actorID limit = audit_scan actorID limit (rev (ms_audit m)) []"

section \<open>Presence\<close>

definition SetOnline :: "time \<Rightarrow> MemoryStore \<Rightarrow> string \<Rightarrow> duration \<Rightarrow> mem_result" where
  "SetOnline now m deviceID ttl =
     (m\<lparr>ms_online := put (ms_online m) deviceID (now + ttl)\<rparr>, None)"

definition IsOnline :: "time \<Rightarrow> MemoryStore \<Rightarrow> string \<Rightarrow> bool" where
  "IsOnline now m deviceID =
     (case get (ms_online m) deviceID of None \<Rightarrow> False | Some exp \<Rightarrow> now < exp)"

section \<open>Second factors\<close>

definition CreateSecondFactor ::
  "MemoryStore \<Rightarrow> string \<Rightarrow> string \<Rightarrow> string \<Rightarrow> string \<Rightarrow> mem_result" where
  "CreateSecondFactor m ident userID kind secret =
     (m\<lparr>ms_secondFactor := put (ms_secondFactor m) userID
          \<lparr>sf_ID = ident, sf_UserID = userID, sf_Kind = kind, sf_EncryptedSecret = secret,
           sf_VerifiedAt = None\<rparr>\<rparr>, None)"

definition GetSecondFactor :: "MemoryStore \<Rightarrow> string \<Rightarrow> store_error + SecondFactor" where
  "GetSecondFactor m userID =
     (case get (ms_secondFactor m) userID of None \<Rightarrow> Inl ErrNotFound | Some sf \<Rightarrow> Inr sf)"

definition VerifySecondFactor :: "MemoryStore \<Rightarrow> string \<Rightarrow> time \<Rightarrow> mem_result" where
  "VerifySecondFactor m ident at =
     (case find (\<lambda>(k, sf). sf_ID sf = ident) (ms_secondFactor m) of
        None \<Rightarrow> (m, Some ErrNotFound)
      | Some (k, sf) \<Rightarrow>
          (m\<lparr>ms_secondFactor :=
               adjust k (\<lambda>sf. sf\<lparr>sf_VerifiedAt := Some at\<rparr>) (ms_secondFactor m)\<rparr>, None))"

definition DeleteSecondFactor :: "MemoryStore \<Rightarrow> string \<Rightarrow> mem_result" where
  "DeleteSecondFactor m userID =
     (if get (ms_secondFactor m) userID = None then (m, Some ErrNotFound)
      else (m\<lparr>ms_secondFactor := del (ms_secondFactor m) userID\<rparr>, None))"

section \<open>Email tokens\<close>

definition CreateEmailToken ::
  "MemoryStore \<Rightarrow> string \<Rightarrow> string \<Rightarrow> string \<Rightarrow> time \<Rightarrow> mem_result" where
  "CreateEmailToken m tokenHash userID kind expires =
     (m\<lparr>ms_emailTokens := put (ms_emailTokens m) tokenHash
          \<lparr>et_TokenHash = tokenHash, et_UserID = userID, et_Kind = kind,
           et_ExpiresAt = expires\<rparr>\<rparr>, None)"

definition GetEmailToken :: "MemoryStore \<Rightarrow> string \<Rightarrow> store_error + EmailToken" where
  "GetEmailToken m tokenHash =
     (case get (ms_emailTokens m) tokenHash of None \<Rightarrow> Inl ErrNotFound | Some et \<Rightarrow> Inr et)"

definition DeleteEmailToken :: "MemoryStore \<Rightarrow> string \<Rightarrow> mem_result" where
  "DeleteEmailToken m tokenHash =
     (m\<lparr>ms_emailTokens := del (ms_emailTokens m) tokenHash\<rparr>, None)"

section \<open>Organizations and memberships\<close>

definition CreateOrganization :: "MemoryStore \<Rightarrow> Organization \<Rightarrow> mem_result" where
  "CreateOrganization m o' =
     (if get (ms_orgs m) (og_ID o') \<noteq> None then (m, Some ErrConflict)
      else (m\<lparr>ms_orgs := put (ms_orgs m) (og_ID o') o'\<rparr>, None))"

definition GetOrganization :: "MemoryStore \<Rightarrow> string \<Rightarrow> store_error + Organization" where
  "GetOrganization m ident =
     (case get (ms_orgs m) ident of None \<Rightarrow> Inl ErrNotFound | Some o' \<Rightarrow> Inr o')"

definition ListUserOrganizations :: "MemoryStore \<Rightarrow> string \<Rightarrow> Organization list" where
  "ListUserOrganizations m userID =
     List.map_filter (\<lambda>mem. if mb_UserID mem = userID
                            then get (ms_orgs m) (mb_OrganizationID mem) else None)
       (vals (ms_memberships m))"

definition CreateMembership ::
  "MemoryStore \<Rightarrow> string \<Rightarrow> string \<Rightarrow> string \<Rightarrow> time option \<Rightarrow> mem_result" where
  "CreateMembership m orgID userID role expires =
     (m\<lparr>ms_memberships := put (ms_memberships m) (memberKey orgID userID)
          \<lparr>mb_OrganizationID = orgID, mb_UserID = userID, mb_Role = role,
           mb_ExpiresAt = expires\<rparr>\<rparr>, None)"

definition GetMembership :: "MemoryStore \<Rightarrow> string \<Rightarrow> string \<Rightarrow> store_error + Membership" where
  "GetMembership m orgID userID =
     (case get (ms_memberships m) (memberKey orgID userID) of
        None \<Rightarrow> Inl ErrNotFound | Some mem \<Rightarrow> Inr mem)"

definition ListMembers :: "MemoryStore \<Rightarrow> string \<Rightarrow> Membership list" where
  "ListMembers m orgID = filter (\<lambda>mem. mb_OrganizationID mem = orgID) (vals (ms_memberships m))"

definition UpdateMemberRole ::
  "MemoryStore \<Rightarrow> string \<Rightarrow> string \<Rightarrow> string \<Rightarrow> mem_result" where
  "UpdateMemberRole m orgID userID role =
     (case get (ms_memberships m) (memberKey orgID userID) of
        None \<Rightarrow> (m, Some ErrNotFound)
      | Some mem \<Rightarrow>
          (m\<lparr>ms_memberships :=
               adjust (memberKey orgID userID) (\<lambda>mem. mem\<lparr>mb_Role := role\<rparr>) (ms_memberships m)\<rparr>,
           None))"

definition RemoveMembership :: "MemoryStore \<Rightarrow> string \<Rightarrow> string \<Rightarrow> mem_result" where
  "RemoveMembership m orgID userID =
     (let key = memberKey orgID userID in
      if get (ms_memberships m) key = None then (m, Some ErrNotFound)
      else (m\<lparr>ms_memberships := del (ms_memberships m) key\<rparr>, None))"

section \<open>Invites\<close>

definition CreateInvite :: "MemoryStore \<Rightarrow> OrgInvite \<Rightarrow> mem_result" where
  "CreateInvite m invite = (m\<lparr>ms_invites := put (ms_invites m) (iv_TokenHash invite) invite\<rparr>, None)"

definition GetInviteByToken :: "MemoryStore \<Rightarrow> string \<Rightarrow> store_error + OrgInvite" where
  "GetInviteByToken m tokenHash =
     (case get (ms_invites m) tokenHash of None \<Rightarrow> Inl ErrNotFound | Some invite \<Rightarrow> Inr invite)"

definition AcceptInvite :: "MemoryStore \<Rightarrow> string \<Rightarrow> time \<Rightarrow> mem_result" where
  "AcceptInvite m tokenHash at =
     (case get (ms_invites m) tokenHash of
        None \<Rightarrow> (m, Some ErrNotFound)
      | Some invite \<Rightarrow>
          (m\<lparr>ms_invites :=
               adjust tokenHash (\<lambda>invite. invite\<lparr>iv_AcceptedAt := Some at\<rparr>) (ms_invites m)\<rparr>, None))"

section \<open>Workflows\<close>

definition CreateWorkflow :: "MemoryStore \<Rightarrow> Workflow \<Rightarrow> mem_result" where
  "CreateWorkflow m w =
     (if get (ms_workflows m) (wf_ID w) \<noteq> None then (m, Some ErrConflict)
      else (m\<lparr>ms_workflows := put (ms_workflows m) (wf_ID w) w\<rparr>, None))"

definition GetWorkflow :: "MemoryStore \<Rightarrow> string \<Rightarrow> store_error + Workflow" where
  "GetWorkflow m ident =
     (case get (ms_workflows m) ident of None \<Rightarrow> Inl ErrNotFound | Some w \<Rightarrow> Inr w)"

definition ListWorkflows :: "MemoryStore \<Rightarrow> string \<Rightarrow> Workflow list" where
  "ListWorkflows m orgID = filter (\<lambda>w. wf_OrganizationID w = orgID) (vals (ms_workflows m))"

definition UpdateWorkflow :: "MemoryStore \<Rightarrow> Workflow \<Rightarrow> mem_result" where
  "UpdateWorkflow m w =
     (if get (ms_workflows m) (wf_ID w) = None then (m, Some ErrNotFound)
      else (m\<lparr>ms_workflows := put (ms_workflows m) (wf_ID w) w\<rparr>, None))"

definition CreateWorkflowRun :: "MemoryStore \<Rightarrow> WorkflowRun \<Rightarrow> mem_result" where
  "CreateWorkflowRun m run =
     (if get (ms_wfRuns m) (wr_ID run) \<noteq> None then (m, Some ErrConflict)
      else (m\<lparr>ms_wfRuns := put (ms_wfRuns m) (wr_ID run) run\<rparr>, None))"

definition GetWorkflowRun :: "MemoryStore \<Rightarrow> string \<Rightarrow> store_error + WorkflowRun" where
  "GetWorkflowRun m ident =
     (case get (ms_wfRuns m) ident of None \<Rightarrow> Inl ErrNotFound | Some r \<Rightarrow> Inr r)"

definition UpdateWorkflowRun :: "MemoryStore \<Rightarrow> WorkflowRun \<Rightarrow> mem_result" where
  "UpdateWorkflowRun m run =
     (if get (ms_wfRuns m) (wr_ID run) = None then (m, Some ErrNotFound)
      else (m\<lparr>ms_wfRuns := put (ms_wfRuns m) (wr_ID run) run\<rparr>, None))"

section \<open>Transfers\<close>

definition CreateTransferRecord :: "MemoryStore \<Rightarrow> TransferRecord \<Rightarrow> mem_result" where
  "CreateTransferRecord m tr = (m\<lparr>ms_transfers := put (ms_transfers m) (tr_ID tr) tr\<rparr>, None)"

definition UpdateTransferRecord :: "MemoryStore \<Rightarrow> TransferRecord \<Rightarrow> mem_result" where
  "UpdateTransferRecord m tr =
     (if get (ms_transfers m) (tr_ID tr) = None then (m, Some ErrNotFound)
      else (m\<lparr>ms_transfers := put (ms_transfers m) (tr_ID tr) tr\<rparr>, None))"

section \<open>Any sequence of operations\<close>

text \<open>The operations that change the store, as one datatype, and their run. The ones that read the
  clock carry the instant they read.\<close>

datatype mem_op =
    OpCreateAccount time string string string string
  | OpUpdateAccountVersion string
  | OpSetEmailVerified string time
  | OpUpdatePassword string string
  | OpCreateRefreshToken string string string time
  | OpMarkRefreshTokenUsed string time
  | OpRevokeFamily time string
  | OpCreateDevice StoreDevice
  | OpUpdateDevice StoreDevice
  | OpRevokeDevice string time
  | OpCreateSession StoreSession
  | OpUpdateSession StoreSession
  | OpCreateAudit AuditEvent
  | OpSetOnline time string duration
  | OpCreateSecondFactor string string string string
  | OpVerifySecondFactor string time
  | OpDeleteSecondFactor string
  | OpCreateEmailToken string string string time
  | OpDeleteEmailToken string
  | OpCreateOrganization Organization
  | OpCreateMembership string string string "time option"
  | OpUpdateMemberRole string string string
  | OpRemoveMembership string string
  | OpCreateInvite OrgInvite
  | OpAcceptInvite string time
  | OpCreateWorkflow Workflow
  | OpUpdateWorkflow Workflow
  | OpCreateWorkflowRun WorkflowRun
  | OpUpdateWorkflowRun WorkflowRun
  | OpCreateTransferRecord TransferRecord
  | OpUpdateTransferRecord TransferRecord

primrec mem_exec :: "mem_op \<Rightarrow> MemoryStore \<Rightarrow> mem_result" where
  "mem_exec (OpCreateAccount now i em nm pw) m = CreateAccount now m i em nm pw"
| "mem_exec (OpUpdateAccountVersion u) m = UpdateAccountVersion m u"
| "mem_exec (OpSetEmailVerified u t) m = SetEmailVerified m u t"
| "mem_exec (OpUpdatePassword u pw) m = UpdatePassword m u pw"
| "mem_exec (OpCreateRefreshToken h u f t) m = CreateRefreshToken m h u f t"
| "mem_exec (OpMarkRefreshTokenUsed h t) m = MarkRefreshTokenUsed m h t"
| "mem_exec (OpRevokeFamily now f) m = RevokeFamily now m f"
| "mem_exec (OpCreateDevice d) m = CreateDevice m d"
| "mem_exec (OpUpdateDevice d) m = UpdateDevice m d"
| "mem_exec (OpRevokeDevice i t) m = RevokeDevice m i t"
| "mem_exec (OpCreateSession s) m = CreateSession m s"
| "mem_exec (OpUpdateSession s) m = UpdateSession m s"
| "mem_exec (OpCreateAudit e) m = CreateAudit m e"
| "mem_exec (OpSetOnline now d ttl) m = SetOnline now m d ttl"
| "mem_exec (OpCreateSecondFactor i u kd sec) m = CreateSecondFactor m i u kd sec"
| "mem_exec (OpVerifySecondFactor i t) m = VerifySecondFactor m i t"
| "mem_exec (OpDeleteSecondFactor u) m = DeleteSecondFactor m u"
| "mem_exec (OpCreateEmailToken h u kd t) m = CreateEmailToken m h u kd t"
| "mem_exec (OpDeleteEmailToken h) m = DeleteEmailToken m h"
| "mem_exec (OpCreateOrganization o') m = CreateOrganization m o'"
| "mem_exec (OpCreateMembership o' u r ex) m = CreateMembership m o' u r ex"
| "mem_exec (OpUpdateMemberRole o' u r) m = UpdateMemberRole m o' u r"
| "mem_exec (OpRemoveMembership o' u) m = RemoveMembership m o' u"
| "mem_exec (OpCreateInvite i) m = CreateInvite m i"
| "mem_exec (OpAcceptInvite h t) m = AcceptInvite m h t"
| "mem_exec (OpCreateWorkflow w) m = CreateWorkflow m w"
| "mem_exec (OpUpdateWorkflow w) m = UpdateWorkflow m w"
| "mem_exec (OpCreateWorkflowRun r) m = CreateWorkflowRun m r"
| "mem_exec (OpUpdateWorkflowRun r) m = UpdateWorkflowRun m r"
| "mem_exec (OpCreateTransferRecord tr) m = CreateTransferRecord m tr"
| "mem_exec (OpUpdateTransferRecord tr) m = UpdateTransferRecord m tr"

definition mem_run :: "mem_op list \<Rightarrow> MemoryStore \<Rightarrow> MemoryStore" where
  "mem_run ops m = fold (\<lambda>op m. fst (mem_exec op m)) ops m"

text \<open>The invariant: every map has distinct keys and stores each record under the key it carries,
  every registered address leads to an account, and the audit log is within its cap.\<close>

definition mem_keys_ok :: "MemoryStore \<Rightarrow> bool" where
  "mem_keys_ok m \<longleftrightarrow>
     wf_map (ms_accounts m) \<and> wf_map (ms_emails m) \<and> wf_map (ms_refresh m) \<and>
     wf_map (ms_devices m) \<and> wf_map (ms_sessions m) \<and> wf_map (ms_secondFactor m) \<and>
     wf_map (ms_emailTokens m) \<and> wf_map (ms_orgs m) \<and> wf_map (ms_memberships m) \<and>
     wf_map (ms_invites m) \<and> wf_map (ms_workflows m) \<and> wf_map (ms_wfRuns m) \<and>
     wf_map (ms_transfers m) \<and> wf_map (ms_online m)"

definition mem_rows_ok :: "MemoryStore \<Rightarrow> bool" where
  "mem_rows_ok m \<longleftrightarrow>
     all_map (\<lambda>k a. ac_ID a = k) (ms_accounts m) \<and>
     all_map (\<lambda>e i. get (ms_accounts m) i \<noteq> None) (ms_emails m) \<and>
     all_map (\<lambda>k t. rt_Hash t = k \<and> (rt_RevokedAt t \<noteq> None \<longrightarrow> rt_UsedAt t \<noteq> None)) (ms_refresh m) \<and>
     all_map (\<lambda>k d. sd_ID d = k) (ms_devices m) \<and>
     all_map (\<lambda>k s. ss_ID s = k) (ms_sessions m) \<and>
     all_map (\<lambda>k sf. sf_UserID sf = k) (ms_secondFactor m) \<and>
     all_map (\<lambda>k et. et_TokenHash et = k) (ms_emailTokens m) \<and>
     all_map (\<lambda>k o'. og_ID o' = k) (ms_orgs m) \<and>
     all_map (\<lambda>k mem. memberKey (mb_OrganizationID mem) (mb_UserID mem) = k) (ms_memberships m) \<and>
     all_map (\<lambda>k i. iv_TokenHash i = k) (ms_invites m) \<and>
     all_map (\<lambda>k w. wf_ID w = k) (ms_workflows m) \<and>
     all_map (\<lambda>k r. wr_ID r = k) (ms_wfRuns m) \<and>
     all_map (\<lambda>k tr. tr_ID tr = k) (ms_transfers m)"

definition mem_inv :: "MemoryStore \<Rightarrow> bool" where
  "mem_inv m \<longleftrightarrow> mem_keys_ok m \<and> mem_rows_ok m \<and> length (ms_audit m) \<le> 10000"

lemmas mem_op_defs =
  CreateAccount_def UpdateAccountVersion_def SetEmailVerified_def UpdatePassword_def
  CreateRefreshToken_def MarkRefreshTokenUsed_def RevokeFamily_def CreateDevice_def
  UpdateDevice_def RevokeDevice_def CreateSession_def UpdateSession_def CreateAudit_def
  SetOnline_def CreateSecondFactor_def VerifySecondFactor_def DeleteSecondFactor_def
  CreateEmailToken_def DeleteEmailToken_def CreateOrganization_def CreateMembership_def
  UpdateMemberRole_def RemoveMembership_def CreateInvite_def AcceptInvite_def CreateWorkflow_def
  UpdateWorkflow_def CreateWorkflowRun_def UpdateWorkflowRun_def CreateTransferRecord_def
  UpdateTransferRecord_def

lemmas all_map_intros = all_map_put all_map_del all_map_adjust all_map_each

lemma mem_inv_New: "mem_inv NewMemoryStore"
  by (simp add: mem_inv_def mem_keys_ok_def mem_rows_ok_def NewMemoryStore_def)

lemma mem_exec_keys: "mem_keys_ok m \<Longrightarrow> mem_keys_ok (fst (mem_exec op m))"
  by (cases op) (simp_all add: mem_op_defs mem_keys_ok_def Let_def split: option.split)

lemma mem_exec_audit:
  "length (ms_audit m) \<le> 10000 \<Longrightarrow> length (ms_audit (fst (mem_exec op m))) \<le> 10000"
  by (cases op) (simp_all add: mem_op_defs Let_def append_capped_length split: option.split)

lemma mem_exec_rows: "mem_rows_ok m \<Longrightarrow> mem_rows_ok (fst (mem_exec op m))"
  unfolding mem_rows_ok_def
  by (cases op)
     (auto simp: mem_op_defs Let_def gomap_simps split: option.split intro!: all_map_intros,
      (erule all_map_mono, simp)+)

lemma mem_exec_inv: "mem_inv m \<Longrightarrow> mem_inv (fst (mem_exec op m))"
  by (simp add: mem_inv_def mem_exec_keys mem_exec_rows mem_exec_audit)

lemma mem_run_inv: "mem_inv m \<Longrightarrow> mem_inv (mem_run ops m)"
  unfolding mem_run_def by (induction ops arbitrary: m) (auto intro: mem_exec_inv)

section \<open>The contracts of the tables\<close>

lemmas mem_table_defs =
  CreateDevice_def GetDevice_def UpdateDevice_def CreateSession_def GetSession_def
  UpdateSession_def CreateOrganization_def GetOrganization_def CreateWorkflow_def
  GetWorkflow_def UpdateWorkflow_def CreateWorkflowRun_def GetWorkflowRun_def
  UpdateWorkflowRun_def

interpretation mem_devices: crud_table CreateDevice GetDevice sd_ID UpdateDevice
  by unfold_locales (auto simp: mem_table_defs gomap_simps split: option.splits if_splits)

interpretation mem_sessions: crud_table CreateSession GetSession ss_ID UpdateSession
  by unfold_locales (auto simp: mem_table_defs gomap_simps split: option.splits if_splits)

interpretation mem_workflows: crud_table CreateWorkflow GetWorkflow wf_ID UpdateWorkflow
  by unfold_locales (auto simp: mem_table_defs gomap_simps split: option.splits if_splits)

interpretation mem_runs: crud_table CreateWorkflowRun GetWorkflowRun wr_ID UpdateWorkflowRun
  by unfold_locales (auto simp: mem_table_defs gomap_simps split: option.splits if_splits)

interpretation mem_orgs: insert_table CreateOrganization GetOrganization og_ID
  by unfold_locales (auto simp: mem_table_defs gomap_simps split: option.splits if_splits)

interpretation mem_tokens: token_table CreateEmailToken GetEmailToken DeleteEmailToken
  by unfold_locales
     (auto simp: CreateEmailToken_def GetEmailToken_def DeleteEmailToken_def gomap_simps
       split: option.splits)

section \<open>Properties of the store\<close>

text \<open>C39: after any sequence of operations from an empty store, the tables are consistent: each
  record sits under the key it carries, a revoked refresh token is also used, the audit log keeps
  at most 10000 events, and every registered address leads to an account, so
  \<open>GetAccountByEmail\<close> never dereferences a nil account.\<close>

theorem memory_store_consistent:
  "mem_inv (mem_run ops NewMemoryStore) \<and>
   GetAccountByEmail (mem_run ops NewMemoryStore) email \<noteq> Inl NilDereference"
proof -
  have inv: "mem_inv (mem_run ops NewMemoryStore)"
    by (rule mem_run_inv[OF mem_inv_New])
  then have "all_map (\<lambda>e i. get (ms_accounts (mem_run ops NewMemoryStore)) i \<noteq> None)
      (ms_emails (mem_run ops NewMemoryStore))"
    by (simp add: mem_inv_def mem_rows_ok_def)
  note led = all_mapD[OF this]
  have "GetAccountByEmail (mem_run ops NewMemoryStore) email \<noteq> Inl NilDereference"
    using led[of email] by (auto simp: GetAccountByEmail_def split: option.splits)
  with inv show ?thesis by blast
qed

text \<open>\<open>CreateDevice\<close> refuses a taken identifier without changing anything, and after a
  successful creation any sequence of \<open>UpdateDevice\<close> calls on existing devices leaves each
  device as its last update wrote it.\<close>

theorem device_table_contract:
  assumes "snd (CreateDevice m d) = None"
    and "\<forall>v \<in> set vs. \<exists>w. GetDevice (fst (CreateDevice m d)) (sd_ID v) = Inr w"
  shows "CreateDevice (fst (CreateDevice m d)) d = (fst (CreateDevice m d), Some ErrConflict) \<and>
    GetDevice (fold (\<lambda>v s. fst (UpdateDevice s v)) vs (fst (CreateDevice m d))) (sd_ID d) =
      (case filter (\<lambda>v. sd_ID v = sd_ID d) vs of [] \<Rightarrow> Inr d | us \<Rightarrow> Inr (last us))"
  using mem_devices.create_twice[OF assms(1) refl] mem_devices.last_update_wins[OF assms(2)]
    mem_devices.create_find[OF assms(1)]
  by (simp split: list.split)

definition demo_store_device :: "string \<Rightarrow> string \<Rightarrow> StoreDevice" where
  "demo_store_device i nm =
     \<lparr>sd_ID = i, sd_Name = nm, sd_OwnerID = ''o'', sd_OrganizationID = None, sd_PublicKey = ''k'',
      sd_OS = ''Windows 11'', sd_LastSeen = 0, sd_RevokedAt = None, sd_Revoked = False,
      sd_Online = False, sd_Unattended = False, sd_CreatedAt = 0\<rparr>"

theorem device_table_contract_witness:
  "GetDevice
     (fold (\<lambda>v s. fst (UpdateDevice s v))
        [demo_store_device ''d1'' ''b'', demo_store_device ''d1'' ''c'']
        (fst (CreateDevice NewMemoryStore (demo_store_device ''d1'' ''a'')))) ''d1''
   = Inr (demo_store_device ''d1'' ''c'')"
  using device_table_contract[of NewMemoryStore "demo_store_device ''d1'' ''a''"
      "[demo_store_device ''d1'' ''b'', demo_store_device ''d1'' ''c'']"]
  by (simp add: demo_store_device_def mem_table_defs NewMemoryStore_def)

text \<open>Replacing a password replaces the stored hash, bumps the token version by one (so that
  tokens of the old version stop matching) and touches no other account; for an unknown user it
  fails and changes nothing.\<close>

theorem UpdatePassword_effect:
  "(case GetAccountByID m u of
      Inl _ \<Rightarrow> UpdatePassword m u h = (m, Some ErrNotFound)
    | Inr a \<Rightarrow> snd (UpdatePassword m u h) = None \<and>
        (\<forall>v. GetAccountByID (fst (UpdatePassword m u h)) v =
          (if v = u then Inr (a\<lparr>ac_PasswordHash := h, ac_TokenVersion := ac_TokenVersion a + 1\<rparr>)
           else GetAccountByID m v)))"
  by (auto simp: UpdatePassword_def GetAccountByID_def gomap_simps split: option.splits)

text \<open>\<open>RevokeFamily\<close> marks every refresh token of the family as used and revoked at the
  given instant and leaves every other token as it was.\<close>

theorem RevokeFamily_effect:
  "GetRefreshToken (fst (RevokeFamily now m f)) h =
    (case GetRefreshToken m h of
       Inl e \<Rightarrow> Inl e
     | Inr t \<Rightarrow> Inr (if rt_FamilyID t = f
                     then t\<lparr>rt_UsedAt := Some now, rt_RevokedAt := Some now\<rparr> else t))"
  by (simp add: RevokeFamily_def GetRefreshToken_def gomap_simps split: option.splits)

lemma audit_scan_filter:
  "int (length out) \<le> limit \<Longrightarrow>
   audit_scan a limit es out =
     out @ take (nat limit - length out) (filter (\<lambda>e. ae_ActorID e = a) es)"
proof (induction es arbitrary: out)
  case Nil
  then show ?case by simp
next
  case (Cons e es)
  show ?case
  proof (cases "int (length out) < limit")
    case True
    then obtain n where n: "nat limit - length out = Suc n"
      by (metis Suc_pred zero_less_diff zless_nat_eq_int_zless)
    then have n': "nat limit - Suc (length out) = n" by simp
    from True Cons.IH[of "out @ [e]"] Cons.IH[of out] n n' show ?thesis by simp
  next
    case False
    with Cons.prems show ?thesis by simp
  qed
qed

text \<open>\<open>ListAudit\<close> returns exactly the \<open>limit\<close> newest events of the actor, newest
  first; a limit of zero or below returns none.\<close>

theorem ListAudit_newest:
  "ListAudit m a limit = take (nat limit) (filter (\<lambda>e. ae_ActorID e = a) (rev (ms_audit m)))"
proof (cases "0 \<le> limit")
  case True
  then show ?thesis by (simp add: ListAudit_def audit_scan_filter)
next
  case False
  then show ?thesis by (cases "rev (ms_audit m)") (simp_all add: ListAudit_def)
qed

text \<open>Presence is a lease: a device set online at \<open>t\<close> for \<open>ttl\<close> is reported online at
  a later instant exactly before \<open>t + ttl\<close>, and no other device's presence changes.\<close>

theorem presence_lease:
  "IsOnline now (fst (SetOnline t m d ttl)) d' =
    (if d' = d then now < t + ttl else IsOnline now m d')"
  by (simp add: IsOnline_def SetOnline_def gomap_simps)

lemma memberKey_inj:
  assumes "CHR '':'' \<notin> set o1" and "CHR '':'' \<notin> set o2"
  shows "memberKey o1 u1 = memberKey o2 u2 \<longleftrightarrow> o1 = o2 \<and> u1 = u2"
proof
  assume eq: "memberKey o1 u1 = memberKey o2 u2"
  then have "split_at (CHR '':'') (o1 @ CHR '':'' # u1) = split_at (CHR '':'') (o2 @ CHR '':'' # u2)"
    by (simp add: memberKey_def)
  then have "o1 = o2"
    using assms by (simp add: split_at_append)
  with eq show "o1 = o2 \<and> u1 = u2" by (simp add: memberKey_def)
qed simp

text \<open>Memberships are keyed by the string \<open>org:user\<close>. For organisation identifiers without
  a colon (all that the server generates) the key is unambiguous: creating, re-roling or removing
  the membership of one pair never changes what \<open>GetMembership\<close> returns for another.\<close>

lemma membership_isolation:
  assumes "CHR '':'' \<notin> set o1" and "CHR '':'' \<notin> set o2" and "(o1, u1) \<noteq> (o2, u2)"
  shows "GetMembership (fst (CreateMembership m o1 u1 r ex)) o2 u2 = GetMembership m o2 u2 \<and>
    GetMembership (fst (UpdateMemberRole m o1 u1 r)) o2 u2 = GetMembership m o2 u2 \<and>
    GetMembership (fst (RemoveMembership m o1 u1)) o2 u2 = GetMembership m o2 u2"
  using assms memberKey_inj[of o1 o2 u1 u2]
  by (auto simp: GetMembership_def CreateMembership_def UpdateMemberRole_def RemoveMembership_def
      Let_def gomap_simps split: option.split)

end
