(* ===== verification/Store_Interface.thy ===== *)
theory Store_Interface
  imports Memory_Store Service_State
begin

text \<open>
  The \<open>Store\<close> interface of \<open>store.go\<close> as the handlers of \<open>internal/platform\<close> use it: a
  record with one field per method they call, the in-memory implementation \<open>memory_ops\<close>, and
  \<open>recordEvent\<close>, the one helper of \<open>service.go\<close> that writes to both audit logs. A field takes
  the store and returns the next store with the error, or the value read.
\<close>

section \<open>The interface\<close>

record 'st store_ops =
  so_CreateAudit :: "'st \<Rightarrow> AuditEvent \<Rightarrow> 'st \<times> store_error option"
  so_GetAccountByID :: "'st \<Rightarrow> string \<Rightarrow> store_error + Account"
  so_GetAccountByEmail :: "'st \<Rightarrow> string \<Rightarrow> store_error + Account"
  so_SetEmailVerified :: "'st \<Rightarrow> string \<Rightarrow> time \<Rightarrow> 'st \<times> store_error option"
  so_UpdatePassword :: "'st \<Rightarrow> string \<Rightarrow> string \<Rightarrow> 'st \<times> store_error option"
  so_CreateSecondFactor ::
    "'st \<Rightarrow> string \<Rightarrow> string \<Rightarrow> string \<Rightarrow> string \<Rightarrow> 'st \<times> store_error option"
  so_GetSecondFactor :: "'st \<Rightarrow> string \<Rightarrow> store_error + SecondFactor"
  so_VerifySecondFactor :: "'st \<Rightarrow> string \<Rightarrow> time \<Rightarrow> 'st \<times> store_error option"
  so_DeleteSecondFactor :: "'st \<Rightarrow> string \<Rightarrow> 'st \<times> store_error option"
  so_CreateEmailToken ::
    "'st \<Rightarrow> string \<Rightarrow> string \<Rightarrow> string \<Rightarrow> time \<Rightarrow> 'st \<times> store_error option"
  so_GetEmailToken :: "'st \<Rightarrow> string \<Rightarrow> store_error + EmailToken"
  so_DeleteEmailToken :: "'st \<Rightarrow> string \<Rightarrow> 'st \<times> store_error option"
  so_CreateOrganization :: "'st \<Rightarrow> Organization \<Rightarrow> 'st \<times> store_error option"
  so_CreateMembership ::
    "'st \<Rightarrow> string \<Rightarrow> string \<Rightarrow> string \<Rightarrow> time option \<Rightarrow> 'st \<times> store_error option"
  so_ListUserOrganizations :: "'st \<Rightarrow> string \<Rightarrow> store_error + Organization list"
  so_ListMembers :: "'st \<Rightarrow> string \<Rightarrow> store_error + Membership list"
  so_UpdateMemberRole :: "'st \<Rightarrow> string \<Rightarrow> string \<Rightarrow> string \<Rightarrow> 'st \<times> store_error option"
  so_RemoveMembership :: "'st \<Rightarrow> string \<Rightarrow> string \<Rightarrow> 'st \<times> store_error option"
  so_CreateInvite :: "'st \<Rightarrow> OrgInvite \<Rightarrow> 'st \<times> store_error option"
  so_CreateWorkflow :: "'st \<Rightarrow> Workflow \<Rightarrow> 'st \<times> store_error option"
  so_ListWorkflows :: "'st \<Rightarrow> string \<Rightarrow> store_error + Workflow list"
  so_CreateWorkflowRun :: "'st \<Rightarrow> WorkflowRun \<Rightarrow> 'st \<times> store_error option"
  so_GetWorkflowRun :: "'st \<Rightarrow> string \<Rightarrow> store_error + WorkflowRun"

definition memory_ops :: "MemoryStore store_ops" where
  "memory_ops =
     \<lparr>so_CreateAudit = CreateAudit, so_GetAccountByID = GetAccountByID,
      so_GetAccountByEmail = GetAccountByEmail, so_SetEmailVerified = SetEmailVerified,
      so_UpdatePassword = UpdatePassword, so_CreateSecondFactor = CreateSecondFactor,
      so_GetSecondFactor = GetSecondFactor, so_VerifySecondFactor = VerifySecondFactor,
      so_DeleteSecondFactor = DeleteSecondFactor, so_CreateEmailToken = CreateEmailToken,
      so_GetEmailToken = GetEmailToken, so_DeleteEmailToken = DeleteEmailToken,
      so_CreateOrganization = CreateOrganization, so_CreateMembership = CreateMembership,
      so_ListUserOrganizations = (\<lambda>m u. Inr (ListUserOrganizations m u)),
      so_ListMembers = (\<lambda>m g. Inr (ListMembers m g)), so_UpdateMemberRole = UpdateMemberRole,
      so_RemoveMembership = RemoveMembership, so_CreateInvite = CreateInvite,
      so_CreateWorkflow = CreateWorkflow, so_ListWorkflows = (\<lambda>m g. Inr (ListWorkflows m g)),
      so_CreateWorkflowRun = CreateWorkflowRun, so_GetWorkflowRun = GetWorkflowRun\<rparr>"

lemma memory_ops_simps [simp]:
  "so_CreateAudit memory_ops = CreateAudit"
  "so_GetAccountByID memory_ops = GetAccountByID"
  "so_GetAccountByEmail memory_ops = GetAccountByEmail"
  "so_SetEmailVerified memory_ops = SetEmailVerified"
  "so_UpdatePassword memory_ops = UpdatePassword"
  "so_CreateSecondFactor memory_ops = CreateSecondFactor"
  "so_GetSecondFactor memory_ops = GetSecondFactor"
  "so_VerifySecondFactor memory_ops = VerifySecondFactor"
  "so_DeleteSecondFactor memory_ops = DeleteSecondFactor"
  "so_CreateEmailToken memory_ops = CreateEmailToken"
  "so_GetEmailToken memory_ops = GetEmailToken"
  "so_DeleteEmailToken memory_ops = DeleteEmailToken"
  "so_CreateOrganization memory_ops = CreateOrganization"
  "so_CreateMembership memory_ops = CreateMembership"
  "so_ListUserOrganizations memory_ops m u = Inr (ListUserOrganizations m u)"
  "so_ListMembers memory_ops m g = Inr (ListMembers m g)"
  "so_UpdateMemberRole memory_ops = UpdateMemberRole"
  "so_RemoveMembership memory_ops = RemoveMembership"
  "so_CreateInvite memory_ops = CreateInvite"
  "so_CreateWorkflow memory_ops = CreateWorkflow"
  "so_ListWorkflows memory_ops m g = Inr (ListWorkflows m g)"
  "so_CreateWorkflowRun memory_ops = CreateWorkflowRun"
  "so_GetWorkflowRun memory_ops = GetWorkflowRun"
  by (simp_all add: memory_ops_def)

text \<open>\<open>New\<close>: the service on a fresh in-memory store.\<close>

definition New :: "string \<Rightarrow> MemoryStore service option" where
  "New key = NewWithStore key (Some NewMemoryStore)"

section \<open>Calling the store from a handler\<close>

text \<open>A call on a service without a store is a nil dereference, so is a store method that panics.
  \<open>if s.store != nil\<close> around an ignored error is \<open>store_try\<close>.\<close>

definition store_call ::
  "('st \<Rightarrow> 'st \<times> store_error option) \<Rightarrow>
   'st service \<Rightarrow> (store_error option \<Rightarrow> 'st service \<Rightarrow> 'st outcome) \<Rightarrow> 'st outcome" where
  "store_call op s k =
     (case sv_store s of
        None \<Rightarrow> (s, Panicked)
      | Some st \<Rightarrow>
          (case op st of (st', err) \<Rightarrow>
             let s' = s\<lparr>sv_store := Some st'\<rparr> in
             if err = Some NilDereference then (s', Panicked) else k err s'))"

definition store_read ::
  "('st \<Rightarrow> store_error + 'v) \<Rightarrow>
   'st service \<Rightarrow> (store_error + 'v \<Rightarrow> 'st service \<Rightarrow> 'st outcome) \<Rightarrow> 'st outcome" where
  "store_read op s k =
     (case sv_store s of
        None \<Rightarrow> (s, Panicked)
      | Some st \<Rightarrow>
          if op st = Inl NilDereference then (s, Panicked) else k (op st) s)"

definition store_try ::
  "('st \<Rightarrow> 'st \<times> store_error option) \<Rightarrow>
   'st service \<Rightarrow> ('st service \<Rightarrow> 'st outcome) \<Rightarrow> 'st outcome" where
  "store_try op s k =
     (if sv_store s = None then k s else store_call op s (\<lambda>_ s. k s))"

definition recordEvent ::
  "'st store_ops \<Rightarrow> env \<Rightarrow> time \<Rightarrow> string \<Rightarrow> string \<Rightarrow> string \<Rightarrow>
   'st service \<Rightarrow> ('st service \<Rightarrow> 'st outcome) \<Rightarrow> 'st outcome" where
  "recordEvent so e now actor action resource s k =
     (let s = record_audit e now actor action resource s in
      if sv_store s = None then k s
      else
        let (ident, s) = randomID e 12 s
        in store_try (\<lambda>st. so_CreateAudit so st
             \<lparr>ae_ID = ident, ae_ActorID = actor, ae_OrganizationID = None, ae_Action = action,
              ae_ResourceID = resource, ae_Metadata = [], ae_OccurredAt = now\<rparr>) s k)"

end
