(* ===== verification/Email_Handlers.thy ===== *)
theory Email_Handlers
  imports Store_Interface Auth_Handlers
begin

text \<open>
  \<open>internal/platform/email.go\<close>: e-mail verification by a six-digit code, password reset by a
  random token, the password codec of the store and the mailer. The handlers keep their tokens in
  the store only, hashed.
\<close>

section \<open>Codes, digests, the password codec\<close>

definition digestStr :: "env \<Rightarrow> string \<Rightarrow> string" where
  "digestStr e s = hex_encode (sha256 e s)"

text \<open>\<open>%06d\<close> of a natural number.\<close>

definition pad6 :: "nat \<Rightarrow> string" where
  "pad6 n = (let ds = nat_digits n in replicate (6 - length ds) (CHR ''0'') @ ds)"

text \<open>The code computed from the first three of four random bytes.\<close>

definition email_code :: "string \<Rightarrow> string" where
  "email_code b =
     pad6 ((of_char (b ! 0) * 65536 + of_char (b ! 1) * 256 + of_char (b ! 2)) mod 1000000)"

definition encodePassword :: "password \<Rightarrow> string" where
  "encodePassword p = pw_Salt p @ pw_Hash p"

definition decodePassword :: "string \<Rightarrow> password option" where
  "decodePassword b =
     (if length b < 48 then None
      else Some \<lparr>pw_Salt = take 16 b, pw_Hash = drop 16 (take 48 b)\<rparr>)"

section \<open>The mailer\<close>

record SMTPMailer =
  sm_Host :: string
  sm_Port :: string
  sm_User :: string
  sm_Pass :: string
  sm_From :: string

definition crlf :: string where "crlf = [CHR 0x0D, CHR 0x0A]"

text \<open>\<open>import_smtp_mail\<close> discards all its arguments: the messages put on the wire, and no
  error.\<close>

definition smtpSendMail :: "string \<Rightarrow> string list \<Rightarrow> string \<Rightarrow> string list \<times> string option" where
  "smtpSendMail addr to msg = ([], None)"

definition mail_text :: "SMTPMailer \<Rightarrow> string \<Rightarrow> string \<Rightarrow> string \<Rightarrow> string" where
  "mail_text m to subject body =
     ''From: '' @ sm_From m @ crlf @ ''To: '' @ to @ crlf @ ''Subject: '' @ subject @ crlf @
     ''Content-Type: text/plain; charset=UTF-8'' @ crlf @ crlf @ body @ crlf"

definition Send :: "SMTPMailer \<Rightarrow> string \<Rightarrow> string \<Rightarrow> string \<Rightarrow> string list \<times> string option" where
  "Send m to subject body =
     (if sm_Host m = [] then ([], None)
      else smtpSendMail (sm_Host m @ '':'' @ sm_Port m) [to] (mail_text m to subject body))"

section \<open>E-mail verification\<close>

definition sendVerifyEmail ::
  "'st store_ops \<Rightarrow> env \<Rightarrow> time \<Rightarrow> string \<Rightarrow> 'st service \<Rightarrow> 'st outcome" where
  "sendVerifyEmail so e now userID s =
     (let (b, s) = random_read e 4 s;
          tokenHash = digestStr e (email_code b);
          expires = now + 15 * minute
      in store_call (\<lambda>st. so_CreateEmailToken so st tokenHash userID ''verify'' expires) s
        (\<lambda>err s. if err \<noteq> None then fail s 500 ''failed to create verification token''
           else store_read (\<lambda>st. so_GetAccountByID so st userID) s
             (\<lambda>r s. case r of
                Inl _ \<Rightarrow> fail s 500 ''account not found''
              | Inr a \<Rightarrow> (s, Reply 200 (JMessage ''verification code sent'' (Some 900))))))"

definition confirmVerifyEmail ::
  "'st store_ops \<Rightarrow> env \<Rightarrow> time \<Rightarrow> string json_body \<Rightarrow> string \<Rightarrow>
   'st service \<Rightarrow> 'st outcome" where
  "confirmVerifyEmail so e now b userID s =
     (case decode b of Inl rep \<Rightarrow> (s, rep)
      | Inr raw \<Rightarrow>
      let code = TrimSpace raw in
      if length code = 0 then fail s 400 ''code is required''
      else
        let tokenHash = digestStr e code in
        store_read (\<lambda>st. so_GetEmailToken so st tokenHash) s
          (\<lambda>r s. case r of
             Inl _ \<Rightarrow> fail s 400 ''invalid or expired code''
           | Inr et \<Rightarrow>
               if et_UserID et \<noteq> userID \<or> et_Kind et \<noteq> ''verify''
               then fail s 400 ''invalid or expired code''
               else if \<not> now < et_ExpiresAt et
               then store_call (\<lambda>st. so_DeleteEmailToken so st tokenHash) s
                      (\<lambda>_ s. fail s 400 ''code has expired'')
               else store_call (\<lambda>st. so_SetEmailVerified so st userID now) s
                      (\<lambda>err s. if err \<noteq> None then fail s 500 ''failed to mark email as verified''
                         else store_call (\<lambda>st. so_DeleteEmailToken so st tokenHash) s
                           (\<lambda>_ s. recordEvent so e now userID ''email.verified'' userID s
                              (\<lambda>s. (s, Reply 200 JOk))))))"

section \<open>Password reset\<close>

definition reset_reply :: json_out where
  "reset_reply = JMessage ''if the account exists, a reset link has been sent'' None"

definition requestPasswordReset ::
  "'st store_ops \<Rightarrow> env \<Rightarrow> time \<Rightarrow> string json_body \<Rightarrow> 'st service \<Rightarrow> 'st outcome" where
  "requestPasswordReset so e now b s =
     (case decode b of Inl rep \<Rightarrow> (s, rep)
      | Inr raw \<Rightarrow>
      let email = ToLower (unicode_lower e) (TrimSpace raw) in
      if parse_address e email = None then (s, Reply 200 reset_reply)
      else
        let (rawToken, s) = randomID e 32 s;
            tokenHash = digestStr e rawToken;
            expires = now + 30 * minute
        in store_read (\<lambda>st. so_GetAccountByEmail so st email) s
             (\<lambda>r s. case r of
                Inl _ \<Rightarrow> (s, Reply 200 reset_reply)
              | Inr a \<Rightarrow>
                  store_call (\<lambda>st. so_CreateEmailToken so st tokenHash (ac_ID a) ''reset'' expires) s
                    (\<lambda>_ s. (s, Reply 200 reset_reply))))"

record reset_request =
  pr_Token :: string
  pr_NewPassword :: string

definition confirmPasswordReset ::
  "'st store_ops \<Rightarrow> env \<Rightarrow> time \<Rightarrow> reset_request json_body \<Rightarrow>
   'st service \<Rightarrow> 'st outcome" where
  "confirmPasswordReset so e now b s =
     (case decode b of Inl rep \<Rightarrow> (s, rep)
      | Inr q \<Rightarrow>
      if length (pr_NewPassword q) < 12 \<or> length (pr_NewPassword q) > 256
      then fail s 400 (''password must be 12'' @ en_dash @ ''256 bytes'')
      else
        let tokenHash = digestStr e (pr_Token q) in
        store_read (\<lambda>st. so_GetEmailToken so st tokenHash) s
          (\<lambda>r s. case r of
             Inl _ \<Rightarrow> fail s 400 ''invalid or expired reset token''
           | Inr et \<Rightarrow>
               if et_Kind et \<noteq> ''reset'' \<or> \<not> now < et_ExpiresAt et
               then store_call (\<lambda>st. so_DeleteEmailToken so st tokenHash) s
                      (\<lambda>_ s. fail s 400 ''invalid or expired reset token'')
               else
                 let (newHash, s) = hashPassword e (pr_NewPassword q) s
                 in store_call
                      (\<lambda>st. so_UpdatePassword so st (et_UserID et) (encodePassword newHash)) s
                      (\<lambda>err s. if err \<noteq> None then fail s 500 ''failed to update password''
                         else store_call (\<lambda>st. so_DeleteEmailToken so st tokenHash) s
                           (\<lambda>_ s. recordEvent so e now (et_UserID et)
                              ''account.password_reset'' (et_UserID et) s
                              (\<lambda>s. (s, Reply 200 JOk))))))"

end
