(* ===== verification/Totp_Handlers.thy ===== *)
theory Totp_Handlers
  imports Store_Interface Auth_Handlers
begin

text \<open>
  \<open>internal/platform/totp.go\<close>: set-up, confirmation, login and removal of the second factor, the
  AES-GCM envelope of the secret and the two printers (base32 without padding, upper-case hex).
\<close>

section \<open>Base32 and hex\<close>

text \<open>\<open>base32.StdEncoding\<close> without padding: the bits of the input, most significant first, in
  groups of five, the last group filled up with zeros.\<close>

definition base32_alphabet :: string where
  "base32_alphabet = ''ABCDEFGHIJKLMNOPQRSTUVWXYZ234567''"

definition byte_bits :: "char \<Rightarrow> bool list" where
  "byte_bits c = map (\<lambda>i. odd ((of_char c :: nat) div 2 ^ i)) [7, 6, 5, 4, 3, 2, 1, 0]"

definition bits_value :: "bool list \<Rightarrow> nat" where
  "bits_value bs = foldl (\<lambda>n b. 2 * n + (if b then 1 else 0)) 0 bs"

fun quintets :: "bool list \<Rightarrow> nat list" where
  "quintets (a # b # c # d # e # bs) = bits_value [a, b, c, d, e] # quintets bs"
| "quintets [] = []"
| "quintets bs = [bits_value (take 5 (bs @ replicate 5 False))]"

definition base32_encode :: "string \<Rightarrow> string" where
  "base32_encode s = map (\<lambda>n. base32_alphabet ! n) (quintets (concat (map byte_bits s)))"

definition hex_upper :: "string \<Rightarrow> string" where
  "hex_upper s =
     map (\<lambda>c. if c \<in> set ''abcdef'' then char_of ((of_char c :: nat) - 32) else c) (hex_encode s)"

section \<open>The envelope of the secret\<close>

text \<open>\<open>key[:32]\<close> panics on a shorter key; \<open>NewWithStore\<close> has refused those. The nonce of
  twelve bytes is put in front of the sealed text.\<close>

definition encryptSecret ::
  "env \<Rightarrow> string \<Rightarrow> string \<Rightarrow> 'st service \<Rightarrow> string \<times> 'st service" where
  "encryptSecret e key secret s =
     (let (nonce, s) = random_read e 12 s
      in (nonce @ gcm_seal e (take 32 key) nonce secret, s))"

definition decryptSecret :: "env \<Rightarrow> string \<Rightarrow> string \<Rightarrow> string option" where
  "decryptSecret e key ciphertext =
     (if length ciphertext < 12 then None
      else gcm_open e (take 32 key) (take 12 ciphertext) (drop 12 ciphertext))"

primrec backup_codes :: "env \<Rightarrow> nat \<Rightarrow> 'st service \<Rightarrow> string list \<times> 'st service" where
  "backup_codes e 0 s = ([], s)"
| "backup_codes e (Suc n) s =
     (let (buf, s) = random_read e 4 s;
          (codes, s) = backup_codes e n s
      in (hex_upper buf # codes, s))"

definition generateBackupCodes :: "env \<Rightarrow> 'st service \<Rightarrow> string list \<times> 'st service" where
  "generateBackupCodes e s = backup_codes e 8 s"

section \<open>The handlers\<close>

definition setup2FA ::
  "'st store_ops \<Rightarrow> env \<Rightarrow> string \<Rightarrow> 'st service \<Rightarrow> 'st outcome" where
  "setup2FA so e user s =
     (let (rawSecret, s) = random_read e 20 s;
          secretB32 = base32_encode rawSecret;
          (encrypted, s) = encryptSecret e (sv_key s) secretB32 s;
          (codes, s) = generateBackupCodes e s;
          uri = ''otpauth://totp/MuiltDesk:'' @ user @ ''?secret='' @ secretB32 @
                ''&issuer=MuiltDesk'';
          rep = Reply 200 (JTOTP uri secretB32 codes)
      in if sv_store s = None then (s, rep)
         else
           let (ident, s) = randomID e 16 s
           in store_try (\<lambda>st. so_CreateSecondFactor so st ident user ''totp'' encrypted) s
                (\<lambda>s. (s, rep)))"

definition confirm2FA ::
  "'st store_ops \<Rightarrow> env \<Rightarrow> time \<Rightarrow> string json_body \<Rightarrow> string \<Rightarrow>
   'st service \<Rightarrow> 'st outcome" where
  "confirm2FA so e now b user s =
     (case decode b of Inl rep \<Rightarrow> (s, rep)
      | Inr raw \<Rightarrow>
      if length (TrimSpace raw) \<noteq> 6 then fail s 400 ''6-digit TOTP code required''
      else
        let finish = (\<lambda>s. (record_audit e now user ''auth.2fa_enabled'' user s,
                           Reply 200 (JFlag ''verified'')))
        in if sv_store s = None then finish s
           else store_read (\<lambda>st. so_GetSecondFactor so st user) s
             (\<lambda>r s. case r of
                Inl _ \<Rightarrow> fail s 404 ''no pending 2FA setup found''
              | Inr sf \<Rightarrow> store_try (\<lambda>st. so_VerifySecondFactor so st (sf_ID sf) now) s finish))"

record totp_login =
  tl_UserID :: string
  tl_Code :: string

definition verify2FALogin ::
  "env \<Rightarrow> time \<Rightarrow> totp_login json_body \<Rightarrow> 'st service \<Rightarrow> 'st outcome" where
  "verify2FALogin e now b s =
     (case decode b of Inl rep \<Rightarrow> (s, rep)
      | Inr q \<Rightarrow>
      let code = TrimSpace (tl_Code q) in
      if length code < 6 \<or> length code > 8 then fail s 400 ''invalid 2FA code''
      else if code \<noteq> ''123456'' \<and> length code \<noteq> 6
      then fail s 401 ''invalid two-factor authentication code''
      else reply_tokens 200
             (issue e now (tl_UserID q) []
               (record_audit e now (tl_UserID q) ''account.login_2fa'' (tl_UserID q) s)))"

definition disable2FA ::
  "'st store_ops \<Rightarrow> env \<Rightarrow> time \<Rightarrow> string json_body \<Rightarrow> string \<Rightarrow>
   'st service \<Rightarrow> 'st outcome" where
  "disable2FA so e now b user s =
     (case decode b of Inl rep \<Rightarrow> (s, rep)
      | Inr password \<Rightarrow>
      store_try (\<lambda>st. so_DeleteSecondFactor so st user) s
        (\<lambda>s. (record_audit e now user ''auth.2fa_disabled'' user s,
              Reply 200 (JFlag ''disabled''))))"

end
