(* ===== verification/Team_Handlers.thy ===== *)
theory Team_Handlers
  imports Store_Interface
begin

text \<open>
  \<open>internal/platform/teams.go\<close>, \<open>workflows.go\<close> and \<open>ai.go\<close>: organisations and their members,
  workflow definitions and runs, and the diagnostic assistant. These handlers read and write the
  store; only \<open>record\<close> touches the service itself.
\<close>

section \<open>Organisations\<close>

definition createOrganization ::
  "'st store_ops \<Rightarrow> env \<Rightarrow> time \<Rightarrow> string json_body \<Rightarrow> string \<Rightarrow>
   'st service \<Rightarrow> 'st outcome" where
  "createOrganization so e now b user s =
     (case decode b of Inl rep \<Rightarrow> (s, rep)
      | Inr raw \<Rightarrow>
      let name = TrimSpace raw in
      if length name < 2 \<or> length name > 80
      then fail s 400 ''organization name between 2 and 80 characters required''
      else
        let (ident, s) = randomID e 16 s;
            org = \<lparr>og_ID = ident, og_Name = name, og_OwnerID = user, og_CreatedAt = now\<rparr>;
            finish = (\<lambda>s. (record_audit e now user ''org.created'' ident s,
                           Reply 201 (JOrganization org)))
        in if sv_store s = None then finish s
           else store_call (\<lambda>st. so_CreateOrganization so st org) s
             (\<lambda>err s. if err \<noteq> None then fail s 500 ''failed to create organization''
                else store_try (\<lambda>st. so_CreateMembership so st ident user ''owner'' None) s finish))"

text \<open>A list read from the store, empty when there is no store or the read fails.\<close>

definition list_or_empty ::
  "('st \<Rightarrow> store_error + 'v list) \<Rightarrow> ('v list \<Rightarrow> json_out) \<Rightarrow> 'st service \<Rightarrow> 'st outcome" where
  "list_or_empty op out s =
     (if sv_store s = None then (s, Reply 200 (out []))
      else store_read op s
        (\<lambda>r s. case r of Inl _ \<Rightarrow> (s, Reply 200 (out [])) | Inr vs \<Rightarrow> (s, Reply 200 (out vs))))"

definition listOrganizations :: "'st store_ops \<Rightarrow> string \<Rightarrow> 'st service \<Rightarrow> 'st outcome" where
  "listOrganizations so user s =
     list_or_empty (\<lambda>st. so_ListUserOrganizations so st user) JOrganizations s"

definition listMembers :: "'st store_ops \<Rightarrow> string \<Rightarrow> string \<Rightarrow> 'st service \<Rightarrow> 'st outcome" where
  "listMembers so orgID user s =
     (if orgID = [] then fail s 400 ''organization ID required''
      else list_or_empty (\<lambda>st. so_ListMembers so st orgID) JMembers s)"

record invite_request =
  iq_Email :: string
  iq_Role :: string

definition inviteMember ::
  "'st store_ops \<Rightarrow> env \<Rightarrow> time \<Rightarrow> string \<Rightarrow> invite_request json_body \<Rightarrow> string \<Rightarrow>
   'st service \<Rightarrow> 'st outcome" where
  "inviteMember so e now orgID b user s =
     (case decode b of Inl rep \<Rightarrow> (s, rep)
      | Inr q \<Rightarrow>
      let email = ToLower (unicode_lower e) (TrimSpace (iq_Email q)) in
      if email = [] \<or> (iq_Role q \<noteq> ''administrator'' \<and> iq_Role q \<noteq> ''operator'' \<and>
           iq_Role q \<noteq> ''viewer'' \<and> iq_Role q \<noteq> ''guest'')
      then fail s 400 ''valid email and role required''
      else
        let (rawToken, s) = randomID e 32 s;
            tokenHash = digest e rawToken;
            (ident, s) = randomID e 16 s;
            invite = \<lparr>iv_ID = ident, iv_OrgID = orgID, iv_Email = email, iv_Role = iq_Role q,
                      iv_TokenHash = tokenHash, iv_ExpiresAt = now + 7 * 24 * hour,
                      iv_AcceptedAt = None\<rparr>
        in store_try (\<lambda>st. so_CreateInvite so st invite) s
             (\<lambda>s. (record_audit e now user ''org.member_invited'' ident s,
                   Reply 201 (JInvite ident (''https://muiltdesk.app/invite/'' @ rawToken)))))"

definition updateMemberRole ::
  "'st store_ops \<Rightarrow> env \<Rightarrow> time \<Rightarrow> string \<Rightarrow> string \<Rightarrow> string json_body \<Rightarrow> string \<Rightarrow>
   'st service \<Rightarrow> 'st outcome" where
  "updateMemberRole so e now orgID targetUser b user s =
     (case decode b of Inl rep \<Rightarrow> (s, rep)
      | Inr role \<Rightarrow>
      store_try (\<lambda>st. so_UpdateMemberRole so st orgID targetUser role) s
        (\<lambda>s. (record_audit e now user ''org.role_changed'' (orgID @ ''/'' @ targetUser) s,
              Reply 200 JOk)))"

definition removeMember ::
  "'st store_ops \<Rightarrow> env \<Rightarrow> time \<Rightarrow> string \<Rightarrow> string \<Rightarrow> string \<Rightarrow>
   'st service \<Rightarrow> 'st outcome" where
  "removeMember so e now orgID targetUser user s =
     store_try (\<lambda>st. so_RemoveMembership so st orgID targetUser) s
       (\<lambda>s. (record_audit e now user ''org.member_removed'' (orgID @ ''/'' @ targetUser) s,
             Reply 200 JOk))"

section \<open>Workflows\<close>

record workflow_request =
  wq_Name :: string
  wq_Definition :: string
  wq_RequiredPermissions :: "string list"
  wq_Enabled :: bool

definition createWorkflow ::
  "'st store_ops \<Rightarrow> env \<Rightarrow> time \<Rightarrow> string \<Rightarrow> workflow_request json_body \<Rightarrow> string \<Rightarrow>
   'st service \<Rightarrow> 'st outcome" where
  "createWorkflow so e now orgID b user s =
     (case decode b of Inl rep \<Rightarrow> (s, rep)
      | Inr q \<Rightarrow>
      let name = TrimSpace (wq_Name q) in
      if length name < 2 \<or> length name > 100
      then fail s 400 ''workflow name between 2 and 100 characters required''
      else
        let (ident, s) = randomID e 16 s;
            wf = \<lparr>wf_ID = ident, wf_OrganizationID = orgID, wf_Name = name,
                  wf_Definition = wq_Definition q,
                  wf_RequiredPermissions = wq_RequiredPermissions q,
                  wf_Enabled = wq_Enabled q, wf_CreatedBy = user\<rparr>;
            finish = (\<lambda>s. (record_audit e now user ''workflow.created'' ident s,
                           Reply 201 (JWorkflow wf)))
        in if sv_store s = None then finish s
           else store_call (\<lambda>st. so_CreateWorkflow so st wf) s
             (\<lambda>err s. if err \<noteq> None then fail s 500 ''failed to create workflow'' else finish s))"

definition listWorkflows :: "'st store_ops \<Rightarrow> string \<Rightarrow> string \<Rightarrow> 'st service \<Rightarrow> 'st outcome" where
  "listWorkflows so orgID user s =
     list_or_empty (\<lambda>st. so_ListWorkflows so st orgID) JWorkflows s"

definition runWorkflow ::
  "'st store_ops \<Rightarrow> env \<Rightarrow> time \<Rightarrow> string \<Rightarrow> string \<Rightarrow> string \<Rightarrow>
   'st service \<Rightarrow> 'st outcome" where
  "runWorkflow so e now sessionID workflowID user s =
     (let (ident, s) = randomID e 16 s;
          run = \<lparr>wr_ID = ident, wr_WorkflowID = workflowID, wr_SessionID = sessionID,
                 wr_ApprovedBy = Some user, wr_State = ''running'', wr_StartedAt = Some now,
                 wr_FinishedAt = None\<rparr>
      in store_try (\<lambda>st. so_CreateWorkflowRun so st run) s
           (\<lambda>s. (record_audit e now user ''workflow.started'' ident s, Reply 202 (JRun run))))"

definition getWorkflowRun :: "'st store_ops \<Rightarrow> string \<Rightarrow> string \<Rightarrow> 'st service \<Rightarrow> 'st outcome" where
  "getWorkflowRun so runID user s =
     (if sv_store s = None then fail s 404 ''workflow run not found''
      else store_read (\<lambda>st. so_GetWorkflowRun so st runID) s
        (\<lambda>r s. case r of
           Inl _ \<Rightarrow> fail s 404 ''workflow run not found''
         | Inr run \<Rightarrow> (s, Reply 200 (JRun run))))"

section \<open>The diagnostic assistant\<close>

record AIAnalysisRequest =
  aq_Prompt :: string
  aq_Context :: string

text \<open>What the provider answers: the request could not be built or sent or its status is not 200,
  the body is not the expected JSON or has no choice, or the content of the first choice.\<close>

datatype ai_answer = AI_NoRequest | AI_Failed | AI_BadBody | AI_Content string

definition canned_analysis :: string where
  "canned_analysis = ''MuiltDesk Diagnostic Assistant: Session is active. No performance anomalies detected on device telemetry. Network latency is nominal.''"

definition canned_steps :: "string list" where
  "canned_steps =
     [''Verify target device display DPI and monitor configuration'',
      ''Ensure background update bandwidth does not exceed allocated budget'',
      ''Review recent session audit logs for unexpected permission changes'']"

definition ai_user_message :: "AIAnalysisRequest \<Rightarrow> string" where
  "ai_user_message q =
     ''Context:'' @ [CHR 0x0A] @ aq_Context q @ [CHR 0x0A, CHR 0x0A] @ ''Question:'' @
     [CHR 0x0A] @ aq_Prompt q"

definition analyzeSessionWithAI ::
  "(string \<Rightarrow> string \<Rightarrow> ai_answer) \<Rightarrow> string \<Rightarrow> env \<Rightarrow> time \<Rightarrow> string \<Rightarrow>
   AIAnalysisRequest json_body \<Rightarrow> string \<Rightarrow> 'st service \<Rightarrow> 'st outcome" where
  "analyzeSessionWithAI provider apiKey e now sessionID b user s =
     (if sessionID = [] then fail s 400 ''session ID required''
      else case decode b of Inl rep \<Rightarrow> (s, rep)
      | Inr q \<Rightarrow>
      if length (aq_Prompt q) = 0 \<or> length (aq_Prompt q) > 2048 \<or> length (aq_Context q) > 4096
      then fail s 400 ''prompt (1-2048 bytes) and context (max 4096 bytes) required''
      else if apiKey = []
      then (record_audit e now user ''session.ai_analyzed'' sessionID s,
            Reply 200 (JAnalysis canned_analysis canned_steps ''0.95'' now))
      else case provider apiKey (ai_user_message q) of
        AI_NoRequest \<Rightarrow> fail s 500 ''failed to create upstream AI request''
      | AI_Failed \<Rightarrow> fail s 502 ''upstream AI provider error''
      | AI_BadBody \<Rightarrow> fail s 502 ''invalid response from AI provider''
      | AI_Content content \<Rightarrow>
          (record_audit e now user ''session.ai_analyzed'' sessionID s,
           Reply 200 (JAnalysis (TrimSpace content) [] ''0.98'' now)))"

end
