(* ===== verification/Signalling.thy ===== *)
theory Signalling
  imports Service_State
begin

text \<open>
  The signalling endpoint of \<open>service.go\<close>: \<open>signalling\<close> registers a websocket under a device
  identifier, a writer drains the bounded channel of the connection, and a reader relays frames to
  the connection of the target device. One definition per event of a connection: \<open>sig_connect\<close>,
  \<open>sig_frame\<close>, \<open>sig_drain\<close>, \<open>sig_close\<close>. The keep-alive pings and the write time-outs end a
  connection, which is \<open>sig_close\<close>.
\<close>

section \<open>Connecting\<close>

definition norm_id :: "string \<Rightarrow> string" where
  "norm_id x = strip_spaces (TrimSpace x)"

definition channel_size :: nat where "channel_size = 1024"

datatype connect_result = ConnectFailed nat string | NotUpgraded | Connected string nat

text \<open>\<open>accepted\<close> is the outcome of the websocket handshake. The new peer gets an unused address;
  a replaced peer is closed.\<close>

definition sig_connect ::
  "http_request \<Rightarrow> bool \<Rightarrow> 'st service \<Rightarrow> 'st service \<times> connect_result" where
  "sig_connect r accepted s =
     (let ident = (if header_of r ''X-Device-ID'' = [] then rq_DeviceQuery r
                   else header_of r ''X-Device-ID'')
      in if ident = [] then (s, ConnectFailed 400 ''X-Device-ID required'')
         else if \<not> accepted then (s, NotUpgraded)
         else
           let normID = norm_id ident;
               p = length (sv_conns s);
               s = (case get (sv_peers s) normID of
                      None \<Rightarrow> s
                    | Some old \<Rightarrow> s\<lparr>sv_closing := sv_closing s @ [old]\<rparr>)
           in (s\<lparr>sv_conns := put (sv_conns s) p
                   \<lparr>p_socket = True, p_send = [], p_cap = channel_size\<rparr>,
                 sv_peers := put (sv_peers s) normID p\<rparr>,
               Connected normID p))"

text \<open>The deferred clean-up: only the connection that is still registered unregisters.\<close>

definition sig_close :: "string \<Rightarrow> nat \<Rightarrow> 'st service \<Rightarrow> 'st service" where
  "sig_close normID p s =
     (if get (sv_peers s) normID = Some p
      then s\<lparr>sv_peers := del (sv_peers s) normID\<rparr> else s)"

text \<open>The writer takes the oldest message of the channel.\<close>

definition sig_drain :: "nat \<Rightarrow> 'st service \<Rightarrow> 'st service \<times> message option" where
  "sig_drain p s =
     (case get (sv_conns s) p of
        None \<Rightarrow> (s, None)
      | Some c \<Rightarrow>
          (case p_send c of
             [] \<Rightarrow> (s, None)
           | msg # msgs \<Rightarrow>
               (s\<lparr>sv_conns := adjust p (\<lambda>c. c\<lparr>p_send := msgs\<rparr>) (sv_conns s)\<rparr>, Some msg)))"

section \<open>Relaying frames\<close>

text \<open>A frame as the reader decodes it; the payload is \<open>None\<close> when it does not decode.\<close>

record payload_ids =
  pi_TargetID :: string
  pi_SessionTarget :: string
  pi_SessionSource :: string

record sig_msg =
  sg_Type :: string
  sg_TargetID :: string
  sg_Payload :: "payload_ids option"

datatype frame = NotText | BadFrame | Frame sig_msg string

definition frame_target :: "string \<Rightarrow> sig_msg \<Rightarrow> string" where
  "frame_target normID m =
     (if sg_TargetID m \<noteq> [] then sg_TargetID m
      else case sg_Payload m of
        None \<Rightarrow> []
      | Some pl \<Rightarrow>
          if pi_TargetID pl \<noteq> [] then pi_TargetID pl
          else if pi_SessionTarget pl \<noteq> []
          then if strip_spaces (pi_SessionTarget pl) = normID then pi_SessionSource pl
               else pi_SessionTarget pl
          else [])"

text \<open>One turn of the read loop: the next state and whether the heartbeat is echoed.\<close>

definition sig_frame ::
  "string \<Rightarrow> nat \<Rightarrow> frame \<Rightarrow> 'st service \<Rightarrow> 'st service \<times> bool" where
  "sig_frame normID p f s =
     (case f of
        NotText \<Rightarrow> (s, False)
      | BadFrame \<Rightarrow> (s, False)
      | Frame m raw \<Rightarrow>
          if sg_Type m = ''heartbeat'' then (s, True)
          else
            let target = frame_target normID m;
                normTarget = norm_id target
            in if normTarget = [] then (s, False)
               else case get (sv_peers s) normTarget of
                 Some q \<Rightarrow> (fst (send_to q (Relayed raw) s), False)
               | None \<Rightarrow>
                   if sg_Type m = ''session.requested''
                   then (fst (send_to p (OfflineNotice target) s), False)
                   else (s, False))"

section \<open>The heap of connections\<close>

text \<open>Every registered connection exists, every channel is within its size, addresses are dense.\<close>

type_synonym conn_heap = "(nat, peer) gomap"

definition conn_inv :: "(string, nat) gomap \<Rightarrow> conn_heap \<Rightarrow> bool" where
  "conn_inv ps cs \<longleftrightarrow>
     wf_map ps \<and> wf_map cs \<and> all_map (\<lambda>i p. get cs p \<noteq> None) ps \<and>
     all_map (\<lambda>p c. p < length cs \<and> p_socket c \<and> p_cap c = channel_size \<and>
        length (p_send c) \<le> channel_size) cs"

text \<open>What any operation other than draining does to the heap: it appends to channels.\<close>

definition pushed :: "peer \<Rightarrow> peer \<Rightarrow> bool" where
  "pushed c c' \<longleftrightarrow>
     p_socket c' = p_socket c \<and> p_cap c' = p_cap c \<and>
     (\<exists>msgs. p_send c' = p_send c @ msgs \<and> (msgs \<noteq> [] \<longrightarrow> length (p_send c') \<le> p_cap c))"

definition pushes :: "conn_heap \<Rightarrow> conn_heap \<Rightarrow> bool" where
  "pushes cs cs' \<longleftrightarrow> list_all2 (\<lambda>e e'. fst e' = fst e \<and> pushed (snd e) (snd e')) cs cs'"

lemma pushed_refl [simp]: "pushed c c"
  by (simp add: pushed_def)

lemma pushed_trans: "pushed a b \<Longrightarrow> pushed b c \<Longrightarrow> pushed a c"
  unfolding pushed_def by (auto simp: append_assoc)

lemma pushes_refl [simp]: "pushes cs cs"
  by (simp add: pushes_def list.rel_refl)

lemma pushes_trans: "pushes a b \<Longrightarrow> pushes b c \<Longrightarrow> pushes a c"
  unfolding pushes_def by (erule (1) list_all2_trans[rotated]) (auto intro: pushed_trans)

lemma pushes_keys: "pushes cs cs' \<Longrightarrow> map fst cs' = map fst cs"
  unfolding pushes_def by (induction rule: list_all2_induct) auto

lemma pushes_get: "pushes cs cs' \<Longrightarrow> rel_option pushed (get cs k) (get cs' k)"
  unfolding pushes_def by (induction rule: list_all2_induct) auto

lemma pushes_adjust:
  assumes "wf_map cs" and "\<And>c. get cs k = Some c \<Longrightarrow> pushed c (f c)"
  shows "pushes cs (adjust k f cs)"
proof -
  have "pushed c (if x = k then f c else c)" if "(x, c) \<in> set cs" for x c
    using that assms by (auto simp: wf_map_get)
  then show ?thesis
    unfolding pushes_def adjust_def by (induction cs) auto
qed

lemma pushes_inv:
  assumes "pushes cs cs'" and "conn_inv ps cs"
  shows "conn_inv ps cs'"
proof -
  have len: "length cs' = length cs" using pushes_keys[OF assms(1)] by (metis length_map)
  have wf: "wf_map cs'" using assms by (simp add: conn_inv_def wf_map_def pushes_keys)
  have "get cs' p \<noteq> None" if "get cs p \<noteq> None" for p
    using pushes_get[OF assms(1), of p] that by (cases "get cs p") (auto simp: option_rel_Some1)
  then have "all_map (\<lambda>i p. get cs' p \<noteq> None) ps"
    using assms(2) by (auto simp: conn_inv_def elim!: all_map_mono)
  moreover have "all_map (\<lambda>p c. p < length cs' \<and> p_socket c \<and> p_cap c = channel_size \<and>
      length (p_send c) \<le> channel_size) cs'"
  proof (rule all_mapI)
    fix p c' assume "(p, c') \<in> set cs'"
    with wf have "get cs' p = Some c'" by (simp add: wf_map_get)
    with pushes_get[OF assms(1), of p] obtain c where c: "get cs p = Some c" "pushed c c'"
      by (auto simp: option_rel_Some2)
    moreover have "p < length cs \<and> p_socket c \<and> p_cap c = channel_size \<and>
        length (p_send c) \<le> channel_size"
      using assms(2) c(1) by (auto simp: conn_inv_def dest: all_mapD)
    ultimately show "p < length cs' \<and> p_socket c' \<and> p_cap c' = channel_size \<and>
        length (p_send c') \<le> channel_size"
      by (auto simp: pushed_def len)
  qed
  ultimately show ?thesis using assms(2) wf by (simp add: conn_inv_def)
qed

lemma send_to_pushes:
  assumes "wf_map (sv_conns s)"
  shows "pushes (sv_conns s) (sv_conns (fst (send_to p msg s)))"
proof (cases "get (sv_conns s) p")
  case (Some c)
  have "pushes (sv_conns s) (adjust p (\<lambda>c. c\<lparr>p_send := p_send c @ [msg]\<rparr>) (sv_conns s))"
    if "length (p_send c) < p_cap c"
    using that Some by (intro pushes_adjust[OF assms]) (auto simp: pushed_def)
  with Some show ?thesis by (simp add: send_to_def)
qed (simp add: send_to_def)

lemma notify_pushes:
  "wf_map (sv_conns s) \<Longrightarrow> pushes (sv_conns s) (sv_conns (notify d kd v s))"
  using send_to_pushes[of s]
  by (auto simp: notify_def Let_def split_def split: option.split)

lemma pushes_wf: "pushes cs cs' \<Longrightarrow> wf_map cs \<Longrightarrow> wf_map cs'"
  by (simp add: wf_map_def pushes_keys)

lemma notify_both_pushes:
  assumes "wf_map (sv_conns s)"
  shows "pushes (sv_conns s) (sv_conns (notify_both v s))"
  unfolding notify_both_def
  using notify_pushes[OF assms] by (meson assms notify_pushes pushes_trans pushes_wf)

lemma record_audit_conns [simp, frame]:
  "sv_conns (record_audit e now u a r s) = sv_conns s"
  by (simp add: record_audit_def randomID_def random_read_def)

lemma end_session_pushes:
  "wf_map (sv_conns s) \<Longrightarrow> pushes (sv_conns s) (sv_conns (end_session e now k st actor s))"
  using notify_both_pushes[of "s\<lparr>sv_sessions := _\<rparr>"]
  by (auto simp: end_session_def Let_def split: option.split)

lemma fold_pushes:
  assumes "\<And>k s. wf_map (sv_conns s) \<Longrightarrow> pushes (sv_conns s) (sv_conns (g k s))"
    and "wf_map (sv_conns s)"
  shows "pushes (sv_conns s) (sv_conns (fold g ks s))"
  using assms(2)
proof (induction ks arbitrary: s)
  case (Cons k ks)
  from assms(1)[OF Cons.prems, of k] Cons.prems have "wf_map (sv_conns (g k s))"
    by (rule pushes_wf)
  from Cons.IH[OF this] assms(1)[OF Cons.prems, of k] show ?case
    by (auto intro: pushes_trans)
qed simp

lemma end_where_pushes:
  "wf_map (sv_conns s) \<Longrightarrow> pushes (sv_conns s) (sv_conns (end_where e now P st actor s))"
  unfolding end_where_def
  by (rule fold_pushes) (auto intro: end_session_pushes split: option.split)

lemma expire_pushes:
  "wf_map (sv_conns s) \<Longrightarrow> pushes (sv_conns s) (sv_conns (expire e now s))"
  by (simp add: expire_def Let_def end_where_pushes)

section \<open>The events keep the heap\<close>

lemma sig_connect_inv:
  assumes "conn_inv (sv_peers s) (sv_conns s)"
  shows "conn_inv (sv_peers (fst (sig_connect r accepted s)))
    (sv_conns (fst (sig_connect r accepted s)))"
proof -
  let ?cs = "sv_conns s" and ?ps = "sv_peers s"
  let ?c = "\<lparr>p_socket = True, p_send = [], p_cap = channel_size\<rparr>"
  have new: "get ?cs (length ?cs) = None"
    using assms by (force simp: conn_inv_def dest: all_mapD)
  have "conn_inv (put ?ps i (length ?cs)) (put ?cs (length ?cs) ?c)" for i
    unfolding conn_inv_def
  proof (intro conjI)
    show "wf_map (put ?ps i (length ?cs))" "wf_map (put ?cs (length ?cs) ?c)"
      using assms by (simp_all add: conn_inv_def)
    show "all_map (\<lambda>i p. get (put ?cs (length ?cs) ?c) p \<noteq> None) (put ?ps i (length ?cs))"
      by (rule all_map_put)
        (use assms in \<open>auto simp: conn_inv_def get_put elim!: all_map_mono\<close>)
    have "length (put ?cs (length ?cs) ?c) = Suc (length ?cs)"
      using put_new[OF new] by simp
    then show "all_map (\<lambda>p c. p < length (put ?cs (length ?cs) ?c) \<and> p_socket c \<and>
        p_cap c = channel_size \<and> length (p_send c) \<le> channel_size) (put ?cs (length ?cs) ?c)"
      by (intro all_map_put) (use assms in \<open>auto simp: conn_inv_def elim!: all_map_mono\<close>)
  qed
  then show ?thesis
    using assms by (auto simp: sig_connect_def Let_def split: option.split)
qed

lemma sig_close_inv:
  "conn_inv (sv_peers s) (sv_conns s) \<Longrightarrow>
   conn_inv (sv_peers (sig_close i p s)) (sv_conns (sig_close i p s))"
  by (auto simp: sig_close_def conn_inv_def intro: all_map_del)

lemma sig_drain_inv:
  assumes "conn_inv (sv_peers s) (sv_conns s)"
  shows "conn_inv (sv_peers (fst (sig_drain p s))) (sv_conns (fst (sig_drain p s)))"
proof (cases "get (sv_conns s) p")
  case (Some c)
  show ?thesis
  proof (cases "p_send c")
    case (Cons msg msgs)
    have wf: "wf_map (sv_conns s)" using assms by (simp add: conn_inv_def)
    have "x = c" if "(p, x) \<in> set (sv_conns s)" for x
      using that Some wf by (simp add: wf_map_get[symmetric])
    moreover have "length msgs \<le> channel_size"
      using assms Some Cons by (auto simp: conn_inv_def dest!: all_mapD)
    ultimately have "all_map (\<lambda>q c. q < length (sv_conns s) \<and> p_socket c \<and>
        p_cap c = channel_size \<and> length (p_send c) \<le> channel_size)
        (adjust p (\<lambda>c. c\<lparr>p_send := msgs\<rparr>) (sv_conns s))"
      using assms by (intro all_map_adjust) (auto simp: conn_inv_def)
    moreover have "length (adjust p f (sv_conns s)) = length (sv_conns s)" for f
      by (simp add: adjust_def)
    moreover have "all_map (\<lambda>i q. get (adjust p f (sv_conns s)) q \<noteq> None) (sv_peers s)" for f
      using assms by (auto simp: conn_inv_def get_adjust elim!: all_map_mono)
    ultimately show ?thesis
      using assms Some Cons by (simp add: sig_drain_def conn_inv_def)
  qed (use assms Some in \<open>simp add: sig_drain_def\<close>)
qed (use assms in \<open>simp add: sig_drain_def\<close>)

lemma sig_frame_pushes:
  "wf_map (sv_conns s) \<Longrightarrow> pushes (sv_conns s) (sv_conns (fst (sig_frame i p f s)))"
  using send_to_pushes[of s]
  by (auto simp: sig_frame_def Let_def split: frame.split option.split)

lemma sig_frame_peers: "sv_peers (fst (sig_frame i p f s)) = sv_peers s"
  by (auto simp: sig_frame_def Let_def split: frame.split option.split)

lemma sig_frame_inv:
  assumes "conn_inv (sv_peers s) (sv_conns s)"
  shows "conn_inv (sv_peers (fst (sig_frame i p f s))) (sv_conns (fst (sig_frame i p f s)))"
proof -
  have "wf_map (sv_conns s)" using assms by (simp add: conn_inv_def)
  from pushes_inv[OF sig_frame_pushes[OF this] assms] show ?thesis by (simp add: sig_frame_peers)
qed

end
