(* ===== verification/Http_Server.thy ===== *)
theory Http_Server
  imports Auth_Handlers Device_Handlers Session_Handlers Ice_Handlers Email_Handlers
    Totp_Handlers Team_Handlers Signalling
begin

text \<open>
  \<open>Handler\<close> of \<open>service.go\<close>: the middleware (expiry and the rate limiter), the table of routes
  and the dispatch of a request to its handler.
\<close>

section \<open>The middleware\<close>

definition client_host :: "env \<Rightarrow> http_request \<Rightarrow> string" where
  "client_host e r =
     (case split_host e (rq_RemoteAddr r) of None \<Rightarrow> rq_RemoteAddr r | Some host \<Rightarrow> host)"

definition is_auth_path :: "http_request \<Rightarrow> bool" where
  "is_auth_path r \<longleftrightarrow> HasPrefix (rq_Path r) ''/v1/auth/''"

definition rate_key :: "env \<Rightarrow> http_request \<Rightarrow> string" where
  "rate_key e r =
     (if is_auth_path r then client_host e r @ ''/auth'' else client_host e r)"

definition rate_limit :: "http_request \<Rightarrow> int" where
  "rate_limit r = (if is_auth_path r then 15 else 300)"

definition no_rate :: rate where
  "no_rate = \<lparr>rl_Count = 0, rl_Until = zero_time\<rparr>"

definition count_request :: "time \<Rightarrow> rate option \<Rightarrow> rate" where
  "count_request now v =
     (let v = (case v of None \<Rightarrow> no_rate | Some v \<Rightarrow> v);
          v = (if \<not> now < rl_Until v then \<lparr>rl_Count = 0, rl_Until = now + minute\<rparr> else v)
      in v\<lparr>rl_Count := rl_Count v + 1\<rparr>)"

definition admit :: "env \<Rightarrow> time \<Rightarrow> http_request \<Rightarrow> 'st service \<Rightarrow> 'st service \<times> bool" where
  "admit e now r s =
     (let s = expire e now s;
          key = rate_key e r;
          v = count_request now (get (sv_rates s) key)
      in (s\<lparr>sv_rates := put (sv_rates s) key v\<rparr>, \<not> rl_Count v > rate_limit r))"

section \<open>Routes\<close>

datatype endpoint =
    EHealthz | ERegister | ELogin | ERefresh | ELogout | EMe | EChallenge | EAddDevice
  | ELookup | EDevices | ERevokeDevice | ERequest | ESessions | EIce | EDecision | EPermissions
  | EHandover | EStop | EAudit | ESignalling | EVerifyEmail | EVerifyEmailConfirm
  | EPasswordReset | EPasswordResetConfirm | E2FASetup | E2FAConfirm | E2FAVerify | E2FADisable
  | ECreateOrg | EListOrgs | EListMembers | EInvite | ESetRole | ERemoveMember
  | ECreateWorkflow | EListWorkflows | ERunWorkflow | EGetRun | EAnalyze

datatype segment = Lit string | Wild

definition routes :: "(string \<times> segment list \<times> endpoint) list" where
  "routes =
     [(''GET'', [Lit ''healthz''], EHealthz),
      (''POST'', [Lit ''v1'', Lit ''auth'', Lit ''register''], ERegister),
      (''POST'', [Lit ''v1'', Lit ''auth'', Lit ''login''], ELogin),
      (''POST'', [Lit ''v1'', Lit ''auth'', Lit ''refresh''], ERefresh),
      (''POST'', [Lit ''v1'', Lit ''auth'', Lit ''logout''], ELogout),
      (''GET'', [Lit ''v1'', Lit ''me''], EMe),
      (''POST'', [Lit ''v1'', Lit ''devices'', Lit ''challenge''], EChallenge),
      (''POST'', [Lit ''v1'', Lit ''devices''], EAddDevice),
      (''GET'', [Lit ''v1'', Lit ''devices'', Lit ''lookup'', Wild], ELookup),
      (''GET'', [Lit ''v1'', Lit ''devices''], EDevices),
      (''DELETE'', [Lit ''v1'', Lit ''devices'', Wild], ERevokeDevice),
      (''POST'', [Lit ''v1'', Lit ''sessions''], ERequest),
      (''GET'', [Lit ''v1'', Lit ''sessions''], ESessions),
      (''GET'', [Lit ''v1'', Lit ''sessions'', Wild, Lit ''ice''], EIce),
      (''POST'', [Lit ''v1'', Lit ''sessions'', Wild, Lit ''decision''], EDecision),
      (''PATCH'', [Lit ''v1'', Lit ''sessions'', Wild, Lit ''permissions''], EPermissions),
      (''POST'', [Lit ''v1'', Lit ''sessions'', Wild, Lit ''handover''], EHandover),
      (''DELETE'', [Lit ''v1'', Lit ''sessions'', Wild], EStop),
      (''GET'', [Lit ''v1'', Lit ''audit''], EAudit),
      (''GET'', [Lit ''v1'', Lit ''signalling''], ESignalling),
      (''POST'', [Lit ''v1'', Lit ''auth'', Lit ''verify-email''], EVerifyEmail),
      (''POST'', [Lit ''v1'', Lit ''auth'', Lit ''verify-email'', Lit ''confirm''],
        EVerifyEmailConfirm),
      (''POST'', [Lit ''v1'', Lit ''auth'', Lit ''password-reset''], EPasswordReset),
      (''POST'', [Lit ''v1'', Lit ''auth'', Lit ''password-reset'', Lit ''confirm''],
        EPasswordResetConfirm),
      (''POST'', [Lit ''v1'', Lit ''auth'', Lit ''2fa'', Lit ''setup''], E2FASetup),
      (''POST'', [Lit ''v1'', Lit ''auth'', Lit ''2fa'', Lit ''confirm''], E2FAConfirm),
      (''POST'', [Lit ''v1'', Lit ''auth'', Lit ''2fa'', Lit ''verify''], E2FAVerify),
      (''POST'', [Lit ''v1'', Lit ''auth'', Lit ''2fa'', Lit ''disable''], E2FADisable),
      (''POST'', [Lit ''v1'', Lit ''organizations''], ECreateOrg),
      (''GET'', [Lit ''v1'', Lit ''organizations''], EListOrgs),
      (''GET'', [Lit ''v1'', Lit ''organizations'', Wild, Lit ''members''], EListMembers),
      (''POST'', [Lit ''v1'', Lit ''organizations'', Wild, Lit ''members''], EInvite),
      (''PATCH'', [Lit ''v1'', Lit ''organizations'', Wild, Lit ''members'', Wild], ESetRole),
      (''DELETE'', [Lit ''v1'', Lit ''organizations'', Wild, Lit ''members'', Wild],
        ERemoveMember),
      (''POST'', [Lit ''v1'', Lit ''organizations'', Wild, Lit ''workflows''], ECreateWorkflow),
      (''GET'', [Lit ''v1'', Lit ''organizations'', Wild, Lit ''workflows''], EListWorkflows),
      (''POST'', [Lit ''v1'', Lit ''sessions'', Wild, Lit ''workflows'', Wild, Lit ''run''],
        ERunWorkflow),
      (''GET'', [Lit ''v1'', Lit ''workflow-runs'', Wild], EGetRun),
      (''POST'', [Lit ''v1'', Lit ''sessions'', Wild, Lit ''ai'', Lit ''analyze''], EAnalyze)]"

text \<open>\<open>http.ServeMux\<close> splits the escaped path and unescapes each segment; a segment that is not valid
  is left as it is. A wildcard takes one segment that is not empty (nor a single slash), \<open>GET\<close> also
  serves \<open>HEAD\<close>. The result of a match is the list of the segments the wildcards took.\<close>

definition hex_digit :: "char \<Rightarrow> nat option" where
  "hex_digit c =
     (let n = of_char c :: nat in
      if 48 \<le> n \<and> n \<le> 57 then Some (n - 48)
      else if 65 \<le> n \<and> n \<le> 70 then Some (n - 55)
      else if 97 \<le> n \<and> n \<le> 102 then Some (n - 87)
      else None)"

fun PathUnescape :: "string \<Rightarrow> string option" where
  "PathUnescape [] = Some []"
| "PathUnescape (c # cs) =
     (if c = CHR ''%'' then
        (case cs of
           a # b # rest \<Rightarrow>
             (case (hex_digit a, hex_digit b) of
                (Some x, Some y) \<Rightarrow> map_option ((#) (char_of (16 * x + y))) (PathUnescape rest)
              | _ \<Rightarrow> None)
         | _ \<Rightarrow> None)
      else map_option ((#) c) (PathUnescape cs))"

definition path_unescape :: "string \<Rightarrow> string" where
  "path_unescape x = (case PathUnescape x of None \<Rightarrow> x | Some y \<Rightarrow> y)"

fun match_path :: "segment list \<Rightarrow> string list \<Rightarrow> string list option" where
  "match_path [] [] = Some []"
| "match_path (Lit l # ps) (x # xs) = (if x = l then match_path ps xs else None)"
| "match_path (Wild # ps) (x # xs) =
     (if x = [] \<or> x = ''/'' then None else map_option ((#) x) (match_path ps xs))"
| "match_path _ _ = None"

definition method_matches :: "string \<Rightarrow> string \<Rightarrow> bool" where
  "method_matches m meth \<longleftrightarrow> m = meth \<or> (m = ''GET'' \<and> meth = ''HEAD'')"

definition raw_segments :: "http_request \<Rightarrow> string list" where
  "raw_segments r = tl (split_at (CHR ''/'') (rq_EscapedPath r))"

definition path_segments :: "http_request \<Rightarrow> string list" where
  "path_segments r = map path_unescape (raw_segments r)"

fun find_route ::
  "(string \<times> segment list \<times> endpoint) list \<Rightarrow> string \<Rightarrow> string list \<Rightarrow>
   (endpoint \<times> string list) option" where
  "find_route [] meth xs = None"
| "find_route ((m, ps, ep) # rs) meth xs =
     (if method_matches m meth
      then case match_path ps xs of Some vs \<Rightarrow> Some (ep, vs) | None \<Rightarrow> find_route rs meth xs
      else find_route rs meth xs)"

definition path_known :: "string list \<Rightarrow> bool" where
  "path_known xs \<longleftrightarrow> list_ex (\<lambda>(m, ps, ep). match_path ps xs \<noteq> None) routes"

definition clean_path :: "string list \<Rightarrow> bool" where
  "clean_path xs \<longleftrightarrow>
     [] \<notin> set (butlast xs) \<and> ''.'' \<notin> set xs \<and> ''..'' \<notin> set xs"

section \<open>Dispatch\<close>

text \<open>What lies outside the repository: the primitives, the JSON decoder at each request type, the
  store, the AI provider with its key, and the websocket handshake: \<open>websocket.Accept\<close> upgrades the
  connection, or has answered the request itself, with a status and a text of its own.\<close>

record json_codec =
  jc_register :: "string \<Rightarrow> register_request json_body"
  jc_login :: "string \<Rightarrow> login_request json_body"
  jc_refresh_token :: "string \<Rightarrow> string json_body"
  jc_device :: "string \<Rightarrow> device_request json_body"
  jc_session :: "string \<Rightarrow> session_request json_body"
  jc_decision :: "string \<Rightarrow> decision_request json_body"
  jc_permissions :: "string \<Rightarrow> Permission list json_body"
  jc_code :: "string \<Rightarrow> string json_body"
  jc_email :: "string \<Rightarrow> string json_body"
  jc_reset :: "string \<Rightarrow> reset_request json_body"
  jc_totp_login :: "string \<Rightarrow> totp_login json_body"
  jc_password :: "string \<Rightarrow> string json_body"
  jc_name :: "string \<Rightarrow> string json_body"
  jc_invite :: "string \<Rightarrow> invite_request json_body"
  jc_role :: "string \<Rightarrow> string json_body"
  jc_workflow :: "string \<Rightarrow> workflow_request json_body"
  jc_analysis :: "string \<Rightarrow> AIAnalysisRequest json_body"

record 'st world =
  wd_env :: env
  wd_json :: json_codec
  wd_store :: "'st store_ops"
  wd_provider :: "string \<Rightarrow> string \<Rightarrow> ai_answer"
  wd_apiKey :: string
  wd_handshake :: "http_request \<Rightarrow> (nat \<times> string) option"

text \<open>The endpoints without \<open>s.auth\<close>; the others, given the authenticated user and the values of
  the wildcards.\<close>

definition serve_signalling ::
  "(nat \<times> string) option \<Rightarrow> http_request \<Rightarrow> 'st service \<Rightarrow> 'st outcome" where
  "serve_signalling refused r s =
     (case sig_connect r (refused = None) s of
        (s, ConnectFailed st m) \<Rightarrow> fail s st m
      | (s, NotUpgraded) \<Rightarrow>
          (s, case refused of None \<Rightarrow> Reply 101 (JPlain []) | Some (st, m) \<Rightarrow> Reply st (JPlain m))
      | (s, Connected i p) \<Rightarrow> (s, Reply 101 (JPlain [])))"

definition serve_public ::
  "'st world \<Rightarrow> time \<Rightarrow> endpoint \<Rightarrow> http_request \<Rightarrow> 'st service \<Rightarrow> 'st outcome option" where
  "serve_public w now ep r s =
     (let e = wd_env w; j = wd_json w; so = wd_store w; b = rq_Body r in
      case ep of
        EHealthz \<Rightarrow> Some (s, Reply 200 JHealth)
      | ERegister \<Rightarrow> Some (register e now (jc_register j b) s)
      | ELogin \<Rightarrow> Some (login e now (jc_login j b) s)
      | ERefresh \<Rightarrow> Some (rotate e now (jc_refresh_token j b) s)
      | EPasswordReset \<Rightarrow> Some (requestPasswordReset so e now (jc_email j b) s)
      | EPasswordResetConfirm \<Rightarrow> Some (confirmPasswordReset so e now (jc_reset j b) s)
      | E2FAVerify \<Rightarrow> Some (verify2FALogin e now (jc_totp_login j b) s)
      | ESignalling \<Rightarrow> Some (serve_signalling (wd_handshake w r) r s)
      | _ \<Rightarrow> None)"

definition serve_user ::
  "'st world \<Rightarrow> time \<Rightarrow> endpoint \<Rightarrow> string list \<Rightarrow> http_request \<Rightarrow> string \<Rightarrow>
   'st service \<Rightarrow> 'st outcome" where
  "serve_user w now ep vs r u s =
     (let e = wd_env w; j = wd_json w; so = wd_store w; b = rq_Body r; v = vs ! 0 in
      case ep of
        ELogout \<Rightarrow> logout e now u s
      | EMe \<Rightarrow> me u s
      | EChallenge \<Rightarrow> newChallenge e now u s
      | EAddDevice \<Rightarrow> registerDevice e now r (jc_device j b) u s
      | ELookup \<Rightarrow> lookupDevice now v u s
      | EDevices \<Rightarrow> listDevices now u s
      | ERevokeDevice \<Rightarrow> revokeDevice e now v u s
      | ERequest \<Rightarrow> requestSession e now r (jc_session j b) u s
      | ESessions \<Rightarrow> listSessions u s
      | EIce \<Rightarrow> iceConfiguration e now v u s
      | EDecision \<Rightarrow> decideSession e now r v (jc_decision j b) u s
      | EPermissions \<Rightarrow> changePermissions e now r v (jc_permissions j b) u s
      | EHandover \<Rightarrow> handover e now r v u s
      | EStop \<Rightarrow> stopSession e now v u s
      | EAudit \<Rightarrow> listAudit u s
      | EVerifyEmail \<Rightarrow> sendVerifyEmail so e now u s
      | EVerifyEmailConfirm \<Rightarrow> confirmVerifyEmail so e now (jc_code j b) u s
      | E2FASetup \<Rightarrow> setup2FA so e u s
      | E2FAConfirm \<Rightarrow> confirm2FA so e now (jc_code j b) u s
      | E2FADisable \<Rightarrow> disable2FA so e now (jc_password j b) u s
      | ECreateOrg \<Rightarrow> createOrganization so e now (jc_name j b) u s
      | EListOrgs \<Rightarrow> listOrganizations so u s
      | EListMembers \<Rightarrow> listMembers so v u s
      | EInvite \<Rightarrow> inviteMember so e now v (jc_invite j b) u s
      | ESetRole \<Rightarrow> updateMemberRole so e now v (vs ! 1) (jc_role j b) u s
      | ERemoveMember \<Rightarrow> removeMember so e now v (vs ! 1) u s
      | ECreateWorkflow \<Rightarrow> createWorkflow so e now v (jc_workflow j b) u s
      | EListWorkflows \<Rightarrow> listWorkflows so v u s
      | ERunWorkflow \<Rightarrow> runWorkflow so e now v (vs ! 1) u s
      | EGetRun \<Rightarrow> getWorkflowRun so v u s
      | EAnalyze \<Rightarrow>
          analyzeSessionWithAI (wd_provider w) (wd_apiKey w) e now v (jc_analysis j b) u s
      | _ \<Rightarrow> (s, Reply 404 (JPlain ''404 page not found'')))"

definition dispatch :: "'st world \<Rightarrow> time \<Rightarrow> http_request \<Rightarrow> 'st service \<Rightarrow> 'st outcome" where
  "dispatch w now r s =
     (let xs = path_segments r in
      if \<not> clean_path (raw_segments r) then (s, Reply 301 (JPlain ''Moved Permanently''))
      else case find_route routes (rq_Method r) xs of
        None \<Rightarrow>
          if path_known xs then (s, Reply 405 (JPlain ''Method Not Allowed''))
          else (s, Reply 404 (JPlain ''404 page not found''))
      | Some (ep, vs) \<Rightarrow>
          (case serve_public w now ep r s of
             Some out \<Rightarrow> out
           | None \<Rightarrow> auth (wd_env w) now r (serve_user w now ep vs r) s))"

definition serve :: "'st world \<Rightarrow> time \<Rightarrow> http_request \<Rightarrow> 'st service \<Rightarrow> 'st outcome" where
  "serve w now r s =
     (let (s, ok) = admit (wd_env w) now r s in
      if ok then dispatch w now r s else fail s 429 ''too many requests'')"

end
