(* ===== verification/Service_Inv.thy ===== *)
theory Service_Inv
  imports Device_Safety Account_Safety Http_Server
begin

text \<open>
  The invariant of the whole service and the proof that every endpoint keeps it, whatever the
  request: the tables of accounts, tokens, devices and sessions, the link between the last two, the
  heap of connections and the bounds of the audit log and of the authentication slots. The random
  identifiers an endpoint draws are assumed unused (\<open>fresh_draws\<close>).
\<close>

section \<open>Handlers that leave the service alone\<close>

text \<open>Only the store, the audit log, the random source and the challenges differ.\<close>

definition quiet :: "'st service \<Rightarrow> 'st service \<Rightarrow> bool" where
  "quiet s s' \<longleftrightarrow>
     sv_accounts s' = sv_accounts s \<and> sv_emails s' = sv_emails s \<and>
     sv_refresh s' = sv_refresh s \<and> sv_devices s' = sv_devices s \<and>
     sv_sessions s' = sv_sessions s \<and> sv_peers s' = sv_peers s \<and> sv_conns s' = sv_conns s \<and>
     sv_authSlots s' = sv_authSlots s \<and> sv_key s' = sv_key s \<and> sv_rates s' = sv_rates s \<and>
     (length (sv_audit s) \<le> 10000 \<longrightarrow> length (sv_audit s') \<le> 10000)"

lemma quiet_refl [simp]: "quiet s s"
  by (simp add: quiet_def)

lemma quiet_record_audit: "quiet s s1 \<Longrightarrow> quiet s (record_audit e now u a r s1)"
  by (simp add: quiet_def record_audit_audit append_capped_length)

lemma quiet_random_read: "quiet s s1 \<Longrightarrow> quiet s (snd (random_read e n s1))"
  by (simp add: quiet_def)

lemma quiet_randomID: "quiet s s1 \<Longrightarrow> quiet s (snd (randomID e n s1))"
  by (simp add: quiet_def)

lemma quiet_hashPassword: "quiet s s1 \<Longrightarrow> quiet s (snd (hashPassword e raw s1))"
  by (simp add: quiet_def)

lemma quiet_fail: "quiet s s1 \<Longrightarrow> quiet s (fst (fail s1 st m))"
  by (simp add: fail_def)

lemma quiet_store [simp]: "quiet s (s1\<lparr>sv_store := x\<rparr>) = quiet s s1"
  by (simp add: quiet_def)

lemma quiet_challenges [simp]: "quiet s (s1\<lparr>sv_challenges := x\<rparr>) = quiet s s1"
  by (simp add: quiet_def)

lemma quiet_store_call:
  "quiet s s1 \<Longrightarrow> (\<And>err s2. quiet s s2 \<Longrightarrow> quiet s (fst (k err s2))) \<Longrightarrow>
   quiet s (fst (store_call op s1 k))"
  by (auto simp: store_call_def Let_def split: option.split prod.split)

lemma quiet_store_read:
  "quiet s s1 \<Longrightarrow> (\<And>r s2. quiet s s2 \<Longrightarrow> quiet s (fst (k r s2))) \<Longrightarrow>
   quiet s (fst (store_read op s1 k))"
  by (auto simp: store_read_def split: option.split)

lemma quiet_store_try:
  "quiet s s1 \<Longrightarrow> (\<And>s2. quiet s s2 \<Longrightarrow> quiet s (fst (k s2))) \<Longrightarrow>
   quiet s (fst (store_try op s1 k))"
  by (auto simp: store_try_def intro: quiet_store_call)

lemma quiet_recordEvent:
  "quiet s s1 \<Longrightarrow> (\<And>s2. quiet s s2 \<Longrightarrow> quiet s (fst (k s2))) \<Longrightarrow>
   quiet s (fst (recordEvent so e now u a r s1 k))"
  by (auto simp: recordEvent_def Let_def split_def intro!: quiet_store_try quiet_randomID
      quiet_record_audit)

lemma quiet_decode:
  "quiet s s1 \<Longrightarrow> (\<And>q. quiet s (fst (F q))) \<Longrightarrow>
   quiet s (fst (case decode b of Inl rep \<Rightarrow> (s1, rep) | Inr q \<Rightarrow> F q))"
  by (simp split: sum.split)

lemma quiet_device_proof:
  "quiet s s1 \<Longrightarrow> quiet s (fst (device_proof e now r u k s1))"
  by (simp add: quiet_def)

lemma quiet_sum:
  "(\<And>x. quiet s (fst (f x))) \<Longrightarrow> (\<And>y. quiet s (fst (g y))) \<Longrightarrow>
   quiet s (fst (case r of Inl x \<Rightarrow> f x | Inr y \<Rightarrow> g y))"
  by (simp split: sum.split)

lemma quiet_if:
  "(c \<Longrightarrow> quiet s (fst x)) \<Longrightarrow> (\<not> c \<Longrightarrow> quiet s (fst y)) \<Longrightarrow> quiet s (fst (if c then x else y))"
  by simp

lemma quiet_pair: "quiet s s1 \<Longrightarrow> quiet s (fst (s1, rep))"
  by simp

lemmas quiet_intros =
  quiet_refl quiet_pair quiet_sum quiet_if quiet_record_audit quiet_random_read quiet_randomID
  quiet_hashPassword quiet_fail quiet_store_call quiet_store_read quiet_store_try
  quiet_recordEvent quiet_decode quiet_device_proof

lemma sendVerifyEmail_quiet: "quiet s (fst (sendVerifyEmail so e now u s))"
  unfolding sendVerifyEmail_def Let_def split_def by (intro quiet_intros) assumption+

lemma confirmVerifyEmail_quiet: "quiet s (fst (confirmVerifyEmail so e now b u s))"
  unfolding confirmVerifyEmail_def Let_def by (intro quiet_intros) assumption+

lemma requestPasswordReset_quiet: "quiet s (fst (requestPasswordReset so e now b s))"
  unfolding requestPasswordReset_def Let_def split_def by (intro quiet_intros) assumption+

lemma confirmPasswordReset_quiet: "quiet s (fst (confirmPasswordReset so e now b s))"
  unfolding confirmPasswordReset_def Let_def split_def by (intro quiet_intros) assumption+

lemma backup_codes_quiet: "quiet s s1 \<Longrightarrow> quiet s (snd (backup_codes e n s1))"
  by (induction n arbitrary: s1) (simp_all add: Let_def split_def quiet_random_read)

lemma setup2FA_quiet: "quiet s (fst (setup2FA so e u s))"
  unfolding setup2FA_def encryptSecret_def generateBackupCodes_def Let_def split_def
  by simp (intro conjI impI quiet_intros backup_codes_quiet; assumption)

lemma confirm2FA_quiet: "quiet s (fst (confirm2FA so e now b u s))"
  unfolding confirm2FA_def Let_def by (intro quiet_intros) assumption+

lemma disable2FA_quiet: "quiet s (fst (disable2FA so e now b u s))"
  unfolding disable2FA_def by (intro quiet_intros) assumption+

lemma createOrganization_quiet: "quiet s (fst (createOrganization so e now b u s))"
  unfolding createOrganization_def Let_def split_def by (intro quiet_intros) assumption+

lemma list_or_empty_quiet: "quiet s (fst (list_or_empty op out s))"
  unfolding list_or_empty_def by (intro quiet_intros) assumption+

lemma listMembers_quiet: "quiet s (fst (listMembers so g u s))"
  unfolding listMembers_def by (intro quiet_intros list_or_empty_quiet)

lemma inviteMember_quiet: "quiet s (fst (inviteMember so e now g b u s))"
  unfolding inviteMember_def Let_def split_def by (intro quiet_intros) assumption+

lemma updateMemberRole_quiet: "quiet s (fst (updateMemberRole so e now g t b u s))"
  unfolding updateMemberRole_def by (intro quiet_intros) assumption+

lemma removeMember_quiet: "quiet s (fst (removeMember so e now g t u s))"
  unfolding removeMember_def by (intro quiet_intros) assumption+

lemma createWorkflow_quiet: "quiet s (fst (createWorkflow so e now g b u s))"
  unfolding createWorkflow_def Let_def split_def by (intro quiet_intros) assumption+

lemma runWorkflow_quiet: "quiet s (fst (runWorkflow so e now sid wid u s))"
  unfolding runWorkflow_def Let_def split_def by (intro quiet_intros) assumption+

lemma getWorkflowRun_quiet: "quiet s (fst (getWorkflowRun so i u s))"
  unfolding getWorkflowRun_def by (intro quiet_intros) assumption+

lemma analyze_quiet: "quiet s (fst (analyzeSessionWithAI pr key e now i b u s))"
  unfolding analyzeSessionWithAI_def
proof (intro quiet_intros)
  fix q
  show "quiet s (fst (case pr key (ai_user_message q) of
        AI_NoRequest \<Rightarrow> fail s 500 ''failed to create upstream AI request''
      | AI_Failed \<Rightarrow> fail s 502 ''upstream AI provider error''
      | AI_BadBody \<Rightarrow> fail s 502 ''invalid response from AI provider''
      | AI_Content content \<Rightarrow>
          (record_audit e now u ''session.ai_analyzed'' i s,
           Reply 200 (JAnalysis (TrimSpace content) [] ''0.98'' now))))"
    by (cases "pr key (ai_user_message q)") (simp_all add: quiet_fail quiet_record_audit)
qed

lemma newChallenge_quiet: "quiet s (fst (newChallenge e now u s))"
  by (simp add: newChallenge_def Let_def split_def quiet_randomID)

lemma read_only_quiet:
  "fst (me u s) = s" "fst (listDevices now u s) = s" "fst (lookupDevice now c u s) = s"
  "fst (listSessions u s) = s" "fst (listAudit u s) = s" "fst (iceConfiguration e now k u s) = s"
  by (auto simp: me_def listDevices_def lookupDevice_def listSessions_def listAudit_def
      iceConfiguration_def fail_def Let_def split: option.split)

lemmas quiet_handlers =
  sendVerifyEmail_quiet confirmVerifyEmail_quiet requestPasswordReset_quiet
  confirmPasswordReset_quiet setup2FA_quiet confirm2FA_quiet disable2FA_quiet
  createOrganization_quiet list_or_empty_quiet listMembers_quiet inviteMember_quiet
  updateMemberRole_quiet removeMember_quiet createWorkflow_quiet runWorkflow_quiet
  getWorkflowRun_quiet analyze_quiet newChallenge_quiet

section \<open>The invariant\<close>

definition service_inv :: "'st service \<Rightarrow> bool" where
  "service_inv s \<longleftrightarrow>
     account_inv (sv_accounts s) (sv_emails s) \<and> token_inv (sv_refresh s) \<and>
     device_inv (sv_devices s) \<and> table_inv (sv_sessions s) \<and>
     link_inv (sv_devices s) (sv_sessions s) \<and> conn_inv (sv_peers s) (sv_conns s) \<and>
     length (sv_audit s) \<le> 10000 \<and> sv_authSlots s \<le> 2 \<and> wf_map (sv_rates s)"

lemma service_invD:
  assumes "service_inv s"
  shows "account_inv (sv_accounts s) (sv_emails s)" "token_inv (sv_refresh s)"
    "device_inv (sv_devices s)" "table_inv (sv_sessions s)"
    "link_inv (sv_devices s) (sv_sessions s)" "conn_inv (sv_peers s) (sv_conns s)"
    "length (sv_audit s) \<le> 10000" "sv_authSlots s \<le> 2" "wf_map (sv_rates s)"
  using assms by (auto simp: service_inv_def)

lemma service_inv_conns: "service_inv s \<Longrightarrow> wf_map (sv_conns s)"
  by (simp add: service_inv_def conn_inv_def)

lemma NewWithStore_inv: "NewWithStore key st = Some s \<Longrightarrow> service_inv s"
  by (auto simp: NewWithStore_def service_inv_def conn_inv_def split: if_splits)

text \<open>What an operation owes the service: the invariant afterwards, and a step of the session
  table's contract.\<close>

definition keeps :: "time \<Rightarrow> 'st service \<Rightarrow> 'st service \<Rightarrow> bool" where
  "keeps now s s' \<longleftrightarrow> service_inv s' \<and> table_step now (sv_sessions s) (sv_sessions s')"

lemma quiet_keeps: "quiet s s' \<Longrightarrow> service_inv s \<Longrightarrow> keeps now s s'"
  by (auto simp: quiet_def keeps_def service_inv_def)

text \<open>The audit log stays within its cap under every primitive.\<close>

lemma record_audit_cap: "length (sv_audit (record_audit e now u a r s)) \<le> 10000"
  by (simp add: record_audit_audit append_capped_length)

lemma end_session_cap:
  "length (sv_audit s) \<le> 10000 \<Longrightarrow> length (sv_audit (end_session e now k st actor s)) \<le> 10000"
  by (simp add: end_session_def Let_def record_audit_cap split: option.split)

lemma fold_cap:
  assumes "\<And>k s. length (sv_audit s) \<le> n \<Longrightarrow> length (sv_audit (g k s)) \<le> n"
  shows "length (sv_audit s) \<le> n \<Longrightarrow> length (sv_audit (fold g ks s)) \<le> n"
  by (induction ks arbitrary: s) (simp_all add: assms)

lemma end_where_cap:
  "length (sv_audit s) \<le> 10000 \<Longrightarrow> length (sv_audit (end_where e now P st actor s)) \<le> 10000"
  unfolding end_where_def by (rule fold_cap) (auto intro: end_session_cap split: option.split)

lemma expire_cap:
  "length (sv_audit s) \<le> 10000 \<Longrightarrow> length (sv_audit (expire e now s)) \<le> 10000"
  by (simp add: expire_def Let_def end_where_cap)

lemma expire_refresh:
  "sv_refresh (expire e now s) = filter (\<lambda>(k, r). now < r_Expires r) (sv_refresh s)"
  by (simp add: expire_def Let_def)

lemma expire_rates:
  "sv_rates (expire e now s) = filter (\<lambda>(k, r). now < rl_Until r) (sv_rates s)"
  by (simp add: expire_def Let_def)

text \<open>Expiry and admission.\<close>

lemma expire_keeps_service:
  assumes "service_inv s"
  shows "keeps now s (expire e now s)"
proof -
  note inv = service_invD[OF assms]
  from expire_keeps[OF inv(4), of now e]
  have t: "table_step now (sv_sessions s) (sv_sessions (expire e now s))"
    "table_inv (sv_sessions (expire e now s))" by (simp_all add: keeps_table_def)
  have l: "link_inv (sv_devices s) (sv_sessions (expire e now s))"
    unfolding link_inv_def expire_sessions[OF table_invD(2)[OF inv(4)]]
    using inv(5)[unfolded link_inv_def]
    by (rule all_map_each) (auto intro: linked_ended simp: final_states_def)
  have r: "token_inv (sv_refresh (expire e now s))"
    unfolding expire_refresh
    by (rule fewer_tokens_inv[OF fewer_filter inv(2)]) (rule token_invD(1)[OF inv(2)])
  have c: "conn_inv (sv_peers s) (sv_conns (expire e now s))"
    by (rule pushes_inv[OF expire_pushes inv(6)]) (rule service_inv_conns[OF assms])
  show ?thesis
    using inv t l r c expire_cap[OF inv(7), of e now]
    by (simp add: keeps_def service_inv_def expire_rates)
qed

lemma admit_state:
  "fst (admit e now r s) =
     (expire e now s)\<lparr>sv_rates := put (sv_rates (expire e now s)) (rate_key e r)
        (count_request now (get (sv_rates (expire e now s)) (rate_key e r)))\<rparr>"
  by (simp add: admit_def Let_def)

lemma admit_keeps: "service_inv s \<Longrightarrow> keeps now s (fst (admit e now r s))"
  using expire_keeps_service[of s now e] by (simp add: admit_state keeps_def service_inv_def)

section \<open>Sessions and devices\<close>

text \<open>The effect of the session handlers outside the session table.\<close>

definition outside :: "'st service \<Rightarrow> 'st service \<Rightarrow> bool" where
  "outside s s' \<longleftrightarrow>
     sv_accounts s' = sv_accounts s \<and> sv_emails s' = sv_emails s \<and>
     sv_refresh s' = sv_refresh s \<and> sv_peers s' = sv_peers s \<and>
     sv_authSlots s' = sv_authSlots s \<and> sv_key s' = sv_key s \<and> sv_rates s' = sv_rates s \<and>
     (wf_map (sv_conns s) \<longrightarrow> pushes (sv_conns s) (sv_conns s')) \<and>
     (length (sv_audit s) \<le> 10000 \<longrightarrow> length (sv_audit s') \<le> 10000)"

lemma outside_refl [simp]: "outside s s"
  by (simp add: outside_def)

lemma outside_trans: "outside a b \<Longrightarrow> outside b c \<Longrightarrow> outside a c"
  by (auto simp: outside_def intro: pushes_trans pushes_wf)

lemma outside_core [simp]:
  "outside s (s1\<lparr>sv_challenges := c\<rparr>) = outside s s1"
  "outside s (s1\<lparr>sv_sessions := m\<rparr>) = outside s s1"
  "outside s (s1\<lparr>sv_devices := ds\<rparr>) = outside s s1"
  "outside s (s1\<lparr>sv_entropy := n\<rparr>) = outside s s1"
  by (simp_all add: outside_def)

lemma outside_steps:
  "outside s s1 \<Longrightarrow> outside s (record_audit e now u a r s1)"
  "outside s s1 \<Longrightarrow> outside s (notify d kd v s1)"
  "outside s s1 \<Longrightarrow> outside s (notify_both w s1)"
  "outside s s1 \<Longrightarrow> outside s (end_session e now k st actor s1)"
  "outside s s1 \<Longrightarrow> outside s (end_where e now P st actor s1)"
  "outside s s1 \<Longrightarrow> outside s (fst (device_proof e now rq u k s1))"
  "outside s s1 \<Longrightarrow> outside s (close_peer i s1)"
proof -
  show "outside s s1 \<Longrightarrow> outside s (record_audit e now u a r s1)"
    by (simp add: outside_def record_audit_cap)
  show "outside s s1 \<Longrightarrow> outside s (notify d kd v s1)"
    by (erule outside_trans) (simp add: outside_def notify_pushes)
  show "outside s s1 \<Longrightarrow> outside s (notify_both w s1)"
    by (erule outside_trans) (simp add: outside_def notify_both_pushes)
  show "outside s s1 \<Longrightarrow> outside s (end_session e now k st actor s1)"
    by (erule outside_trans) (simp add: outside_def end_session_pushes end_session_cap)
  show "outside s s1 \<Longrightarrow> outside s (end_where e now P st actor s1)"
    by (erule outside_trans) (simp add: outside_def end_where_pushes end_where_cap)
  show "outside s s1 \<Longrightarrow> outside s (fst (device_proof e now rq u k s1))"
    by (simp add: outside_def)
  show "outside s s1 \<Longrightarrow> outside s (close_peer i s1)"
    by (simp add: outside_def)
qed

lemma outside_fail: "outside s s1 \<Longrightarrow> outside s (fst (fail s1 st m))"
  by (simp add: fail_def)

lemma outside_update: "outside s s1 \<Longrightarrow> outside s (fst (update_session e now k v u a s1))"
  by (simp add: update_session_def Let_def outside_steps)

lemma outside_ended: "outside s s1 \<Longrightarrow> outside s (fst (reply_ended e now k v st u s1))"
  by (simp add: reply_ended_def outside_steps)

lemma outside_rivals: "outside s s1 \<Longrightarrow> outside s (take_from_rivals v s1)"
proof -
  have "outside s2 (fold (\<lambda>k s. case get (sv_sessions s) k of None \<Rightarrow> s
      | Some old \<Rightarrow> if is_rival v old
          then notify_both (yield_control old)
                 (s\<lparr>sv_sessions := adjust k (\<lambda>_. yield_control old) (sv_sessions s)\<rparr>)
          else s) ks s2)" for ks and s2 :: "'a service"
  proof (induction ks arbitrary: s2)
    case (Cons k ks)
    have "outside s2 (case get (sv_sessions s2) k of None \<Rightarrow> s2
      | Some old \<Rightarrow> if is_rival v old
          then notify_both (yield_control old)
                 (s2\<lparr>sv_sessions := adjust k (\<lambda>_. yield_control old) (sv_sessions s2)\<rparr>)
          else s2)"
      by (auto split: option.split intro!: outside_steps)
    from outside_trans[OF this Cons.IH] show ?case by simp
  qed simp
  then have "outside s1 (take_from_rivals v s1)" unfolding take_from_rivals_def .
  moreover assume "outside s s1"
  ultimately show ?thesis using outside_trans by blast
qed

lemma targetSession_outside:
  "targetSession e now r k u s = Inl out \<Longrightarrow> outside s (fst out)"
  "targetSession e now r k u s = Inr (s1, v) \<Longrightarrow> outside s s1"
  by (auto simp: targetSession_def fail_def Let_def split_def outside_steps
      split: option.splits if_splits)

lemma on_target_outside:
  assumes "\<And>s1 v. outside s s1 \<Longrightarrow> outside s (fst (F s1 v))"
  shows "outside s (fst (case targetSession e now r k u s of Inl out \<Rightarrow> out
     | Inr (s, v) \<Rightarrow> F s v))"
  using targetSession_outside[of e now r k u s] assms by (auto split: sum.split)

lemma outside_decode:
  "(\<And>q. outside s (fst (F q))) \<Longrightarrow>
   outside s (fst (case decode b of Inl rep \<Rightarrow> (s, rep) | Inr q \<Rightarrow> F q))"
  by (simp split: sum.split)

lemma session_handlers_outside:
  "outside s (fst (decideSession e now r k b1 u s))"
  "outside s (fst (changePermissions e now r k b2 u s))"
  "outside s (fst (handover e now r k u s))"
  "outside s (fst (stopSession e now k u s))"
  "outside s (fst (requestSession e now r b3 u s))"
  "outside s (fst (revokeDevice e now k u s))"
  "outside s (fst (registerDevice e now r b4 u s))"
proof -
  show "outside s (fst (decideSession e now r k b1 u s))"
    unfolding decideSession_def
    by (intro outside_decode on_target_outside)
      (simp add: outside_fail outside_ended outside_update)
  show "outside s (fst (changePermissions e now r k b2 u s))"
    unfolding changePermissions_def
    by (intro outside_decode on_target_outside)
      (simp add: outside_fail outside_ended outside_update)
  show "outside s (fst (handover e now r k u s))"
    unfolding handover_def
    by (intro on_target_outside) (simp add: outside_fail outside_update outside_rivals)
  show "outside s (fst (stopSession e now k u s))"
    by (simp add: stopSession_def outside_fail outside_ended split: option.split)
  have cr: "outside s (fst (create_session e now user sr tg g s1))" if "outside s s1"
    for user sr tg g s1
    using that by (simp add: create_session_def randomID_next Let_def outside_steps
        split: option.split)
  show "outside s (fst (requestSession e now r b3 u s))"
    unfolding requestSession_def request_from_def
    by (intro outside_decode)
      (auto simp: Let_def split_def intro!: cr outside_steps outside_fail split: option.split)
  show "outside s (fst (revokeDevice e now k u s))"
    by (simp add: revokeDevice_def Let_def outside_fail outside_steps split: option.split)
  show "outside s (fst (registerDevice e now r b4 u s))"
    unfolding registerDevice_def
    by (intro outside_decode)
      (auto simp: Let_def split_def randomID_next outside_fail outside_steps
        split: device_scan.split)
qed

section \<open>Every endpoint\<close>

text \<open>What is left to show for a handler that acts on sessions and devices.\<close>

lemma outside_keeps:
  assumes "service_inv s" and "outside s s'" and "device_inv (sv_devices s')"
    and "keeps_table now (sv_sessions s) (sv_sessions s')"
    and "link_inv (sv_devices s') (sv_sessions s')"
  shows "keeps now s s'"
proof -
  note inv = service_invD[OF assms(1)]
  from assms(2) have fr: "sv_accounts s' = sv_accounts s" "sv_emails s' = sv_emails s"
    "sv_refresh s' = sv_refresh s" "sv_peers s' = sv_peers s"
    "sv_authSlots s' = sv_authSlots s" "sv_rates s' = sv_rates s"
    and c: "pushes (sv_conns s) (sv_conns s')" and a: "length (sv_audit s') \<le> 10000"
    using service_inv_conns[OF assms(1)] inv(7) by (simp_all add: outside_def)
  from pushes_inv[OF c inv(6)] inv assms(3-5) a show ?thesis
    by (simp add: keeps_def keeps_table_def service_inv_def fr)
qed

lemma settled_keeps:
  assumes "service_inv s" and "outside s s'" and "sv_devices s' = sv_devices s"
    and "keeps_table now (sv_sessions s) (sv_sessions s')"
    and "length (sv_sessions s') = length (sv_sessions s)"
  shows "keeps now s s'"
proof (rule outside_keeps[OF assms(1,2) _ assms(4)])
  show "device_inv (sv_devices s')" using service_invD(3)[OF assms(1)] assms(3) by simp
  have "table_step now (sv_sessions s) (sv_sessions s')"
    using assms(4) by (simp add: keeps_table_def)
  then show "link_inv (sv_devices s') (sv_sessions s')"
    unfolding assms(3)
    by (rule table_step_link[OF _ service_invD(5)[OF assms(1)]]) (use assms(5) in simp)
qed

lemma length_adjust [simp]: "length (adjust k f m) = length m"
  by (simp add: adjust_def)

lemma length_each [simp]: "length (each f m) = length m"
  by (simp add: each_def)

lemma decideSession_service:
  assumes "service_inv s"
  shows "keeps now s (fst (decideSession e now r k b u s))"
proof -
  obtain s' rep where d: "decideSession e now r k b u s = (s', rep)" by force
  have "length (sv_sessions s') = length (sv_sessions s)"
    using d by (cases rule: decideSession_cases) simp_all
  moreover have "sv_devices (fst (decideSession e now r k b u s)) = sv_devices s"
    unfolding decideSession_def
    by (auto simp: fail_def targetSession_Inl_frame targetSession_Inr_frame split: sum.split)
  ultimately show ?thesis
    using d decideSession_keeps[OF service_invD(4)[OF assms], of now e r k b u]
      session_handlers_outside(1)[of s e now r k b u]
    by (intro settled_keeps[OF assms]) simp_all
qed

lemma changePermissions_service:
  assumes "service_inv s"
  shows "keeps now s (fst (changePermissions e now r k b u s))"
proof -
  obtain s' rep where d: "changePermissions e now r k b u s = (s', rep)" by force
  have "length (sv_sessions s') = length (sv_sessions s)"
    using d by (cases rule: changePermissions_cases) simp_all
  moreover have "sv_devices (fst (changePermissions e now r k b u s)) = sv_devices s"
    unfolding changePermissions_def
    by (auto simp: fail_def targetSession_Inl_frame targetSession_Inr_frame split: sum.split)
  ultimately show ?thesis
    using d changePermissions_keeps[OF service_invD(4)[OF assms], of now e r k b u]
      session_handlers_outside(2)[of s e now r k b u]
    by (intro settled_keeps[OF assms]) simp_all
qed

lemma handover_service:
  assumes "service_inv s"
  shows "keeps now s (fst (handover e now r k u s))"
proof -
  obtain s' rep where d: "handover e now r k u s = (s', rep)" by force
  have "length (sv_sessions s') = length (sv_sessions s)"
    using d table_invD(2)[OF service_invD(4)[OF assms]]
    by (cases rule: handover_cases) (simp_all add: yield_rivals_def)
  moreover have "sv_devices (fst (handover e now r k u s)) = sv_devices s"
    unfolding handover_def
    by (auto simp: fail_def targetSession_Inl_frame targetSession_Inr_frame split: sum.split)
  ultimately show ?thesis
    using d handover_keeps[OF service_invD(4)[OF assms], of now e r k u]
      session_handlers_outside(3)[of s e now r k u]
    by (intro settled_keeps[OF assms]) simp_all
qed

lemma stopSession_service:
  assumes "service_inv s"
  shows "keeps now s (fst (stopSession e now k u s))"
proof -
  obtain s' rep where d: "stopSession e now k u s = (s', rep)" by force
  have "length (sv_sessions s') = length (sv_sessions s)"
    using d by (cases rule: stopSession_cases) simp_all
  moreover have "sv_devices (fst (stopSession e now k u s)) = sv_devices s"
    by (auto simp: stopSession_def fail_def split: option.split)
  ultimately show ?thesis
    using d stopSession_keeps[OF service_invD(4)[OF assms], of now e k u]
      session_handlers_outside(4)[of s e now k u]
    by (intro settled_keeps[OF assms]) simp_all
qed

lemma requestSession_service:
  assumes inv: "service_inv s" and fresh: "get (sv_sessions s) (next_id e 18 s) = None"
  shows "keeps now s (fst (requestSession e now r b u s))"
proof -
  obtain s' rep where d: "requestSession e now r b u s = (s', rep)" by force
  note di = service_invD(3)[OF inv]
  have dev: "sv_devices (fst (requestSession e now r b u s)) = sv_devices s"
    by (auto simp: requestSession_def request_from_def create_session_def randomID_next fail_def
        Let_def split_def split: sum.split option.split)
  have kt: "keeps_table now (sv_sessions s) (sv_sessions s')"
    using requestSession_keeps[OF service_invD(4)[OF inv] fresh device_invD(2)[OF di],
        of now r b u] d by simp
  have "link_inv (sv_devices s) (sv_sessions s')"
    using d
  proof (cases rule: requestSession_cases)
    case Failed
    with service_invD(5)[OF inv] show ?thesis by simp
  next
    case (Requested q source target v)
    have ids: "d_ID source = sq_SourceID q" "d_ID target = sq_TargetID q"
      using Requested(2) all_mapD[OF device_invD(2)[OF di]] by (auto simp: requestable_def)
    have "linked (sv_devices s) v"
      using Requested(2) unfolding Requested(4)
      by (simp add: linked_def requestable_def ids live_Some)
    with service_invD(5)[OF inv] show ?thesis
      unfolding Requested(5) link_inv_def by (rule all_map_put)
  qed
  with kt d dev di session_handlers_outside(5)[of s e now r b u] show ?thesis
    by (intro outside_keeps[OF inv]) simp_all
qed

lemma revokeDevice_service:
  assumes "service_inv s"
  shows "keeps now s (fst (revokeDevice e now k u s))"
  using revokeDevice_keeps[OF service_invD(3-5)[OF assms], of e now k u]
    session_handlers_outside(6)[of s e now k u]
  by (intro outside_keeps[OF assms]) simp_all

lemma registerDevice_service:
  assumes "service_inv s" and "get (sv_devices s) (next_id e 12 s) = None"
  shows "keeps now s (fst (registerDevice e now r b u s))"
  using registerDevice_keeps[OF service_invD(3)[OF assms(1)] assms(2), of now r b u]
    session_handlers_outside(7)[of s e now r b u] service_invD(4,5)[OF assms(1)]
  by (intro outside_keeps[OF assms(1)]) (simp_all add: link_extends)

section \<open>Accounts and tokens\<close>

text \<open>A fresh draw: no identifier, family or digest made from it is in use.\<close>

definition drawn :: "env \<Rightarrow> nat \<Rightarrow> nat \<Rightarrow> string" where
  "drawn e n i = RawURLEncode (rand_bytes e i n)"

definition fresh_draw :: "env \<Rightarrow> 'st service \<Rightarrow> nat \<Rightarrow> bool" where
  "fresh_draw e s i \<longleftrightarrow>
     drawn e 18 i \<noteq> [] \<and> get (sv_accounts s) (drawn e 18 i) = None \<and>
     get (sv_sessions s) (drawn e 18 i) = None \<and> get (sv_devices s) (drawn e 12 i) = None \<and>
     get (sv_refresh s) (digest e (drawn e 32 i)) = None \<and>
     all_map (\<lambda>h t. r_Family t \<noteq> drawn e 24 i) (sv_refresh s)"

text \<open>No endpoint draws more than five identifiers before it has used them.\<close>

definition fresh_draws :: "env \<Rightarrow> 'st service \<Rightarrow> bool" where
  "fresh_draws e s \<longleftrightarrow> list_all (fresh_draw e s) [sv_entropy s ..< sv_entropy s + 5]"

lemma fresh_draws_at: "fresh_draws e s \<Longrightarrow> n < 5 \<Longrightarrow> fresh_draw e s (sv_entropy s + n)"
  by (auto simp: fresh_draws_def list_all_iff)

lemma fresh_draws_issue:
  assumes "fresh_draws e s" and "n < 4" and "sv_refresh s1 = sv_refresh s"
    and "sv_entropy s1 = sv_entropy s + n"
  shows "fresh_issue e f s1"
  using fresh_draws_at[OF assms(1), of n] fresh_draws_at[OF assms(1), of "n + 1"] assms(2)
  by (auto simp: fresh_issue_def new_raw_def next_id_def fresh_draw_def drawn_def assms(3,4))

lemma fresh_draws_ids:
  assumes "fresh_draws e s"
  shows "get (sv_sessions s) (next_id e 18 s) = None" "get (sv_devices s) (next_id e 12 s) = None"
  using fresh_draws_at[OF assms, of 0] by (simp_all add: fresh_draw_def next_id_def drawn_def)

text \<open>The account handlers keep devices and peers; they touch the heap only through \<open>invalidate\<close>.\<close>

lemma close_owned_outside:
  "sv_conns (fst (close_owned u ps s)) = sv_conns s \<and> sv_audit (fst (close_owned u ps s)) = sv_audit s"
  by simp

lemma invalidate_outside:
  assumes "wf_map (sv_conns s)" and "length (sv_audit s) \<le> 10000"
  shows "pushes (sv_conns s) (sv_conns (fst (invalidate e now u s)))"
    and "length (sv_audit (fst (invalidate e now u s))) \<le> 10000"
  using assms end_where_pushes[of "s\<lparr>sv_accounts := _, sv_refresh := _\<rparr>"]
  by (auto simp: invalidate_def Let_def end_where_cap split: option.split)

lemma invalidate_link:
  assumes "table_inv (sv_sessions s)" and "link_inv (sv_devices s) (sv_sessions s)"
  shows "link_inv (sv_devices s) (sv_sessions (fst (invalidate e now u s)))"
proof (cases "get (sv_accounts s) u")
  case (Some a)
  show ?thesis
    unfolding invalidate_effect(3)[OF Some table_invD(2)[OF assms(1)]] link_inv_def
    using assms(2)[unfolded link_inv_def]
    by (rule all_map_each) (auto simp: closes_for_def final_states_def intro: linked_ended)
qed (use assms(2) in \<open>simp add: invalidate_unknown\<close>)

lemma invalidate_service:
  assumes inv: "service_inv s"
  shows "keeps now s (fst (invalidate e now u s))"
proof -
  note i = service_invD[OF inv]
  obtain s' ok where s': "invalidate e now u s = (s', ok)" by force
  then have eq: "s' = fst (invalidate e now u s)" by simp
  from invalidate_keeps[OF i(1,2,4) s'] invalidate_link[OF i(4,5), of e now u]
    invalidate_outside[OF service_inv_conns[OF inv] i(7), of e now u]
    pushes_inv[OF _ i(6), of "sv_conns s'"] i
  show ?thesis by (simp add: keeps_def service_inv_def keeps_table_def eq)
qed

lemma keeps_audit: "keeps now s s1 \<Longrightarrow> keeps now s (record_audit e now' u a r s1)"
  by (simp add: keeps_def service_inv_def record_audit_cap)

lemma logout_service: "service_inv s \<Longrightarrow> keeps now s (fst (logout e now u s))"
  using invalidate_service[of s now e u]
  by (auto simp: logout_def split_def Let_def intro: keeps_audit)

lemma keeps_refresh:
  assumes "service_inv s" and "token_inv (sv_refresh s1)" and "s1 = s\<lparr>sv_refresh := ts\<rparr>"
  shows "service_inv s1"
  using assms by (simp add: service_inv_def)

lemma keeps_issue:
  assumes "keeps now s s1" and "token_inv (sv_refresh (fst (issue e now u f s1)))"
  shows "keeps now s (fst (issue e now u f s1))"
  using assms by (simp add: keeps_def service_inv_def)

lemma rotate_service:
  assumes inv: "service_inv s" and fresh: "fresh_draws e s"
  shows "keeps now s (fst (rotate e now b s))"
proof -
  note i = service_invD[OF inv]
  obtain s' rep where d: "rotate e now b s = (s', rep)" by force
  have "fresh_issue e f s" for f by (rule fresh_draws_issue[OF fresh, of 0]) simp_all
  note keep = rotate_keeps[OF i(1,2,4) this d]
  from d show ?thesis
  proof (cases rule: rotate_cases)
    case Failed
    with d inv show ?thesis by (simp add: keeps_def)
  next
    case (Reuse token t s1 ok)
    let ?s0 = "s\<lparr>sv_refresh := each (spends_family (r_Family t)) (sv_refresh s)\<rparr>"
    have "fewer_tokens (sv_refresh s) (sv_refresh ?s0)"
      using token_invD(1)[OF i(2)] by (auto intro!: fewer_each simp: spends_family_def)
    from fewer_tokens_inv[OF this i(2)] have "service_inv ?s0"
      using inv by (simp add: service_inv_def)
    from invalidate_service[OF this, of now e "r_UserID t"] Reuse(5)
    have "keeps now s s1" by (simp add: keeps_def)
    then show ?thesis using d by (auto simp: Reuse(6) intro: keeps_audit)
  next
    case (Rotated token t s1)
    have "fst (rotate e now b s) = s'" using d by simp
    with keep inv show ?thesis
      by (simp add: keeps_def service_inv_def Rotated(5,6))
  qed
qed

lemma register_service:
  assumes inv: "service_inv s" and fresh: "fresh_draws e s"
  shows "keeps now s (fst (register e now b s))"
proof -
  note i = service_invD[OF inv]
  obtain s' rep where d: "register e now b s = (s', rep)" by force
  from d show ?thesis
  proof (cases rule: register_cases)
    case Failed
    with d inv show ?thesis by (simp add: keeps_def)
  next
    case (Locked q s1)
    let ?s0 = "s\<lparr>sv_authSlots := sv_authSlots s + 1\<rparr>"
    have id: "reg_id e (s\<lparr>sv_authSlots := n\<rparr>) = drawn e 18 (Suc (sv_entropy s))" for n
      by (simp add: reg_id_def drawn_def)
    have fi: "fresh_issue e [] (?s0\<lparr>sv_entropy := sv_entropy ?s0 + 3\<rparr>)"
      by (rule fresh_draws_issue[OF fresh, of 3]) simp_all
    have acc: "account_inv (sv_accounts s1) (sv_emails s1) \<and> token_inv (sv_refresh s1)"
      using fresh_draws_at[OF fresh, of 1] i(1,2)
      by (intro register_locked_keeps[OF Locked(4) _ _ _ _ fi])
        (simp_all add: id fresh_draw_def)
    have "quiet ?s0 (s1\<lparr>sv_accounts := sv_accounts s, sv_emails := sv_emails s,
        sv_refresh := sv_refresh s\<rparr>)"
      using Locked(4) by (auto simp: register_locked_def register_insert_def quiet_def hashPassword_def fail_def
          Let_def split_def record_audit_cap reply_tokens_def split: option.splits if_splits)
    then have "sv_devices s1 = sv_devices s" "sv_sessions s1 = sv_sessions s"
      "sv_peers s1 = sv_peers s" "sv_conns s1 = sv_conns s" "sv_rates s1 = sv_rates s"
      "sv_authSlots s1 = sv_authSlots s + 1" "length (sv_audit s1) \<le> 10000"
      using i(7) by (simp_all add: quiet_def)
    with acc i Locked(3) show ?thesis
      using d by (simp add: keeps_def service_inv_def Locked(5))
  qed
qed

lemma login_service:
  assumes inv: "service_inv s" and fresh: "fresh_draws e s"
  shows "keeps now s (fst (login e now b s))"
proof -
  note i = service_invD[OF inv]
  obtain s' rep where d: "login e now b s = (s', rep)" by force
  from d show ?thesis
  proof (cases rule: login_cases)
    case Failed
    with d inv show ?thesis by (simp add: keeps_def)
  next
    case (Locked q s1)
    let ?s0 = "s\<lparr>sv_authSlots := sv_authSlots s + 1\<rparr>"
    have fi: "fresh_issue e [] (?s0\<lparr>sv_entropy := sv_entropy ?s0 + 1\<rparr>)"
      by (rule fresh_draws_issue[OF fresh, of 1]) simp_all
    have acc: "account_inv (sv_accounts s1) (sv_emails s1) \<and> token_inv (sv_refresh s1)"
      by (rule login_locked_keeps[OF Locked(4) _ _ fi]) (use i(1,2) in simp_all)
    have "sv_devices s1 = sv_devices s" "sv_sessions s1 = sv_sessions s"
      "sv_peers s1 = sv_peers s" "sv_conns s1 = sv_conns s" "sv_rates s1 = sv_rates s"
      "sv_authSlots s1 = sv_authSlots s + 1" "length (sv_audit s1) \<le> 10000"
      using Locked(4) i(7)
      by (auto simp: login_locked_def login_finish_def fail_def Let_def record_audit_cap reply_tokens_def
          split: option.splits if_splits)
    with acc i Locked(3) show ?thesis
      using d by (simp add: keeps_def service_inv_def Locked(5))
  qed
qed

text \<open>The critical sections after the hash, when other requests have been served in between.\<close>

lemma register_insert_service:
  assumes inv: "service_inv s" and fresh: "fresh_draws e s" and "0 < sv_authSlots s"
  shows "service_inv (releaseSlot (fst (register_insert e now email name p s)))"
proof -
  note i = service_invD[OF inv]
  obtain s1 rep where d: "register_insert e now email name p s = (s1, rep)" by force
  have fi: "fresh_issue e [] (s\<lparr>sv_entropy := sv_entropy s + 2\<rparr>)"
    by (rule fresh_draws_issue[OF fresh, of 2]) simp_all
  have acc: "account_inv (sv_accounts s1) (sv_emails s1) \<and> token_inv (sv_refresh s1)"
    using fresh_draws_at[OF fresh, of 0] i(1,2)
    by (intro register_insert_keeps[OF d _ _ _ _ fi]) (simp_all add: next_id_def drawn_def fresh_draw_def)
  have "quiet s (s1\<lparr>sv_accounts := sv_accounts s, sv_emails := sv_emails s, sv_refresh := sv_refresh s\<rparr>)"
    using d by (auto simp: register_insert_def quiet_def fail_def Let_def split_def record_audit_cap
        reply_tokens_def split: option.splits if_splits)
  then have "sv_devices s1 = sv_devices s" "sv_sessions s1 = sv_sessions s"
    "sv_peers s1 = sv_peers s" "sv_conns s1 = sv_conns s" "sv_rates s1 = sv_rates s"
    "sv_authSlots s1 = sv_authSlots s" "length (sv_audit s1) \<le> 10000"
    using i(7) by (simp_all add: quiet_def)
  with acc i show ?thesis by (simp add: d service_inv_def)
qed

lemma login_finish_service:
  assumes inv: "service_inv s" and fresh: "fresh_draws e s" and "0 < sv_authSlots s"
  shows "service_inv (releaseSlot (fst (login_finish e now q found s)))"
proof -
  note i = service_invD[OF inv]
  obtain s1 rep where d: "login_finish e now q found s = (s1, rep)" by force
  have "token_inv (sv_refresh (fst (issue e now u [] (record_audit e now u a u s))))" for u a
  proof (rule issue_keeps)
    show "fresh_issue e [] (record_audit e now u a u s)"
      by (rule fresh_draws_issue[OF fresh, of 1])
        (simp_all add: record_audit_def randomID_def random_read_def)
  qed (use i(2) in simp_all)
  with d i(2) have "token_inv (sv_refresh s1)"
    by (auto simp: login_finish_def fail_def Let_def reply_tokens_def split: option.splits if_splits)
  moreover have "sv_devices s1 = sv_devices s" "sv_sessions s1 = sv_sessions s"
    "sv_peers s1 = sv_peers s" "sv_conns s1 = sv_conns s" "sv_rates s1 = sv_rates s"
    "sv_accounts s1 = sv_accounts s" "sv_emails s1 = sv_emails s"
    "sv_authSlots s1 = sv_authSlots s" "length (sv_audit s1) \<le> 10000"
    using d i(7)
    by (auto simp: login_finish_def fail_def Let_def record_audit_cap reply_tokens_def
        split: option.splits if_splits)
  ultimately show ?thesis using i by (simp add: d service_inv_def)
qed

lemma verify2FALogin_service:
  assumes inv: "service_inv s" and fresh: "fresh_draws e s"
  shows "keeps now s (fst (verify2FALogin e now b s))"
proof -
  note i = service_invD[OF inv]
  have "token_inv (sv_refresh (fst (issue e now u [] (record_audit e now u a u s))))" for u a
  proof (rule issue_keeps)
    show "fresh_issue e [] (record_audit e now u a u s)"
      by (rule fresh_draws_issue[OF fresh, of 1])
        (simp_all add: record_audit_def randomID_def random_read_def)
  qed (use i(2) in simp_all)
  moreover have "keeps now s (record_audit e now u a u s)" for u a
    using inv by (intro keeps_audit) (simp add: keeps_def)
  ultimately have "keeps now s (fst (issue e now u [] (record_audit e now u a u s)))" for u a
    using keeps_issue by blast
  moreover have "keeps now s s" using inv by (simp add: keeps_def)
  ultimately show ?thesis
    by (auto simp: verify2FALogin_def decode_def fail_def Let_def split: json_body.split)
qed

lemma serve_signalling_service:
  assumes "service_inv s"
  shows "keeps now s (fst (serve_signalling acc r s))"
proof -
  have "sv_accounts (fst (sig_connect r (acc = None) s)) = sv_accounts s"
    "sv_emails (fst (sig_connect r (acc = None) s)) = sv_emails s"
    "sv_refresh (fst (sig_connect r (acc = None) s)) = sv_refresh s"
    "sv_devices (fst (sig_connect r (acc = None) s)) = sv_devices s"
    "sv_sessions (fst (sig_connect r (acc = None) s)) = sv_sessions s"
    "sv_audit (fst (sig_connect r (acc = None) s)) = sv_audit s"
    "sv_authSlots (fst (sig_connect r (acc = None) s)) = sv_authSlots s"
    "sv_rates (fst (sig_connect r (acc = None) s)) = sv_rates s"
    by (auto simp: sig_connect_def Let_def split: option.split)
  with assms sig_connect_inv[OF service_invD(6)[OF assms], of r "acc = None"]
  have "keeps now s (fst (sig_connect r (acc = None) s))" by (simp add: keeps_def service_inv_def)
  moreover have "fst (serve_signalling acc r s) = fst (sig_connect r (acc = None) s)"
    by (simp add: serve_signalling_def fail_def split: prod.split connect_result.split)
  ultimately show ?thesis by simp
qed

section \<open>Dispatch\<close>

lemma serve_public_keeps:
  assumes "service_inv s" and "fresh_draws (wd_env w) s"
    and "serve_public w now ep r s = Some out"
  shows "keeps now s (fst out)"
  using assms(3) register_service[OF assms(1,2)] login_service[OF assms(1,2)]
    rotate_service[OF assms(1,2)] verify2FALogin_service[OF assms(1,2)]
    serve_signalling_service[OF assms(1)] quiet_keeps[OF requestPasswordReset_quiet assms(1)]
    quiet_keeps[OF confirmPasswordReset_quiet assms(1)] quiet_keeps[OF quiet_refl assms(1)]
  by (cases ep) (auto simp: serve_public_def Let_def)

lemma serve_user_keeps:
  assumes "service_inv s" and "fresh_draws (wd_env w) s"
  shows "keeps now s (fst (serve_user w now ep vs r u s))"
proof -
  note q = quiet_keeps[OF _ assms(1)]
  have s: "keeps now s s" by (rule q) simp
  note ids = fresh_draws_ids[OF assms(2)]
  show ?thesis
    by (cases ep)
      (simp_all add: serve_user_def Let_def read_only_quiet s logout_service[OF assms(1)]
        q[OF quiet_handlers(1)] q[OF quiet_handlers(2)] q[OF quiet_handlers(5)]
        q[OF quiet_handlers(6)] q[OF quiet_handlers(7)] q[OF quiet_handlers(8)]
        q[OF quiet_handlers(9)] q[OF quiet_handlers(10)] q[OF quiet_handlers(11)]
        q[OF quiet_handlers(12)] q[OF quiet_handlers(13)] q[OF quiet_handlers(14)]
        q[OF quiet_handlers(15)] q[OF quiet_handlers(16)] q[OF quiet_handlers(17)]
        q[OF quiet_handlers(18)] listOrganizations_def listWorkflows_def
        registerDevice_service[OF assms(1) ids(2)] revokeDevice_service[OF assms(1)]
        requestSession_service[OF assms(1) ids(1)] decideSession_service[OF assms(1)]
        changePermissions_service[OF assms(1)] handover_service[OF assms(1)]
        stopSession_service[OF assms(1)])
qed

lemma auth_keeps:
  assumes "service_inv s" and "\<And>u. keeps now s (fst (h u s))"
  shows "keeps now s (fst (auth e now r h s))"
  using assms by (auto simp: auth_def keeps_def split: sum.split)

lemma dispatch_keeps:
  assumes "service_inv s" and "fresh_draws (wd_env w) s"
  shows "keeps now s (fst (dispatch w now r s))"
proof -
  have s: "keeps now s s" using assms(1) by (simp add: keeps_def)
  show ?thesis
    using serve_public_keeps[OF assms] serve_user_keeps[OF assms] auth_keeps[OF assms(1)] s
    by (simp add: dispatch_def Let_def split: option.split prod.split)
qed

end
