(* ===== verification/Service_Run.thy ===== *)
theory Service_Run
  imports Service_Inv "HOL-Library.Multiset"
begin

text \<open>
  The service as a transition system. A step is the admission of a request, the dispatch of an
  admitted request (other steps may come in between), a phase of a registration or a login around its
  password hash, an event of a websocket connection, or a change of the iteration order of the Go
  maps. Every step keeps the invariant, and every request moves the sessions along their lifecycle.
\<close>

section \<open>Iteration order\<close>

text \<open>Two association lists for the same Go map.\<close>

definition same_map :: "('k, 'v) gomap \<Rightarrow> ('k, 'v) gomap \<Rightarrow> bool" where
  "same_map m m' \<longleftrightarrow> wf_map m' \<and> set m' = set m \<and> length m' = length m"

lemma same_map_refl [simp]: "wf_map m \<Longrightarrow> same_map m m"
  by (simp add: same_map_def)

lemma same_map_get: "same_map m m' \<Longrightarrow> wf_map m \<Longrightarrow> get m' k = get m k"
  using wf_map_get[of m k] wf_map_get[of m' k] option.expand[of "get m' k" "get m k"]
  unfolding same_map_def by (metis option.exhaust)

lemma same_map_mset: "same_map m m' \<Longrightarrow> wf_map m \<Longrightarrow> mset m' = mset m"
  unfolding same_map_def wf_map_def
  by (metis distinct_map set_eq_iff_mset_eq_distinct)

lemma same_map_count:
  assumes "same_map m m'" and "wf_map m"
  shows "count_map P m' = count_map P m"
proof -
  have "mset (filter P (vals m')) = mset (filter P (vals m))"
    using same_map_mset[OF assms] by simp
  then show ?thesis unfolding count_map_def by (metis size_mset)
qed

lemma same_map_all: "same_map m m' \<Longrightarrow> all_map P m' = all_map P m"
  by (simp add: same_map_def all_map_def list_all_iff)

definition reordered :: "'st service \<Rightarrow> 'st service \<Rightarrow> bool" where
  "reordered s s' \<longleftrightarrow>
     (\<exists>as ems ts ds m cs ps rs.
        s' = s\<lparr>sv_accounts := as, sv_emails := ems, sv_refresh := ts, sv_devices := ds,
               sv_sessions := m, sv_challenges := cs, sv_peers := ps, sv_rates := rs\<rparr> \<and>
        same_map (sv_accounts s) as \<and> same_map (sv_emails s) ems \<and>
        same_map (sv_refresh s) ts \<and> same_map (sv_devices s) ds \<and>
        same_map (sv_sessions s) m \<and> set cs = set (sv_challenges s) \<and>
        same_map (sv_peers s) ps \<and> same_map (sv_rates s) rs)"

lemma same_map_table:
  assumes "same_map m m'" and "table_inv m"
  shows "table_inv m'"
proof -
  note wf = table_invD(2)[OF assms(2)]
  have "rows_ok m'"
    using table_invD(1)[OF assms(2)] assms(1) same_map_all[OF assms(1)]
    by (simp add: rows_ok_def same_map_def)
  moreover have "one_controller m'" "one_open m'" "open_limit m'"
    using table_invD(3-5)[OF assms(2)]
    unfolding one_controller_def one_open_def open_limit_def same_map_get[OF assms(1) wf]
      same_map_count[OF assms(1) wf] by - assumption+
  ultimately show ?thesis by (simp add: table_inv_def)
qed

lemma linked_cong: "(\<And>k. get ds' k = get ds k) \<Longrightarrow> linked ds' v = linked ds v"
  by (simp add: linked_def)

lemma reordered_inv:
  assumes inv: "service_inv s" and "reordered s s'"
  shows "service_inv s'"
proof -
  from assms(2) obtain as ems ts ds m cs ps rs where
    s': "s' = s\<lparr>sv_accounts := as, sv_emails := ems, sv_refresh := ts, sv_devices := ds,
               sv_sessions := m, sv_challenges := cs, sv_peers := ps, sv_rates := rs\<rparr>"
    and p: "same_map (sv_accounts s) as" "same_map (sv_emails s) ems"
      "same_map (sv_refresh s) ts" "same_map (sv_devices s) ds" "same_map (sv_sessions s) m"
      "same_map (sv_peers s) ps" "same_map (sv_rates s) rs"
    unfolding reordered_def by blast
  note i = service_invD[OF inv]
  have get: "get as k = get (sv_accounts s) k" "get ems k = get (sv_emails s) k"
    "get ts k = get (sv_refresh s) k" "get ds k = get (sv_devices s) k" for k
    using same_map_get[OF p(1)] same_map_get[OF p(2)] same_map_get[OF p(3)]
      same_map_get[OF p(4)] account_invD(1,2)[OF i(1)] token_invD(1)[OF i(2)]
      device_invD(1)[OF i(3)] by simp_all
  have wf: "wf_map as" "wf_map ems" "wf_map ts" "wf_map ds" "wf_map ps" "wf_map rs"
    using p by (simp_all add: same_map_def)
  have "account_inv as ems" "token_inv ts"
    using i(1,2) wf unfolding account_inv_def token_inv_def get by blast+
  moreover have "device_inv ds"
    using i(3) wf unfolding device_inv_def get same_map_all[OF p(4)]
      same_map_count[OF p(4) device_invD(1)[OF i(3)]] by blast
  moreover have "table_inv m" by (rule same_map_table[OF p(5) i(4)])
  moreover have "link_inv ds m"
    using i(5) same_map_all[OF p(5)] linked_cong[of ds "sv_devices s"]
    by (simp add: link_inv_def get)
  moreover have "conn_inv ps (sv_conns s)"
    using i(6) wf same_map_all[OF p(6)] by (simp add: conn_inv_def)
  ultimately show ?thesis
    using i(7,8) wf by (simp add: service_inv_def s')
qed

section \<open>Steps and reachable states\<close>

text \<open>The clock shows an instant after 1970. A dispatched registration or login may run as one step or in
  phases, since the mutex is free while the password is hashed: it takes a slot, draws the salt, and
  then either is refused or enters its critical section, and the slot is given back. A login has looked
  its account up before the hash; accounts are never removed and keep identifier and password.\<close>

definition still_there :: "account option \<Rightarrow> 'st service \<Rightarrow> bool" where
  "still_there found s \<longleftrightarrow>
     (case found of None \<Rightarrow> True
      | Some a \<Rightarrow> (case get (sv_accounts s) (a_ID a) of None \<Rightarrow> False
          | Some a' \<Rightarrow> a_ID a' = a_ID a \<and> a_Password a' = a_Password a))"

inductive service_step :: "'st world \<Rightarrow> 'st service \<Rightarrow> 'st service \<Rightarrow> bool" for w where
  admission: "0 \<le> now \<Longrightarrow> service_step w s (fst (admit (wd_env w) now r s))"
| dispatching: "0 \<le> now \<Longrightarrow> fresh_draws (wd_env w) s \<Longrightarrow>
    service_step w s (fst (dispatch w now r s))"
| taking_slot: "authSlot s = Some s' \<Longrightarrow> service_step w s s'"
| hashing: "0 < sv_authSlots s \<Longrightarrow> service_step w s (snd (hashPassword (wd_env w) raw s))"
| registering: "0 \<le> now \<Longrightarrow> 0 < sv_authSlots s \<Longrightarrow> fresh_draws (wd_env w) s \<Longrightarrow>
    \<not> register_invalid (wd_env w) email q \<Longrightarrow> matches (wd_env w) p (rg_Password q) \<Longrightarrow>
    service_step w s (releaseSlot (fst (register_insert (wd_env w) now email (rg_Name q) p s)))"
| logging_in: "0 \<le> now \<Longrightarrow> 0 < sv_authSlots s \<Longrightarrow> fresh_draws (wd_env w) s \<Longrightarrow>
    still_there found s \<Longrightarrow>
    service_step w s (releaseSlot (fst (login_finish (wd_env w) now q found s)))"
| framing: "service_step w s (fst (sig_frame i p f s))"
| draining: "service_step w s (fst (sig_drain p s))"
| closing: "service_step w s (sig_close i p s)"
| reordering: "reordered s s' \<Longrightarrow> service_step w s s'"

inductive reachable :: "'st world \<Rightarrow> 'st service \<Rightarrow> bool" for w where
  start: "NewWithStore key st = Some s \<Longrightarrow> reachable w (fst (ConfigureICE urls secret s))"
| step: "reachable w s \<Longrightarrow> service_step w s s' \<Longrightarrow> reachable w s'"

lemma sig_other_fields:
  "sv_accounts (fst (sig_frame i p f s)) = sv_accounts s"
  "sv_emails (fst (sig_frame i p f s)) = sv_emails s"
  "sv_refresh (fst (sig_frame i p f s)) = sv_refresh s"
  "sv_devices (fst (sig_frame i p f s)) = sv_devices s"
  "sv_sessions (fst (sig_frame i p f s)) = sv_sessions s"
  "sv_audit (fst (sig_frame i p f s)) = sv_audit s"
  "sv_authSlots (fst (sig_frame i p f s)) = sv_authSlots s"
  "sv_rates (fst (sig_frame i p f s)) = sv_rates s"
  "sv_accounts (fst (sig_drain p s)) = sv_accounts s"
  "sv_emails (fst (sig_drain p s)) = sv_emails s"
  "sv_refresh (fst (sig_drain p s)) = sv_refresh s"
  "sv_devices (fst (sig_drain p s)) = sv_devices s"
  "sv_sessions (fst (sig_drain p s)) = sv_sessions s"
  "sv_audit (fst (sig_drain p s)) = sv_audit s"
  "sv_authSlots (fst (sig_drain p s)) = sv_authSlots s"
  "sv_rates (fst (sig_drain p s)) = sv_rates s"
  "sv_accounts (sig_close i p s) = sv_accounts s"
  "sv_emails (sig_close i p s) = sv_emails s"
  "sv_refresh (sig_close i p s) = sv_refresh s"
  "sv_devices (sig_close i p s) = sv_devices s"
  "sv_sessions (sig_close i p s) = sv_sessions s"
  "sv_audit (sig_close i p s) = sv_audit s"
  "sv_authSlots (sig_close i p s) = sv_authSlots s"
  "sv_rates (sig_close i p s) = sv_rates s"
  by (simp_all add: sig_frame_def sig_drain_def sig_close_def Let_def
      split: frame.split option.split list.split)

lemma service_step_inv: "service_step w s s' \<Longrightarrow> service_inv s \<Longrightarrow> service_inv s'"
proof (induction rule: service_step.induct)
  case (admission now s r)
  then show ?case using admit_keeps keeps_def by blast
next
  case (dispatching now s r)
  then show ?case using dispatch_keeps keeps_def by blast
next
  case (taking_slot s s')
  then show ?case by (auto simp: authSlot_Some service_inv_def)
next
  case (hashing s raw)
  then show ?case by (simp add: service_inv_def)
next
  case (registering now s email q p)
  then show ?case by (intro register_insert_service)
next
  case (logging_in now s found q)
  then show ?case by (intro login_finish_service)
next
  case (framing s i p f)
  then show ?case
    using sig_frame_inv[of s i p f] by (simp add: service_inv_def sig_other_fields)
next
  case (draining s p)
  then show ?case
    using sig_drain_inv[of s p] by (simp add: service_inv_def sig_other_fields)
next
  case (closing s i p)
  then show ?case
    using sig_close_inv[of s i p] by (simp add: service_inv_def sig_other_fields)
qed (rule reordered_inv)

lemma start_inv:
  assumes "NewWithStore key st = Some s"
  shows "service_inv (fst (ConfigureICE urls secret s))"
  using NewWithStore_inv[OF assms]
  by (simp add: ConfigureICE_def service_inv_def split: option.split)

lemma reachable_inv: "reachable w s \<Longrightarrow> service_inv s"
  by (induction rule: reachable.induct) (auto intro: start_inv service_step_inv)

section \<open>A whole request\<close>

lemma serve_cases:
  obtains (Refused) "fst (serve w now r s) = fst (admit (wd_env w) now r s)"
      "snd (serve w now r s) = Reply 429 (JError ''too many requests'')"
      "\<not> snd (admit (wd_env w) now r s)"
  | (Admitted) "serve w now r s = dispatch w now r (fst (admit (wd_env w) now r s))"
      "snd (admit (wd_env w) now r s)"
  by (cases "snd (admit (wd_env w) now r s)")
    (auto simp: serve_def split_def Let_def fail_def)

lemma serve_inv:
  assumes "service_inv s" and "fresh_draws (wd_env w) (fst (admit (wd_env w) now r s))"
  shows "service_inv (fst (serve w now r s))"
    and "(table_step now)\<^sup>*\<^sup>* (sv_sessions s) (sv_sessions (fst (serve w now r s)))"
proof -
  note a = admit_keeps[OF assms(1), of now "wd_env w" r]
  have "service_inv (fst (serve w now r s)) \<and>
    (table_step now)\<^sup>*\<^sup>* (sv_sessions s) (sv_sessions (fst (serve w now r s)))"
  proof (cases rule: serve_cases[of w now r s])
    case Refused
    with a show ?thesis by (auto simp: keeps_def)
  next
    case Admitted
    from dispatch_keeps[OF _ assms(2), of now r] a show ?thesis
      unfolding Admitted(1)
      by (auto simp: keeps_def intro: rtranclp.rtrancl_into_rtrancl[OF r_into_rtranclp])
  qed
  then show "service_inv (fst (serve w now r s))"
    and "(table_step now)\<^sup>*\<^sup>* (sv_sessions s) (sv_sessions (fst (serve w now r s)))" by blast+
qed

text \<open>A path of table steps is a path of steps for each session.\<close>

lemma table_steps_get:
  assumes "(table_step now)\<^sup>*\<^sup>* m m'" and "get m k = Some v"
  shows "\<exists>v'. get m' k = Some v' \<and> (session_step now)\<^sup>*\<^sup>* v v'"
  using assms
proof (induction rule: rtranclp_induct)
  case (step m1 m2)
  then obtain v1 where v1: "get m1 k = Some v1" "(session_step now)\<^sup>*\<^sup>* v v1" by blast
  from step.hyps(2) show ?case
  proof cases
    case settle
    from settles_get_fwd[OF this v1(1)] v1(2) show ?thesis
      by (auto simp: moves_def intro: rtranclp.rtrancl_into_rtrancl)
  next
    case (request w)
    with v1 show ?thesis by (auto simp: map_add_Some_iff)
  qed
qed auto

lemma table_steps_back:
  assumes "(table_step now)\<^sup>*\<^sup>* m m'" and "get m' k = Some v'"
  shows "\<exists>v. (session_step now)\<^sup>*\<^sup>* v v' \<and> (get m k = Some v \<or> (get m k = None \<and> initial_session now v))"
  using assms
proof (induction arbitrary: v' rule: rtranclp_induct)
  case base
  then show ?case by auto
next
  case (step m1 m2)
  from step.hyps(2) show ?case
  proof cases
    case settle
    from settles_get_bwd[OF this step.prems] obtain v1 where "get m1 k = Some v1"
      "moves now v1 v'" by blast
    with step.IH show ?thesis
      by (auto simp: moves_def) (meson rtranclp.rtrancl_into_rtrancl)+
  next
    case (request w)
    show ?thesis
    proof (cases "get m1 k")
      case (Some v1)
      with request step.prems have "v' = v1" by (auto simp: map_add_Some_iff)
      with step.IH[of v1] Some show ?thesis by simp
    next
      case None
      have "get m k = None"
        using table_steps_get[OF step.hyps(1), of k] None by (cases "get m k") auto
      moreover from None request step.prems have "initial_session now v'"
        by (auto split: if_splits)
      ultimately show ?thesis by blast
    qed
  qed
qed

end
