(* ===== verification/Demo_State.thy ===== *)
theory Demo_State
  imports Service_Run
begin

text \<open>
  A concrete service for the witnesses: Ann and Bob have an account and a connected device each,
  Bob's device has two sessions requested by Ann and by Carol, and every party holds a challenge.
  The facts below evaluate the invariant and the side conditions of the properties on it.
\<close>

section \<open>The state\<close>

definition demo_key :: string where
  "demo_key = replicate 32 (CHR ''k'')"

definition demo_pk :: "char \<Rightarrow> string" where
  "demo_pk c = StdEncode (replicate 32 c)"

definition demo_account :: "string \<Rightarrow> string \<Rightarrow> string \<Rightarrow> account" where
  "demo_account i em pw =
     \<lparr>a_ID = i, a_Email = em, a_Name = i, a_Password = \<lparr>pw_Salt = [], pw_Hash = pw\<rparr>,
      a_Version = 0\<rparr>"

definition demo_device :: "string \<Rightarrow> string \<Rightarrow> char \<Rightarrow> Device" where
  "demo_device i owner c =
     \<lparr>d_ID = i, d_Name = i, d_OwnerID = owner, d_PublicKey = demo_pk c, d_OS = ''Windows 11'',
      d_DeviceType = ''pc'', d_LastSeen = 0, d_Revoked = False, d_Online = False,
      d_Unattended = False\<rparr>"

definition demo_session ::
  "string \<Rightarrow> string \<Rightarrow> string \<Rightarrow> char \<Rightarrow> string \<Rightarrow> Permission list \<Rightarrow> Session" where
  "demo_session i op src c st g =
     \<lparr>s_ID = i, s_OperatorID = op, s_SourceID = src, s_TargetID = ''dev-bob'', s_State = st,
      s_Requested = [''view'', ''mouse''], s_Granted = g, s_Created = 0, s_Expires = hour,
      s_Epoch = 1, s_SourcePublicKey = demo_pk c, s_TargetPublicKey = demo_pk (CHR ''b'')\<rparr>"

definition demo_token :: "string \<Rightarrow> bool \<Rightarrow> refreshToken" where
  "demo_token u used =
     \<lparr>r_UserID = u, r_Family = ''family-'' @ u, r_Expires = 24 * hour, r_Used = used\<rparr>"

definition demo_peer :: peer where
  "demo_peer = \<lparr>p_socket = True, p_send = [], p_cap = channel_size\<rparr>"

text \<open>Ann's session is pending, Carol's is active and controls Bob's device.\<close>

definition demo_service :: "MemoryStore service" where
  "demo_service =
     \<lparr>sv_key = demo_key, sv_store = Some NewMemoryStore,
      sv_accounts = [(''ann'', demo_account ''ann'' ''ann@x.org'' ''ann-password''),
                     (''bob'', demo_account ''bob'' ''bob@x.org'' ''bob-password''),
                     (''carol'', demo_account ''carol'' ''carol@x.org'' ''carol-password'')],
      sv_emails = [(''ann@x.org'', ''ann''), (''bob@x.org'', ''bob''), (''carol@x.org'', ''carol'')],
      sv_refresh = [(''746f6b656e2d616e6e'', demo_token ''ann'' False),
                    (''746f6b656e2d626f62'', demo_token ''bob'' True)],
      sv_devices = [(''dev-ann'', demo_device ''dev-ann'' ''ann'' (CHR ''a'')),
                    (''dev-bob'', demo_device ''dev-bob'' ''bob'' (CHR ''b'')),
                    (''dev-carol'', demo_device ''dev-carol'' ''carol'' (CHR ''c''))],
      sv_sessions =
        [(''s-ann'', demo_session ''s-ann'' ''ann'' ''dev-ann'' (CHR ''a'') ''pending'' []),
         (''s-carol'', demo_session ''s-carol'' ''carol'' ''dev-carol'' (CHR ''c'') ''active''
                        [''view'', ''mouse''])],
      sv_challenges = [(''n-ann'', \<lparr>ch_User = ''ann'', ch_Expires = minute\<rparr>),
                       (''n-bob'', \<lparr>ch_User = ''bob'', ch_Expires = minute\<rparr>)],
      sv_peers = [(''dev-ann'', 0), (''dev-bob'', 1), (''dev-carol'', 2)],
      sv_conns = [(0, demo_peer), (1, demo_peer), (2, demo_peer)],
      sv_sequences = [], sv_rates = [], sv_audit = [], sv_authSlots = 0, sv_iceURLs = [],
      sv_turnSecret = [], sv_closing = [], sv_entropy = 0\<rparr>"

definition demo_request :: "string \<Rightarrow> string \<Rightarrow> string \<Rightarrow> char \<Rightarrow> http_request" where
  "demo_request meth path nonce c =
     \<lparr>rq_Method = meth, rq_Path = path, rq_EscapedPath = path,
      rq_Header = [(''X-Device-Nonce'', nonce), (''X-Device-Signature'', demo_pk c)],
      rq_RemoteAddr = ''host'', rq_DeviceQuery = [], rq_Body = []\<rparr>"

definition demo_json :: json_codec where
  "demo_json =
     \<lparr>jc_register = (\<lambda>_. BadJson), jc_login = (\<lambda>_. BadJson), jc_refresh_token = (\<lambda>_. BadJson),
      jc_device = (\<lambda>_. BadJson), jc_session = (\<lambda>_. BadJson),
      jc_decision = (\<lambda>_. OneObject \<lparr>dr_Approve = True, dr_Permissions = [''view'']\<rparr>),
      jc_permissions = (\<lambda>_. BadJson), jc_code = (\<lambda>_. BadJson), jc_email = (\<lambda>_. BadJson),
      jc_reset = (\<lambda>_. BadJson), jc_totp_login = (\<lambda>_. BadJson), jc_password = (\<lambda>_. BadJson),
      jc_name = (\<lambda>_. BadJson), jc_invite = (\<lambda>_. BadJson), jc_role = (\<lambda>_. BadJson),
      jc_workflow = (\<lambda>_. BadJson), jc_analysis = (\<lambda>_. BadJson)\<rparr>"

definition demo_world :: "MemoryStore world" where
  "demo_world =
     \<lparr>wd_env = demo_env, wd_json = demo_json, wd_store = memory_ops,
      wd_provider = (\<lambda>_ _. AI_Failed), wd_apiKey = [], wd_handshake = (\<lambda>_. None)\<rparr>"

section \<open>What holds of it\<close>

lemma demo_pk_inj [simp]: "demo_pk c = demo_pk d \<longleftrightarrow> c = d"
proof
  assume "demo_pk c = demo_pk d"
  then have "StdDecode (demo_pk c) = StdDecode (demo_pk d)" by simp
  then have "replicate 32 c = replicate 32 d" by (simp only: demo_pk_def StdDecode_StdEncode option.inject)
  then have "hd (replicate 32 c) = hd (replicate 32 d)" by simp
  then show "c = d" by simp
qed simp

lemma demo_perms: "validPermissions [''view'', ''mouse'']" "validPermissions [''view'']"
  by (simp_all add: validPermissions_sets perm_names permissions_def)

lemma demo_inv: "service_inv demo_service"
  unfolding service_inv_def
proof (intro conjI)
  show "account_inv (sv_accounts demo_service) (sv_emails demo_service)"
    by (simp add: demo_service_def account_inv_def wf_map_def demo_account_def)
  show "token_inv (sv_refresh demo_service)"
    by (simp add: demo_service_def token_inv_def wf_map_def demo_token_def)
  show "device_inv (sv_devices demo_service)"
    by (simp add: demo_service_def device_inv_def wf_map_def all_map_def demo_device_def
        count_map_def)
  show "table_inv (sv_sessions demo_service)"
    by (simp add: demo_service_def table_inv_def rows_ok_def wf_map_def all_map_def
        one_controller_def one_open_def open_limit_def count_map_def demo_session_def
        session_ok_def demo_perms open_session_def controlling_def)
  show "link_inv (sv_devices demo_service) (sv_sessions demo_service)"
    by (simp add: demo_service_def link_inv_def all_map_def linked_def demo_session_def
        demo_device_def)
  show "conn_inv (sv_peers demo_service) (sv_conns demo_service)"
    by (simp add: demo_service_def conn_inv_def wf_map_def all_map_def demo_peer_def)
qed (simp_all add: demo_service_def)

text \<open>Every identifier the demonstration draws is longer than the identifiers in use.\<close>

lemma b64_encode_longer: "length s \<le> length (b64_encode A pad s)"
proof (induction A pad s rule: b64_encode.induct)
  case (4 A pad a b c xs)
  from 4[OF refl refl refl] show ?case by (simp add: Let_def)
qed (simp_all add: Let_def)

lemma b64_encode_bound: "length (b64_encode A pad s) \<le> 2 * length s + 2"
proof (induction A pad s rule: b64_encode.induct)
  case (4 A pad a b c xs)
  from 4[OF refl refl refl] show ?case by (simp add: Let_def)
qed (simp_all add: Let_def)

lemma demo_key_length: "length (b64_encode A pad demo_key) \<le> 4054"
  by (rule order_trans[OF b64_encode_bound]) (simp add: demo_key_def)

lemma demo_drawn: "n \<le> length (drawn demo_env n i)"
proof -
  have "n \<le> length (rand_bytes demo_env i n)" by (simp add: demo_env_def)
  then show ?thesis
    unfolding drawn_def RawURLEncode_def by (rule order_trans) (rule b64_encode_longer)
qed

lemma demo_drawn_neq: "length x < n \<Longrightarrow> x \<noteq> drawn demo_env n i \<and> drawn demo_env n i \<noteq> x"
  using demo_drawn[of n i] by auto

lemma hex_encode_length: "length (hex_encode s) = 2 * length s"
  by (induction s) simp_all

lemma demo_digest_neq: "length x < 64 \<Longrightarrow> x \<noteq> digest demo_env (drawn demo_env 32 i)"
  using demo_drawn[of 32 i] by (auto simp: digest_def hex_encode_length demo_env_def)

text \<open>Any state whose tables hold short identifiers only.\<close>

definition short_ids :: "'st service \<Rightarrow> bool" where
  "short_ids s \<longleftrightarrow>
     list_all (\<lambda>(k, _). length k < 12) (sv_accounts s) \<and>
     list_all (\<lambda>(k, _). length k < 12) (sv_sessions s) \<and>
     list_all (\<lambda>(k, _). length k < 12) (sv_devices s) \<and>
     list_all (\<lambda>(k, t). length k < 64 \<and> length (r_Family t) < 24) (sv_refresh s)"

lemma short_get: "list_all (\<lambda>(k, _). length k < 12) m \<Longrightarrow> 12 \<le> n \<Longrightarrow> get m (drawn demo_env n i) = None"
  by (induction m) (use demo_drawn_neq in \<open>force+\<close>)

lemma short_fresh:
  assumes "short_ids s"
  shows "fresh_draws demo_env s"
proof -
  have "fresh_draw demo_env s i" for i
  proof -
    have "drawn demo_env 18 i \<noteq> []" using demo_drawn[of 18 i] by auto
    moreover have "get (sv_accounts s) (drawn demo_env 18 i) = None"
      "get (sv_sessions s) (drawn demo_env 18 i) = None"
      "get (sv_devices s) (drawn demo_env 12 i) = None"
      using assms by (simp_all add: short_ids_def short_get)
    moreover have "get m (digest demo_env (drawn demo_env 32 i)) = None \<and>
        all_map (\<lambda>h t. r_Family t \<noteq> drawn demo_env 24 i) m"
      if "list_all (\<lambda>(k, t). length k < 64 \<and> length (r_Family t) < 24) m" for m
      using that
    proof (induction m)
      case (Cons e m)
      then show ?case
        using demo_digest_neq[of "fst e" i] demo_drawn_neq[of "r_Family (snd e)" 24 i]
        by (cases e) (auto simp: all_map_def)
    qed simp
    moreover have "list_all (\<lambda>(k, t). length k < 64 \<and> length (r_Family t) < 24) (sv_refresh s)"
      using assms by (simp add: short_ids_def)
    ultimately show ?thesis unfolding fresh_draw_def by blast
  qed
  then show ?thesis by (simp add: fresh_draws_def list_all_iff)
qed

lemma demo_short: "short_ids demo_service"
  by (simp add: short_ids_def demo_service_def demo_token_def)

lemma short_ids_admit:
  assumes "service_inv s" and "short_ids s"
  shows "short_ids (fst (admit e now r s))"
proof -
  have f: "list_all P (filter Q m)" if "list_all P m"
    for P and Q :: "string \<times> refreshToken \<Rightarrow> bool" and m
    using that by (auto simp: list_all_iff)
  have g: "list_all (\<lambda>(k, _). length k < 12) (each h m)"
    if "list_all (\<lambda>(k, _). length k < 12) m" for m :: session_table and h
    using that by (auto simp: each_def list_all_iff)
  have "list_all (\<lambda>(k, _). length k < 12) (sv_sessions (expire e now s))"
    using assms(2)
    by (simp add: expire_sessions[OF table_invD(2)[OF service_invD(4)[OF assms(1)]]] g short_ids_def)
  moreover have "list_all (\<lambda>(k, t). length k < 64 \<and> length (r_Family t) < 24)
      (sv_refresh (expire e now s))"
    unfolding expire_refresh by (rule f) (use assms(2) in \<open>simp add: short_ids_def\<close>)
  ultimately show ?thesis
    using assms(2) by (simp add: short_ids_def admit_state)
qed

lemma demo_admit_fresh: "fresh_draws demo_env (fst (admit demo_env now r demo_service))"
  by (intro short_fresh short_ids_admit demo_inv demo_short)

section \<open>Authenticated calls\<close>

definition demo_call :: "string \<Rightarrow> string \<Rightarrow> string \<Rightarrow> string \<Rightarrow> char \<Rightarrow> http_request" where
  "demo_call user meth path nonce c =
     (demo_request meth path nonce c)\<lparr>rq_Header :=
        (''Authorization'', ''Bearer '' @ Sign demo_env demo_key user 0 0) #
        rq_Header (demo_request meth path nonce c)\<rparr>"

definition demo_admitted :: "http_request \<Rightarrow> MemoryStore service" where
  "demo_admitted r =
     demo_service\<lparr>sv_rates := [(rate_key demo_env r, \<lparr>rl_Count = 1, rl_Until = minute\<rparr>)]\<rparr>"

lemma demo_expire: "expire demo_env 0 demo_service = demo_service"
  by (simp add: expire_def end_where_def demo_service_def demo_session_def demo_token_def
      hour_def minute_def second_def)

lemma demo_admit: "admit demo_env 0 r demo_service = (demo_admitted r, True)"
proof -
  have "sv_rates demo_service = []" by (simp add: demo_service_def)
  then show ?thesis
    by (simp add: admit_def demo_expire demo_admitted_def count_request_def no_rate_def
        zero_time_def rate_limit_def minute_def second_def Let_def)
qed

lemma demo_verify:
  assumes "u \<noteq> []" and "length (Sign demo_env demo_key u 0 0) \<le> 4096"
    and "map_option a_Version (get (sv_accounts s) u) = Some 0" and "sv_key s = demo_key"
  shows "verifyAccess demo_env 0 (Sign demo_env demo_key u 0 0) s = Some u"
proof -
  have "unmarshal_claims demo_env (marshal_claims demo_env (issued_claims u 0 0)) =
      Some (issued_claims u 0 0)"
    by (simp add: demo_env_def issued_claims_def)
  from Verify_Sign[OF this assms(1,2), of 0]
  have "Verify demo_env demo_key (Sign demo_env demo_key u 0 0) 0 = Inr (issued_claims u 0 0)"
    by (simp add: unix_seconds_def)
  with assms(3,4) show ?thesis by (auto simp: verifyAccess_def issued_claims_def)
qed

lemma demo_tokens:
  "verifyAccess demo_env 0 (Sign demo_env demo_key ''ann'' 0 0) demo_service = Some ''ann''"
  "verifyAccess demo_env 0 (Sign demo_env demo_key ''bob'' 0 0) demo_service = Some ''bob''"
  by (rule demo_verify; simp add: Sign_def demo_env_def Let_def RawURLEncode_def jwt_header_def
        demo_service_def demo_account_def demo_key_length)+

lemma verifyAccess_rates: "verifyAccess e now t (s\<lparr>sv_rates := x\<rparr>) = verifyAccess e now t s"
  by (simp add: verifyAccess_def cong: sum.case_cong option.case_cong)

lemma demo_auth:
  assumes "user = ''ann'' \<or> user = ''bob''"
  shows "auth_user demo_env 0 (demo_call user m p n c) (demo_admitted r) = Inr user"
proof -
  have h: "header_of (demo_call user m p n c) ''Authorization'' =
      ''Bearer '' @ Sign demo_env demo_key user 0 0"
    by (simp add: demo_call_def header_of_def)
  have "verifyAccess demo_env 0 (Sign demo_env demo_key user 0 0) (demo_admitted r) = Some user"
    using assms demo_tokens unfolding demo_admitted_def verifyAccess_rates by blast
  moreover have "get (sv_accounts (demo_admitted r)) user \<noteq> None"
    using assms by (auto simp: demo_admitted_def demo_service_def)
  ultimately show ?thesis
    unfolding auth_user_def h Let_def by (simp del: append_Cons append.append_Cons)
qed

text \<open>A call of an authenticated endpoint is its handler on the admitted state.\<close>

lemma demo_serve:
  assumes "clean_path (raw_segments r)"
    and "find_route routes (rq_Method r) (path_segments r) = Some (ep, vs)"
    and "serve_public demo_world 0 ep r (demo_admitted r) = None"
    and "auth_user demo_env 0 r (demo_admitted r) = Inr user"
  shows "serve demo_world 0 r demo_service =
    serve_user demo_world 0 ep vs r user (demo_admitted r)"
  using assms by (simp add: serve_def dispatch_def auth_def demo_world_def demo_admit Let_def)

lemma demo_fresh: "fresh_draws (wd_env demo_world) (fst (admit (wd_env demo_world) 0 r demo_service))"
  unfolding demo_world_def world.select_convs by (rule demo_admit_fresh)

text \<open>Bob approves Ann's session, view only.\<close>

definition demo_approval :: http_request where
  "demo_approval =
     demo_call ''bob'' ''POST'' ''/v1/sessions/s-ann/decision'' ''n-bob'' (CHR ''b'')"

lemma demo_approval_decides:
  "serve demo_world 0 demo_approval demo_service =
    decideSession demo_env 0 demo_approval ''s-ann''
      (OneObject \<lparr>dr_Approve = True, dr_Permissions = [''view'']\<rparr>) ''bob''
      (demo_admitted demo_approval)"
proof -
  have "clean_path (raw_segments demo_approval)" by code_simp
  moreover have "find_route routes (rq_Method demo_approval) (path_segments demo_approval) =
      Some (EDecision, [''s-ann''])" by code_simp
  moreover have "auth_user demo_env 0 demo_approval (demo_admitted demo_approval) = Inr ''bob''"
    using demo_auth[of "''bob''"] by (simp add: demo_approval_def)
  ultimately have "serve demo_world 0 demo_approval demo_service =
      serve_user demo_world 0 EDecision [''s-ann''] demo_approval ''bob'' (demo_admitted demo_approval)"
    by (intro demo_serve) (simp_all add: serve_public_def)
  then show ?thesis
    by (simp add: serve_user_def demo_world_def demo_json_def Let_def)
qed

lemma demo_approval_session:
  "map_option (\<lambda>v. (s_State v, s_Granted v))
     (get (sv_sessions (fst (serve demo_world 0 demo_approval demo_service))) ''s-ann'') =
   Some (''active'', [''view''])"
  unfolding demo_approval_decides by code_simp

end
