(* ===== verification/Session_Consent.thy ===== *)
theory Session_Consent
  imports Service_Run
begin

text \<open>
  Who can widen the rights of a session. \<open>granted_at\<close> is what a session may do; every endpoint
  except the decision, the change of permissions and the handover leaves it or takes from it, and
  those three widen the rights of the one session they name, on the side of its target device.
\<close>

section \<open>Operations that grant nothing\<close>

definition granted_at :: "session_table \<Rightarrow> string \<Rightarrow> Permission set" where
  "granted_at m k = (case get m k of None \<Rightarrow> {} | Some v \<Rightarrow> set (s_Granted v))"

definition fewer_grants :: "session_table \<Rightarrow> session_table \<Rightarrow> bool" where
  "fewer_grants m m' \<longleftrightarrow> (\<forall>k. granted_at m' k \<subseteq> granted_at m k)"

lemma fewer_grants_refl [simp]: "fewer_grants m m"
  by (simp add: fewer_grants_def)

lemma fewer_grants_trans: "fewer_grants a b \<Longrightarrow> fewer_grants b c \<Longrightarrow> fewer_grants a c"
  by (fastforce simp: fewer_grants_def)

lemma fewer_grants_each:
  "(\<And>v. set (s_Granted (f v)) \<subseteq> set (s_Granted v)) \<Longrightarrow> fewer_grants m (each f m)"
  by (auto simp: fewer_grants_def granted_at_def get_each split: option.split)

lemma fewer_grants_adjust:
  "(\<And>v. get m k = Some v \<Longrightarrow> set (s_Granted (f v)) \<subseteq> set (s_Granted v)) \<Longrightarrow>
   fewer_grants m (adjust k f m)"
  by (auto simp: fewer_grants_def granted_at_def get_adjust split: option.split)

lemma fewer_grants_put: "s_Granted v = [] \<Longrightarrow> fewer_grants m (put m k v)"
  by (auto simp: fewer_grants_def granted_at_def get_put split: option.split)

lemma ended_grants [simp]: "s_Granted (ended st v) = []"
  by (simp add: ended_def)

lemma yield_grants: "set (s_Granted (yield_control v)) \<subseteq> set (s_Granted v)"
  by (auto simp: yield_control_def)

lemma expire_grants:
  "wf_map (sv_sessions s) \<Longrightarrow> fewer_grants (sv_sessions s) (sv_sessions (expire e now s))"
  by (simp add: expire_sessions fewer_grants_each)

lemma invalidate_grants:
  assumes "wf_map (sv_sessions s)"
  shows "fewer_grants (sv_sessions s) (sv_sessions (fst (invalidate e now u s)))"
proof (cases "get (sv_accounts s) u")
  case (Some a)
  show ?thesis
    unfolding invalidate_effect(3)[OF Some assms] by (rule fewer_grants_each) (simp add: closes_for_def)
qed (simp add: invalidate_unknown)

lemma rotate_grants:
  assumes "wf_map (sv_sessions s)"
  shows "fewer_grants (sv_sessions s) (sv_sessions (fst (rotate e now b s)))"
proof -
  obtain s' rep where d: "rotate e now b s = (s', rep)" by force
  from d have "fewer_grants (sv_sessions s) (sv_sessions s')"
  proof (cases rule: rotate_cases)
    case (Reuse token t s1 ok)
    from invalidate_grants[of "s\<lparr>sv_refresh := _\<rparr>" e now "r_UserID t"] assms Reuse(5)
    have "fewer_grants (sv_sessions s) (sv_sessions s1)" by (metis fst_conv service.select_convs(7)
          service.update_convs(5) service.surjective)
    then show ?thesis by (simp add: Reuse(6))
  qed simp_all
  with d show ?thesis by simp
qed

lemma logout_grants:
  assumes "wf_map (sv_sessions s)"
  shows "fewer_grants (sv_sessions s) (sv_sessions (fst (logout e now u s)))"
  using invalidate_grants[OF assms, of e now u] by (simp add: logout_def split_def Let_def)

lemma account_sessions:
  "sv_sessions (fst (register e now b1 s)) = sv_sessions s"
  "sv_sessions (fst (login e now b2 s)) = sv_sessions s"
  "sv_sessions (fst (verify2FALogin e now b3 s)) = sv_sessions s"
  "sv_sessions (fst (serve_signalling acc r s)) = sv_sessions s"
  by (auto simp: register_def register_locked_def register_insert_def login_def login_locked_def login_finish_def verify2FALogin_def
      serve_signalling_def sig_connect_def decode_def fail_def busy_def authSlot_def Let_def
      split_def split: json_body.split option.split connect_result.split)

lemma revokeDevice_grants:
  assumes "wf_map (sv_sessions s)"
  shows "fewer_grants (sv_sessions s) (sv_sessions (fst (revokeDevice e now k u s)))"
  by (auto simp: revokeDevice_def Let_def fail_def end_where_sessions assms fewer_grants_each
      split: option.split)

lemma requestSession_grants:
  "fewer_grants (sv_sessions s) (sv_sessions (fst (requestSession e now r b u s)))"
proof -
  obtain s' rep where d: "requestSession e now r b u s = (s', rep)" by force
  from d show ?thesis
    by (cases rule: requestSession_cases) (use d in \<open>auto intro: fewer_grants_put\<close>)
qed

lemma stopSession_grants:
  "fewer_grants (sv_sessions s) (sv_sessions (fst (stopSession e now k u s)))"
proof -
  obtain s' rep where d: "stopSession e now k u s = (s', rep)" by force
  from d show ?thesis
    by (cases rule: stopSession_cases) (use d in \<open>auto intro: fewer_grants_adjust\<close>)
qed

lemma quiet_grants: "quiet s s' \<Longrightarrow> fewer_grants (sv_sessions s) (sv_sessions s')"
  by (simp add: quiet_def)

section \<open>The three endpoints that grant\<close>

text \<open>What may be gained: permissions the session under \<open>k\<close> was requested with, by its target's
  side.\<close>

definition consented ::
  "env \<Rightarrow> time \<Rightarrow> http_request \<Rightarrow> string \<Rightarrow> string \<Rightarrow> 'st service \<Rightarrow> Permission \<Rightarrow> bool" where
  "consented e now r user k s p \<longleftrightarrow>
     (\<exists>v. get (sv_sessions s) k = Some v \<and> open_session v \<and> p \<in> set (s_Requested v) \<and>
          target_side e now r user v s)"

definition gains_at ::
  "session_table \<Rightarrow> session_table \<Rightarrow> string \<Rightarrow> (Permission \<Rightarrow> bool) \<Rightarrow> bool" where
  "gains_at m m' k P \<longleftrightarrow>
     (\<forall>j p. p \<in> granted_at m' j \<and> p \<notin> granted_at m j \<longrightarrow> j = k \<and> P p)"

lemma gains_fewer: "fewer_grants m m' \<Longrightarrow> gains_at m m' k P"
  by (auto simp: gains_at_def fewer_grants_def)

lemma gains_adjust:
  assumes "fewer_grants m m1" and "\<And>p. p \<in> set (s_Granted v) \<Longrightarrow> P p"
  shows "gains_at m (adjust k (\<lambda>_. v) m1) k P"
proof -
  have "granted_at (adjust k (\<lambda>_. v) m1) j \<subseteq> (if j = k then set (s_Granted v) else granted_at m1 j)"
    for j by (auto simp: granted_at_def get_adjust split: option.splits)
  note sub = this
  show ?thesis
    unfolding gains_at_def
  proof (intro allI impI, elim conjE)
    fix j p
    assume p: "p \<in> granted_at (adjust k (\<lambda>_. v) m1) j" "p \<notin> granted_at m j"
    have "j = k" using p sub[of j] assms(1) by (auto simp: fewer_grants_def split: if_splits)
    with p(1) sub[of j] assms(2) show "j = k \<and> P p" by auto
  qed
qed

lemma decideSession_gains:
  "gains_at (sv_sessions s) (sv_sessions (fst (decideSession e now r k b u s))) k
     (consented e now r u k s)"
proof -
  obtain s' rep where d: "decideSession e now r k b u s = (s', rep)" by force
  from d have "gains_at (sv_sessions s) (sv_sessions s') k (consented e now r u k s)"
  proof (cases rule: decideSession_cases)
    case (Approved q v)
    then show ?thesis
      by (auto intro!: gains_adjust simp: approved_def grantable_def consented_def open_session_def)
  qed (auto intro: gains_fewer gains_adjust)
  with d show ?thesis by simp
qed

lemma changePermissions_gains:
  "gains_at (sv_sessions s) (sv_sessions (fst (changePermissions e now r k b u s))) k
     (consented e now r u k s)"
proof -
  obtain s' rep where d: "changePermissions e now r k b u s = (s', rep)" by force
  from d have "gains_at (sv_sessions s) (sv_sessions s') k (consented e now r u k s)"
  proof (cases rule: changePermissions_cases)
    case (Regranted g v)
    then show ?thesis
      by (auto intro!: gains_adjust simp: regranted_def grantable_def consented_def
          open_session_def)
  qed (auto intro: gains_fewer gains_adjust)
  with d show ?thesis by simp
qed

lemma handover_gains:
  assumes "table_inv (sv_sessions s)"
  shows "gains_at (sv_sessions s) (sv_sessions (fst (handover e now r k u s))) k
     (consented e now r u k s)"
proof -
  obtain s' rep where d: "handover e now r k u s = (s', rep)" by force
  from d table_invD(2)[OF assms]
  have "gains_at (sv_sessions s) (sv_sessions s') k (consented e now r u k s)"
  proof (cases rule: handover_cases)
    case (Moved v)
    have "set (s_Granted v) \<subseteq> set (s_Requested v)"
      using table_inv_row[OF assms Moved(1)] by (simp add: session_ok_def)
    then have "set (s_Granted (handed_over v)) \<subseteq> set (s_Requested v)"
      unfolding handed_over_def by (simp add: grant_controls_subset)
    moreover have "fewer_grants (sv_sessions s) (yield_rivals v (sv_sessions s))"
      unfolding yield_rivals_def by (rule fewer_grants_each) (use yield_grants in auto)
    ultimately show ?thesis
      unfolding Moved(5)
      by (intro gains_adjust) (use Moved in \<open>auto simp: consented_def open_session_def\<close>)
  qed (auto intro: gains_fewer)
  with d show ?thesis by simp
qed

section \<open>A whole request\<close>

text \<open>The request is an authenticated call of one of the three endpoints on session \<open>k\<close>.\<close>

definition grants_through ::
  "'st world \<Rightarrow> time \<Rightarrow> http_request \<Rightarrow> 'st service \<Rightarrow> string \<Rightarrow> string \<Rightarrow> bool" where
  "grants_through w now r s user k \<longleftrightarrow>
     (\<exists>ep vs. find_route routes (rq_Method r) (path_segments r) = Some (ep, vs) \<and> vs ! 0 = k \<and>
        ep \<in> {EDecision, EPermissions, EHandover} \<and> auth_user (wd_env w) now r s = Inr user)"

lemma serve_public_grants:
  assumes "service_inv s" and "serve_public w now ep r s = Some out"
  shows "fewer_grants (sv_sessions s) (sv_sessions (fst out))"
  using assms(2) rotate_grants[OF table_invD(2)[OF service_invD(4)[OF assms(1)]]]
    quiet_grants[OF requestPasswordReset_quiet] quiet_grants[OF confirmPasswordReset_quiet]
  by (cases ep) (auto simp: serve_public_def Let_def account_sessions)

lemma serve_user_grants:
  assumes "service_inv s" and "ep \<notin> {EDecision, EPermissions, EHandover}"
  shows "fewer_grants (sv_sessions s) (sv_sessions (fst (serve_user w now ep vs r u s)))"
proof -
  note wf = table_invD(2)[OF service_invD(4)[OF assms(1)]]
  note q = quiet_grants
  show ?thesis
    using assms(2)
    by (cases ep)
      (simp_all add: serve_user_def Let_def read_only_quiet logout_grants[OF wf]
        q[OF quiet_handlers(1)] q[OF quiet_handlers(2)] q[OF quiet_handlers(5)]
        q[OF quiet_handlers(6)] q[OF quiet_handlers(7)] q[OF quiet_handlers(8)]
        q[OF quiet_handlers(9)] q[OF quiet_handlers(10)] q[OF quiet_handlers(11)]
        q[OF quiet_handlers(12)] q[OF quiet_handlers(13)] q[OF quiet_handlers(14)]
        q[OF quiet_handlers(15)] q[OF quiet_handlers(16)] q[OF quiet_handlers(17)]
        q[OF quiet_handlers(18)] listOrganizations_def listWorkflows_def
        revokeDevice_grants[OF wf] requestSession_grants stopSession_grants)
qed

lemma dispatch_gains:
  assumes inv: "service_inv s"
    and p: "p \<in> granted_at (sv_sessions (fst (dispatch w now r s))) k" "p \<notin> granted_at (sv_sessions s) k"
  shows "\<exists>user. grants_through w now r s user k \<and> consented (wd_env w) now r user k s p"
proof -
  have no: "\<not> fewer_grants (sv_sessions s) (sv_sessions (fst (dispatch w now r s)))"
    using p by (auto simp: fewer_grants_def)
  from no obtain ep vs where ep: "find_route routes (rq_Method r) (path_segments r) = Some (ep, vs)"
    "dispatch w now r s = (case serve_public w now ep r s of Some out \<Rightarrow> out
       | None \<Rightarrow> auth (wd_env w) now r (serve_user w now ep vs r) s)"
    by (auto simp: dispatch_def Let_def split: if_splits option.splits)
  have "serve_public w now ep r s = None"
    using no serve_public_grants[OF inv] by (auto simp: ep(2) split: option.splits)
  with ep(2) have a: "dispatch w now r s = auth (wd_env w) now r (serve_user w now ep vs r) s" by simp
  with no obtain user where u: "auth_user (wd_env w) now r s = Inr user"
    "dispatch w now r s = serve_user w now ep vs r user s"
    by (auto simp: auth_def split: sum.splits)
  have three: "ep \<in> {EDecision, EPermissions, EHandover}"
    using no serve_user_grants[OF inv] unfolding u(2) by blast
  have "gains_at (sv_sessions s) (sv_sessions (fst (dispatch w now r s))) (vs ! 0)
      (consented (wd_env w) now r user (vs ! 0) s)"
    using three decideSession_gains changePermissions_gains handover_gains[OF service_invD(4)[OF inv]]
    by (auto simp: u(2) serve_user_def Let_def)
  with p have "vs ! 0 = k" "consented (wd_env w) now r user k s p"
    unfolding gains_at_def by blast+
  with ep(1) three u(1) show ?thesis unfolding grants_through_def by blast
qed

end
