(* ===== verification/Ownership.thy ===== *)
theory Ownership
  imports Service_Run
begin

text \<open>
  Whose records a request can touch. \<open>confined user s s'\<close> says that every session, device, account
  and refresh token that differs between two states belongs to \<open>user\<close>; every handler is confined to
  the user it runs for, and so is a whole request to the user it proves to be.
\<close>

section \<open>Confined changes\<close>

definition sessions_confined ::
  "(Session \<Rightarrow> bool) \<Rightarrow> string \<Rightarrow> session_table \<Rightarrow> session_table \<Rightarrow> bool" where
  "sessions_confined P user m m' \<longleftrightarrow>
     (\<forall>k v. get m k = Some v \<and> get m' k \<noteq> Some v \<longrightarrow> P v) \<and>
     (\<forall>k v. get m k = None \<and> get m' k = Some v \<longrightarrow> s_OperatorID v = user)"

definition devices_confined :: "string \<Rightarrow> device_table \<Rightarrow> device_table \<Rightarrow> bool" where
  "devices_confined user m m' \<longleftrightarrow>
     (\<forall>k d. get m k = Some d \<and> get m' k \<noteq> Some d \<longrightarrow> d_OwnerID d = user \<and>
        (\<exists>d'. get m' k = Some d' \<and> d_OwnerID d' = user \<and> d_PublicKey d' = d_PublicKey d \<and>
              (d_Revoked d \<longrightarrow> d_Revoked d'))) \<and>
     (\<forall>k d. get m k = None \<and> get m' k = Some d \<longrightarrow> d_OwnerID d = user)"

definition accounts_confined :: "string \<Rightarrow> account_table \<Rightarrow> account_table \<Rightarrow> bool" where
  "accounts_confined user m m' \<longleftrightarrow>
     (\<forall>k a. get m k = Some a \<and> get m' k \<noteq> Some a \<longrightarrow>
        k = user \<and> get m' k = Some (a\<lparr>a_Version := a_Version a + 1\<rparr>))"

definition tokens_confined :: "string \<Rightarrow> refresh_table \<Rightarrow> refresh_table \<Rightarrow> bool" where
  "tokens_confined user m m' \<longleftrightarrow>
     (\<forall>h t. get m h = Some t \<and> get m' h \<noteq> Some t \<longrightarrow>
        r_UserID t = user \<and> get m' h = Some (t\<lparr>r_Used := True\<rparr>))"

definition confined :: "string \<Rightarrow> 'st service \<Rightarrow> 'st service \<Rightarrow> bool" where
  "confined user s s' \<longleftrightarrow>
     sessions_confined (\<lambda>v. visible s v user) user (sv_sessions s) (sv_sessions s') \<and>
     devices_confined user (sv_devices s) (sv_devices s') \<and>
     accounts_confined user (sv_accounts s) (sv_accounts s') \<and>
     tokens_confined user (sv_refresh s) (sv_refresh s')"

lemma confined_same [simp]:
  "sessions_confined P user m m" "devices_confined user ds ds" "accounts_confined user as as"
  "tokens_confined user ts ts"
  by (auto simp: sessions_confined_def devices_confined_def accounts_confined_def
      tokens_confined_def)

lemma confined_refl [simp]: "confined user s s"
  by (simp add: confined_def)

lemma confined_tables:
  assumes "sv_sessions s' = sv_sessions s" and "sv_devices s' = sv_devices s"
    and "sv_accounts s' = sv_accounts s" and "tokens_confined user (sv_refresh s) (sv_refresh s')"
  shows "confined user s s'"
  using assms by (simp add: confined_def)

lemma quiet_confined: "quiet s s' \<Longrightarrow> confined user s s'"
  by (rule confined_tables) (simp_all add: quiet_def)

lemma outside_confined:
  assumes "outside s s'"
    and "sessions_confined (\<lambda>v. visible s v user) user (sv_sessions s) (sv_sessions s')"
    and "devices_confined user (sv_devices s) (sv_devices s')"
  shows "confined user s s'"
  using assms by (simp add: confined_def outside_def)

text \<open>One row rewritten, rows rewritten by a condition, a row added.\<close>

lemma sessions_confined_adjust:
  "(\<And>v. get m k = Some v \<Longrightarrow> P v) \<Longrightarrow> sessions_confined P user m (adjust k f m)"
  by (auto simp: sessions_confined_def get_adjust split: if_splits)

lemma sessions_confined_each:
  "(\<And>k v. get m k = Some v \<Longrightarrow> f v \<noteq> v \<Longrightarrow> P v) \<Longrightarrow> sessions_confined P user m (each f m)"
  by (auto simp: sessions_confined_def get_each)

lemma sessions_confined_put:
  "get m k = None \<Longrightarrow> s_OperatorID v = user \<Longrightarrow> sessions_confined P user m (put m k v)"
  by (auto simp: sessions_confined_def get_put split: if_splits)

lemma devices_confined_adjust:
  assumes "get m k = Some d" and "d_OwnerID d = user" and "d_OwnerID (f d) = user"
    and "d_PublicKey (f d) = d_PublicKey d" and "d_Revoked d \<Longrightarrow> d_Revoked (f d)"
  shows "devices_confined user m (adjust k f m)"
  using assms by (auto simp: devices_confined_def get_adjust split: if_splits)

lemma devices_confined_put:
  "get m k = None \<Longrightarrow> d_OwnerID d = user \<Longrightarrow> devices_confined user m (put m k d)"
  by (auto simp: devices_confined_def get_put split: if_splits)

lemma tokens_confined_put: "get m h = None \<Longrightarrow> tokens_confined user m (put m h t)"
  by (auto simp: tokens_confined_def get_put split: if_splits)

section \<open>The handlers\<close>

text \<open>The session a target-side handler works on is visible to the owner of the target.\<close>

lemma target_side_visible: "target_side e now r user v s \<Longrightarrow> visible s v user"
  by (auto simp: target_side_def visible_def split: option.splits)

lemma same_target_visible:
  "visible s v user \<Longrightarrow> s_OperatorID v \<noteq> user \<Longrightarrow> s_TargetID w = s_TargetID v \<Longrightarrow> visible s w user"
  by (simp add: visible_def)

lemma target_side_rival:
  "target_side e now r user v s \<Longrightarrow> s_TargetID w = s_TargetID v \<Longrightarrow> visible s w user"
  by (auto simp: target_side_def visible_def split: option.splits)

lemma decideSession_confined: "confined u s (fst (decideSession e now r k b u s))"
proof -
  obtain s' rep where d: "decideSession e now r k b u s = (s', rep)" by force
  have "sv_devices (fst (decideSession e now r k b u s)) = sv_devices s"
    unfolding decideSession_def
    by (auto simp: fail_def targetSession_Inl_frame targetSession_Inr_frame split: sum.split)
  moreover from d have "sessions_confined (\<lambda>v. visible s v u) u (sv_sessions s) (sv_sessions s')"
    by (cases rule: decideSession_cases)
      (auto intro!: sessions_confined_adjust intro: target_side_visible)
  ultimately show ?thesis
    using d session_handlers_outside(1)[of s e now r k b u] by (simp add: outside_confined)
qed

lemma changePermissions_confined: "confined u s (fst (changePermissions e now r k b u s))"
proof -
  obtain s' rep where d: "changePermissions e now r k b u s = (s', rep)" by force
  have "sv_devices (fst (changePermissions e now r k b u s)) = sv_devices s"
    unfolding changePermissions_def
    by (auto simp: fail_def targetSession_Inl_frame targetSession_Inr_frame split: sum.split)
  moreover from d have "sessions_confined (\<lambda>v. visible s v u) u (sv_sessions s) (sv_sessions s')"
    by (cases rule: changePermissions_cases)
      (auto intro!: sessions_confined_adjust intro: target_side_visible)
  ultimately show ?thesis
    using d session_handlers_outside(2)[of s e now r k b u] by (simp add: outside_confined)
qed

lemma handover_confined:
  assumes "service_inv s"
  shows "confined u s (fst (handover e now r k u s))"
proof -
  obtain s' rep where d: "handover e now r k u s = (s', rep)" by force
  note wf = table_invD(2)[OF service_invD(4)[OF assms]]
  have "sv_devices (fst (handover e now r k u s)) = sv_devices s"
    unfolding handover_def
    by (auto simp: fail_def targetSession_Inl_frame targetSession_Inr_frame split: sum.split)
  moreover from d wf
  have "sessions_confined (\<lambda>v. visible s v u) u (sv_sessions s) (sv_sessions s')"
  proof (cases rule: handover_cases)
    case (Moved v)
    have "visible s x u" if "get (sv_sessions s) j = Some x" "j = k \<or> is_rival v x" for j x
      using that Moved(1) target_side_rival[OF Moved(2), of x] by (auto simp: is_rival_def)
    then show ?thesis
      unfolding Moved(5) sessions_confined_def
      by (auto simp: get_adjust get_yield_rivals split: if_splits)
  qed simp
  ultimately show ?thesis
    using d session_handlers_outside(3)[of s e now r k u] by (simp add: outside_confined)
qed

lemma stopSession_confined: "confined u s (fst (stopSession e now k u s))"
proof -
  obtain s' rep where d: "stopSession e now k u s = (s', rep)" by force
  have "sv_devices (fst (stopSession e now k u s)) = sv_devices s"
    by (auto simp: stopSession_def fail_def split: option.split)
  moreover from d have "sessions_confined (\<lambda>v. visible s v u) u (sv_sessions s) (sv_sessions s')"
    by (cases rule: stopSession_cases) (auto intro!: sessions_confined_adjust)
  ultimately show ?thesis
    using d session_handlers_outside(4)[of s e now k u] by (simp add: outside_confined)
qed

lemma requestSession_confined:
  assumes "get (sv_sessions s) (next_id e 18 s) = None"
  shows "confined u s (fst (requestSession e now r b u s))"
proof -
  obtain s' rep where d: "requestSession e now r b u s = (s', rep)" by force
  have "sv_devices (fst (requestSession e now r b u s)) = sv_devices s"
    by (auto simp: requestSession_def request_from_def create_session_def randomID_next fail_def
        Let_def split_def split: sum.split option.split)
  moreover from d have "sessions_confined (\<lambda>v. visible s v u) u (sv_sessions s) (sv_sessions s')"
    by (cases rule: requestSession_cases) (auto intro!: sessions_confined_put simp: assms)
  ultimately show ?thesis
    using d session_handlers_outside(5)[of s e now r b u] by (simp add: outside_confined)
qed

lemma revokeDevice_confined:
  assumes "service_inv s"
  shows "confined u s (fst (revokeDevice e now k u s))"
proof -
  obtain s' rep where d: "revokeDevice e now k u s = (s', rep)" by force
  note i = service_invD[OF assms]
  from d table_invD(2)[OF i(4)] i(3) have "confined u s s'"
  proof (cases rule: revokeDevice_cases)
    case (Revoked dv)
    have "visible s v u" if "get (sv_sessions s) j = Some v" "uses_device k v" for j v
      using linkedE[OF link_invD[OF i(5) that(1)]] that(2) Revoked(1,2)
      by (force simp: uses_device_def visible_def)
    then have "sessions_confined (\<lambda>v. visible s v u) u (sv_sessions s) (sv_sessions s')"
      unfolding Revoked(5) by (intro sessions_confined_each) (auto split: if_splits)
    moreover have "devices_confined u (sv_devices s) (sv_devices s')"
      unfolding Revoked(4) by (rule devices_confined_adjust[OF Revoked(1)]) (simp_all add: Revoked(2))
    ultimately show ?thesis
      using d session_handlers_outside(6)[of s e now k u] by (simp add: outside_confined)
  qed simp
  with d show ?thesis by simp
qed

lemma registerDevice_confined:
  assumes "service_inv s" and "get (sv_devices s) (next_id e 12 s) = None"
  shows "confined u s (fst (registerDevice e now r b u s))"
proof -
  obtain s' rep where d: "registerDevice e now r b u s = (s', rep)" by force
  from d have "devices_confined u (sv_devices s) (sv_devices s')"
  proof (cases rule: registerDevice_cases)
    case (Confirmed q k dv)
    have "get (sv_devices s) k = Some dv"
      using Confirmed(3) device_invD(1)[OF service_invD(3)[OF assms(1)]] by (simp add: wf_map_get)
    then show ?thesis
      unfolding Confirmed(7) by (rule devices_confined_adjust) (simp_all add: Confirmed(5,6))
  next
    case (Registered q)
    then show ?thesis by (auto intro!: devices_confined_put assms(2))
  qed simp
  then show ?thesis
    using d session_handlers_outside(7)[of s e now r b u] registerDevice_frame(1)[of e now r b u s]
    by (intro outside_confined) simp_all
qed

section \<open>The account handlers\<close>

lemma invalidate_confined:
  assumes "service_inv s"
  shows "confined u s (fst (invalidate e now u s))"
proof (cases "get (sv_accounts s) u")
  case (Some a)
  note eff = invalidate_effect[OF Some table_invD(2)[OF service_invD(4)[OF assms]], of e now]
  show ?thesis
    unfolding confined_def eff invalidate_frame
    by (auto intro!: sessions_confined_each
        simp: closes_for_def accounts_confined_def tokens_confined_def get_adjust get_each
          uses_up_def split: if_splits)
qed (simp add: invalidate_unknown)

lemma logout_confined: "service_inv s \<Longrightarrow> confined u s (fst (logout e now u s))"
  using invalidate_confined[of s u e now] by (simp add: logout_def split_def Let_def confined_def)

lemma issue_confined:
  assumes "tokens_confined user (sv_refresh s) (sv_refresh s1)"
    and "get (sv_refresh s) (digest e (new_raw e f s1)) = None"
  shows "tokens_confined user (sv_refresh s) (sv_refresh (fst (issue e now u f s1)))"
  using assms by (auto simp: issue_effect(1) tokens_confined_def get_put split: if_splits)

lemma rotate_confined:
  assumes inv: "service_inv s" and fresh: "fresh_draws e s"
  shows "(\<forall>u. confined u s (fst (rotate e now b s))) \<or>
    (\<exists>token t. b = OneObject token \<and> get (sv_refresh s) (digest e token) = Some t \<and>
       now < r_Expires t \<and> confined (r_UserID t) s (fst (rotate e now b s)))"
proof -
  note i = service_invD[OF inv]
  obtain s' rep where d: "rotate e now b s = (s', rep)" by force
  from d show ?thesis
  proof (cases rule: rotate_cases)
    case (Reuse token t s1 ok)
    let ?s0 = "s\<lparr>sv_refresh := each (spends_family (r_Family t)) (sv_refresh s)\<rparr>"
    have "fewer_tokens (sv_refresh s) (sv_refresh ?s0)"
      using token_invD(1)[OF i(2)] by (auto intro!: fewer_each simp: spends_family_def)
    from fewer_tokens_inv[OF this i(2)] have "service_inv ?s0"
      using inv by (simp add: service_inv_def)
    from invalidate_confined[OF this, of "r_UserID t" e now] Reuse(5)
    have c: "confined (r_UserID t) ?s0 s1" by simp
    have fam: "r_UserID x = r_UserID t" if "get (sv_refresh s) h = Some x" "r_Family x = r_Family t"
      for h x
      using token_invD(2)[OF i(2) that(1) Reuse(2) that(2)] by blast
    have "tokens_confined (r_UserID t) (sv_refresh s) (sv_refresh s1)"
      unfolding tokens_confined_def
    proof (intro allI impI, elim conjE)
      fix h x
      assume x: "get (sv_refresh s) h = Some x" "get (sv_refresh s1) h \<noteq> Some x"
      let ?y = "spends_family (r_Family t) x"
      have y: "get (sv_refresh ?s0) h = Some ?y" using x(1) by (simp add: get_each)
      from c have *: "get (sv_refresh s1) h = Some ?y \<or>
          (r_UserID ?y = r_UserID t \<and> get (sv_refresh s1) h = Some (?y\<lparr>r_Used := True\<rparr>))"
        using y unfolding confined_def tokens_confined_def by blast
      then show "r_UserID x = r_UserID t \<and> get (sv_refresh s1) h = Some (x\<lparr>r_Used := True\<rparr>)"
        using x fam[OF x(1)] by (auto simp: spends_family_def split: if_splits)
    qed
    moreover have "visible ?s0 v u = visible s v u" for v u by (simp add: visible_def)
    ultimately have "confined (r_UserID t) s s1" using c by (simp add: confined_def)
    then have "confined (r_UserID t) s s'" by (simp add: Reuse(6) confined_def)
    with Reuse(1-3) d show ?thesis by auto
  next
    case (Rotated token t s1)
    have "tokens_confined (r_UserID t) (sv_refresh s) (sv_refresh s1)"
      by (auto simp: Rotated(5) tokens_confined_def get_adjust spent_def Rotated(2) split: if_splits)
    moreover have "get (sv_refresh s) (digest e (new_raw e (r_Family t) s1)) = None"
      using fresh_draws_issue[OF fresh, of 0 s "r_Family t"]
      by (cases "r_Family t = []") (simp_all add: fresh_issue_def new_raw_def Rotated(5))
    ultimately have "tokens_confined (r_UserID t) (sv_refresh s) (sv_refresh s')"
      unfolding Rotated(6) by (rule issue_confined)
    moreover have "sv_sessions s' = sv_sessions s" "sv_devices s' = sv_devices s"
      "sv_accounts s' = sv_accounts s"
      by (simp_all add: Rotated(5,6))
    ultimately have "confined (r_UserID t) s s'" by (intro confined_tables)
    with Rotated(1-3) d show ?thesis by auto
  qed (use d in simp)
qed

lemma issue_all_confined:
  assumes "fresh_draws e s" and "n < 4" and "sv_entropy s1 = sv_entropy s + n"
    and "sv_refresh s1 = sv_refresh s" and "sv_sessions s1 = sv_sessions s"
    and "sv_devices s1 = sv_devices s" and "accounts_confined user (sv_accounts s) (sv_accounts s1)"
  shows "confined user s (fst (issue e now u [] s1))"
proof -
  have "fresh_issue e [] s1" by (rule fresh_draws_issue[OF assms(1,2,4,3)])
  then have "tokens_confined user (sv_refresh s) (sv_refresh (fst (issue e now u [] s1)))"
    unfolding issue_effect(1) assms(4) by (intro tokens_confined_put) (simp add: fresh_issue_def assms(4))
  with assms(5-7) show ?thesis by (simp add: confined_def)
qed

lemma register_confined:
  assumes inv: "service_inv s" and fresh: "fresh_draws e s"
  shows "confined user s (fst (register e now b s))"
proof -
  obtain s' rep where d: "register e now b s = (s', rep)" by force
  from d have "confined user s s'"
  proof (cases rule: register_cases)
    case (Locked q s1)
    let ?s0 = "s\<lparr>sv_authSlots := sv_authSlots s + 1\<rparr>"
    have "account_inv (sv_accounts ?s0) (sv_emails ?s0)" using service_invD(1)[OF inv] by simp
    with Locked(4) have "confined user s s1"
    proof (cases rule: register_locked_cases)
      case (Created s2 t)
      have "get (sv_accounts s) (reg_id e ?s0) = None"
        using fresh_draws_at[OF fresh, of 1] by (simp add: reg_id_def fresh_draw_def drawn_def)
      then have "accounts_confined user (sv_accounts s) (sv_accounts s2)"
        by (auto simp: Created(2) accounts_confined_def get_put)
      then show ?thesis
        unfolding Created(10) by (intro issue_all_confined[OF fresh, of 3]) (simp_all add: Created)
    qed (simp add: confined_def)
    then show ?thesis by (simp add: Locked(5) confined_def)
  qed simp
  with d show ?thesis by simp
qed

lemma login_confined:
  assumes "fresh_draws e s"
  shows "confined user s (fst (login e now b s))"
proof -
  obtain s' rep where d: "login e now b s = (s', rep)" by force
  from d have "confined user s s'"
  proof (cases rule: login_cases)
    case (Locked q s1)
    from Locked(4) have "confined user s s1"
    proof (cases rule: login_locked_cases)
      case (Accepted a s2)
      then show ?thesis
        unfolding Accepted(4)
        by (intro issue_all_confined[OF assms, of 1])
          (simp_all add: record_audit_def randomID_def random_read_def)
    qed (simp add: confined_def)
    then show ?thesis by (simp add: Locked(5) confined_def)
  qed simp
  with d show ?thesis by simp
qed

lemma verify2FALogin_confined:
  assumes "fresh_draws e s"
  shows "confined user s (fst (verify2FALogin e now b s))"
proof -
  have "confined user s (fst (issue e now u [] (record_audit e now u a u s)))" for u a
    by (rule issue_all_confined[OF assms, of 1])
      (simp_all add: record_audit_def randomID_def random_read_def)
  then show ?thesis
    by (auto simp: verify2FALogin_def decode_def fail_def Let_def split: json_body.split)
qed

lemma serve_signalling_confined: "confined user s (fst (serve_signalling acc r s))"
  by (rule confined_tables)
    (auto simp: serve_signalling_def sig_connect_def fail_def Let_def split_def
      split: option.split connect_result.split)

section \<open>A whole request\<close>

text \<open>Whom a request proves to be: the user of its bearer token, or the user of the refresh token it
  presents.\<close>

definition acts_for ::
  "'st world \<Rightarrow> time \<Rightarrow> http_request \<Rightarrow> 'st service \<Rightarrow> string \<Rightarrow> bool" where
  "acts_for w now r s user \<longleftrightarrow>
     auth_user (wd_env w) now r s = Inr user \<or>
     (\<exists>vs token t. find_route routes (rq_Method r) (path_segments r) = Some (ERefresh, vs) \<and>
        jc_refresh_token (wd_json w) (rq_Body r) = OneObject token \<and>
        get (sv_refresh s) (digest (wd_env w) token) = Some t \<and> now < r_Expires t \<and>
        r_UserID t = user)"

lemma serve_public_confined:
  assumes inv: "service_inv s" and fresh: "fresh_draws (wd_env w) s"
    and route: "find_route routes (rq_Method r) (path_segments r) = Some (ep, vs)"
    and out: "serve_public w now ep r s = Some out"
  shows "(\<forall>u. confined u s (fst out)) \<or> (\<exists>u. acts_for w now r s u \<and> confined u s (fst out))"
proof (cases "ep = ERefresh")
  case True
  have "out = rotate (wd_env w) now (jc_refresh_token (wd_json w) (rq_Body r)) s"
    using out by (simp add: True serve_public_def Let_def)
  with rotate_confined[OF inv fresh, of now "jc_refresh_token (wd_json w) (rq_Body r)"] route True
  show ?thesis unfolding acts_for_def by blast
next
  case False
  then have "confined u s (fst out)" for u
    using out register_confined[OF inv fresh] login_confined[OF fresh] verify2FALogin_confined[OF fresh]
      serve_signalling_confined quiet_confined[OF requestPasswordReset_quiet]
      quiet_confined[OF confirmPasswordReset_quiet]
    by (cases ep) (auto simp: serve_public_def Let_def)
  then show ?thesis by blast
qed

lemma serve_user_confined:
  assumes inv: "service_inv s" and fresh: "fresh_draws (wd_env w) s"
  shows "confined u s (fst (serve_user w now ep vs r u s))"
proof -
  note q = quiet_confined
  note ids = fresh_draws_ids[OF fresh]
  show ?thesis
    by (cases ep)
      (simp_all add: serve_user_def Let_def read_only_quiet logout_confined[OF inv]
        q[OF quiet_handlers(1)] q[OF quiet_handlers(2)] q[OF quiet_handlers(5)]
        q[OF quiet_handlers(6)] q[OF quiet_handlers(7)] q[OF quiet_handlers(8)]
        q[OF quiet_handlers(9)] q[OF quiet_handlers(10)] q[OF quiet_handlers(11)]
        q[OF quiet_handlers(12)] q[OF quiet_handlers(13)] q[OF quiet_handlers(14)]
        q[OF quiet_handlers(15)] q[OF quiet_handlers(16)] q[OF quiet_handlers(17)]
        q[OF quiet_handlers(18)] listOrganizations_def listWorkflows_def
        registerDevice_confined[OF inv ids(2)] revokeDevice_confined[OF inv]
        requestSession_confined[OF ids(1)] decideSession_confined changePermissions_confined
        handover_confined[OF inv] stopSession_confined)
qed

lemma dispatch_confined:
  assumes "service_inv s" and "fresh_draws (wd_env w) s"
  shows "(\<forall>u. confined u s (fst (dispatch w now r s))) \<or>
    (\<exists>u. acts_for w now r s u \<and> confined u s (fst (dispatch w now r s)))"
proof (cases "clean_path (raw_segments r)")
  case True
  show ?thesis
  proof (cases "find_route routes (rq_Method r) (path_segments r)")
    case (Some p)
    obtain ep vs where p: "p = (ep, vs)" by force
    show ?thesis
    proof (cases "serve_public w now ep r s")
      case None
      with Some True p
      have d: "dispatch w now r s = auth (wd_env w) now r (serve_user w now ep vs r) s"
        by (simp add: dispatch_def)
      show ?thesis
        using serve_user_confined[OF assms]
        by (cases "auth_user (wd_env w) now r s") (auto simp: d auth_def acts_for_def)
    next
      case (Some out)
      with \<open>find_route _ _ _ = Some p\<close> True p have "dispatch w now r s = out"
        by (simp add: dispatch_def)
      with serve_public_confined[OF assms _ Some, of vs] \<open>find_route _ _ _ = Some p\<close> p
      show ?thesis by simp
    qed
  qed (simp add: dispatch_def True)
qed (simp add: dispatch_def)

text \<open>Changes confined to everybody are none.\<close>

lemma stranger: "\<exists>u::string. u \<noteq> a \<and> u \<noteq> b"
proof -
  have "\<exists>u. u \<notin> {a, b}" by (rule ex_new_if_finite[OF infinite_UNIV_listI]) simp
  then show ?thesis by simp
qed

lemma confined_to_all:
  assumes "\<And>u. confined u s s'"
  shows "get (sv_sessions s) k = Some v \<Longrightarrow> get (sv_sessions s') k = Some v"
    and "get (sv_devices s) k = Some d \<Longrightarrow> get (sv_devices s') k = Some d"
    and "get (sv_accounts s) k = Some a \<Longrightarrow> get (sv_accounts s') k = Some a"
    and "get (sv_refresh s) k = Some t \<Longrightarrow> get (sv_refresh s') k = Some t"
proof -
  note c = assms[unfolded confined_def sessions_confined_def devices_confined_def
      accounts_confined_def tokens_confined_def]
  show "get (sv_sessions s') k = Some v" if "get (sv_sessions s) k = Some v"
  proof (rule ccontr)
    assume "get (sv_sessions s') k \<noteq> Some v"
    with that c have all: "visible s v u" for u by blast
    obtain u where "u \<noteq> s_OperatorID v"
      "u \<noteq> (case get (sv_devices s) (s_TargetID v) of None \<Rightarrow> [] | Some d \<Rightarrow> d_OwnerID d)"
      using stranger by blast
    with all[of u] show False by (auto simp: visible_def split: option.splits)
  qed
  show "get (sv_devices s') k = Some d" if "get (sv_devices s) k = Some d"
    using that c stranger[of "d_OwnerID d" "d_OwnerID d"] by metis
  show "get (sv_accounts s') k = Some a" if "get (sv_accounts s) k = Some a"
    using that c stranger[of k k] by metis
  show "get (sv_refresh s') k = Some t" if "get (sv_refresh s) k = Some t"
    using that c stranger[of "r_UserID t" "r_UserID t"] by metis
qed

lemma dispatch_owners:
  assumes "service_inv s" and "fresh_draws (wd_env w) s" and s': "s' = fst (dispatch w now r s)"
  shows "get (sv_sessions s) k = Some v \<Longrightarrow> get (sv_sessions s') k \<noteq> Some v \<Longrightarrow>
      \<exists>u. acts_for w now r s u \<and> visible s v u"
    and "get (sv_devices s) k = Some d \<Longrightarrow> get (sv_devices s') k \<noteq> Some d \<Longrightarrow>
      acts_for w now r s (d_OwnerID d) \<and>
      (\<exists>d'. get (sv_devices s') k = Some d' \<and> d_OwnerID d' = d_OwnerID d \<and>
         d_PublicKey d' = d_PublicKey d \<and> (d_Revoked d \<longrightarrow> d_Revoked d'))"
    and "get (sv_accounts s) k = Some a \<Longrightarrow> get (sv_accounts s') k \<noteq> Some a \<Longrightarrow>
      acts_for w now r s k \<and> get (sv_accounts s') k = Some (a\<lparr>a_Version := a_Version a + 1\<rparr>)"
    and "get (sv_refresh s) k = Some t \<Longrightarrow> get (sv_refresh s') k \<noteq> Some t \<Longrightarrow>
      acts_for w now r s (r_UserID t) \<and> get (sv_refresh s') k = Some (t\<lparr>r_Used := True\<rparr>)"
proof -
  consider "\<And>u. confined u s s'" | u where "acts_for w now r s u" "confined u s s'"
    using dispatch_confined[OF assms(1,2), of now r] s' by blast
  then have "(get (sv_sessions s) k = Some v \<and> get (sv_sessions s') k \<noteq> Some v \<longrightarrow>
      (\<exists>u. acts_for w now r s u \<and> visible s v u)) \<and>
    (get (sv_devices s) k = Some d \<and> get (sv_devices s') k \<noteq> Some d \<longrightarrow>
      acts_for w now r s (d_OwnerID d) \<and>
      (\<exists>d'. get (sv_devices s') k = Some d' \<and> d_OwnerID d' = d_OwnerID d \<and>
         d_PublicKey d' = d_PublicKey d \<and> (d_Revoked d \<longrightarrow> d_Revoked d'))) \<and>
    (get (sv_accounts s) k = Some a \<and> get (sv_accounts s') k \<noteq> Some a \<longrightarrow>
      acts_for w now r s k \<and> get (sv_accounts s') k = Some (a\<lparr>a_Version := a_Version a + 1\<rparr>)) \<and>
    (get (sv_refresh s) k = Some t \<and> get (sv_refresh s') k \<noteq> Some t \<longrightarrow>
      acts_for w now r s (r_UserID t) \<and> get (sv_refresh s') k = Some (t\<lparr>r_Used := True\<rparr>))"
  proof cases
    case 1
    from confined_to_all[OF this] show ?thesis by blast
  next
    case (2 u)
    then show ?thesis
      unfolding confined_def sessions_confined_def devices_confined_def accounts_confined_def
        tokens_confined_def by blast
  qed
  then show "get (sv_sessions s) k = Some v \<Longrightarrow> get (sv_sessions s') k \<noteq> Some v \<Longrightarrow>
      \<exists>u. acts_for w now r s u \<and> visible s v u"
    and "get (sv_devices s) k = Some d \<Longrightarrow> get (sv_devices s') k \<noteq> Some d \<Longrightarrow>
      acts_for w now r s (d_OwnerID d) \<and>
      (\<exists>d'. get (sv_devices s') k = Some d' \<and> d_OwnerID d' = d_OwnerID d \<and>
         d_PublicKey d' = d_PublicKey d \<and> (d_Revoked d \<longrightarrow> d_Revoked d'))"
    and "get (sv_accounts s) k = Some a \<Longrightarrow> get (sv_accounts s') k \<noteq> Some a \<Longrightarrow>
      acts_for w now r s k \<and> get (sv_accounts s') k = Some (a\<lparr>a_Version := a_Version a + 1\<rparr>)"
    and "get (sv_refresh s) k = Some t \<Longrightarrow> get (sv_refresh s') k \<noteq> Some t \<Longrightarrow>
      acts_for w now r s (r_UserID t) \<and> get (sv_refresh s') k = Some (t\<lparr>r_Used := True\<rparr>)"
    by blast+
qed

end
