(* ===== verification/Reply_Types.thy ===== *)
theory Reply_Types
  imports Service_Run
begin

text \<open>
  The types of the replies: which status and which body every endpoint answers with when it does not
  refuse. A handler is checked against a type by rules that follow its text.
\<close>

section \<open>Outcomes of a type\<close>

text \<open>A reply type is a predicate on the status and the body. A refusal, an error object under a status
  from 400 to 599, is of every type; so is a panic, which the middleware of the standard library turns
  into a closed connection.\<close>

definition refusal :: "nat \<Rightarrow> json_out \<Rightarrow> bool" where
  "refusal st body \<longleftrightarrow> 400 \<le> st \<and> st < 600 \<and> (case body of JError m \<Rightarrow> True | _ \<Rightarrow> False)"

definition typed :: "(nat \<Rightarrow> json_out \<Rightarrow> bool) \<Rightarrow> 'st outcome \<Rightarrow> bool" where
  "typed P out \<longleftrightarrow>
     (case snd out of Panicked \<Rightarrow> True | Reply st body \<Rightarrow> refusal st body \<or> P st body)"

lemma refusal_simps [simp]: "refusal st (JError m) \<longleftrightarrow> 400 \<le> st \<and> st < 600"
  by (simp add: refusal_def)

lemma refusal_JError: "refusal st body \<Longrightarrow> \<exists>m. body = JError m"
  by (cases body) (simp_all add: refusal_def)

lemma refusal_status: "refusal st body \<Longrightarrow> 400 \<le> st \<and> st < 600"
  by (simp add: refusal_def)

lemma typed_pair: "P st body \<Longrightarrow> typed P (s, Reply st body)"
  by (simp add: typed_def)

lemma typed_Panicked: "typed P (s, Panicked)"
  by (simp add: typed_def)

lemma typed_fail: "400 \<le> st \<and> st < 600 \<Longrightarrow> typed P (fail s st m)"
  by (simp add: typed_def fail_def)

lemma typed_mono: "typed P out \<Longrightarrow> (\<And>st body. P st body \<Longrightarrow> Q st body) \<Longrightarrow> typed Q out"
  by (auto simp: typed_def split: reply.splits)

text \<open>Decoding a body refuses with 400, authentication with 401.\<close>

lemma typed_decode:
  assumes "\<And>q. typed P (F q)"
  shows "typed P (case decode b of Inl rep \<Rightarrow> (s, rep) | Inr q \<Rightarrow> F q)"
  using assms by (auto simp: decode_def typed_def split: json_body.splits)

lemma typed_auth: "(\<And>u. typed P (k u s)) \<Longrightarrow> typed P (auth e now r k s)"
  by (auto simp: auth_def auth_user_def typed_def Let_def split: sum.splits if_splits option.splits)

lemma typed_tokens: "P st (JTokens t) \<Longrightarrow> (\<And>t t'. P st (JTokens t) = P st (JTokens t')) \<Longrightarrow>
    typed P (reply_tokens st r)"
  by (auto simp: reply_tokens_def typed_def split: option.split)

lemma typed_if: "(c \<Longrightarrow> typed P x) \<Longrightarrow> (\<not> c \<Longrightarrow> typed P y) \<Longrightarrow> typed P (if c then x else y)"
  by simp

lemma typed_option:
  "(v = None \<Longrightarrow> typed P x) \<Longrightarrow> (\<And>a. v = Some a \<Longrightarrow> typed P (f a)) \<Longrightarrow>
   typed P (case v of None \<Rightarrow> x | Some a \<Rightarrow> f a)"
  by (simp split: option.split)

lemma typed_sum:
  "(\<And>a. v = Inl a \<Longrightarrow> typed P (f a)) \<Longrightarrow> (\<And>b. v = Inr b \<Longrightarrow> typed P (g b)) \<Longrightarrow>
   typed P (case v of Inl a \<Rightarrow> f a | Inr b \<Rightarrow> g b)"
  by (simp split: sum.split)

lemma typed_prod: "(\<And>a b. x = (a, b) \<Longrightarrow> typed P (f a b)) \<Longrightarrow> typed P (case x of (a, b) \<Rightarrow> f a b)"
  by (simp split: prod.split)

lemma typed_state: "typed P (s, rep) \<Longrightarrow> typed P (s', rep)"
  by (simp add: typed_def)

lemma typed_store_call: "(\<And>err s. typed P (k err s)) \<Longrightarrow> typed P (store_call op s k)"
  by (auto simp: store_call_def Let_def typed_Panicked split: option.split prod.split)

lemma typed_store_read: "(\<And>r s. typed P (k r s)) \<Longrightarrow> typed P (store_read op s k)"
  by (auto simp: store_read_def typed_Panicked split: option.split)

lemma typed_store_try: "(\<And>s. typed P (k s)) \<Longrightarrow> typed P (store_try op s k)"
  by (simp add: store_try_def typed_store_call)

lemma typed_recordEvent: "(\<And>s. typed P (k s)) \<Longrightarrow> typed P (recordEvent so e now u a r s k)"
  by (auto simp: recordEvent_def Let_def split_def typed_store_try)

lemma typed_list_or_empty: "(\<And>vs. P 200 (f vs)) \<Longrightarrow> typed P (list_or_empty op f s)"
  unfolding list_or_empty_def
  by (intro typed_if typed_store_read typed_sum typed_pair)

lemmas typed_intros =
  typed_fail typed_Panicked typed_decode typed_tokens typed_if typed_option typed_sum typed_prod
  typed_store_call typed_store_read typed_store_try typed_recordEvent typed_list_or_empty typed_pair

section \<open>The type of every endpoint\<close>

datatype body_kind =
    ErrorBody | OkBody | HealthBody | TokensBody | MeBody | NonceBody | DeviceBody | DevicesBody
  | LookupBody | SessionBody | SessionsBody | AuditBody | IceBody | MessageBody | FlagBody | TOTPBody
  | OrganizationBody | OrganizationsBody | MembersBody | InviteBody | WorkflowBody | WorkflowsBody
  | RunBody | AnalysisBody | PlainBody

primrec kind_of :: "json_out \<Rightarrow> body_kind" where
  "kind_of (JError m) = ErrorBody"
| "kind_of JOk = OkBody"
| "kind_of JHealth = HealthBody"
| "kind_of (JTokens t) = TokensBody"
| "kind_of (JMe i n m) = MeBody"
| "kind_of (JNonce n) = NonceBody"
| "kind_of (JDevice d) = DeviceBody"
| "kind_of (JDevices ds) = DevicesBody"
| "kind_of (JLookup i n t l) = LookupBody"
| "kind_of (JSession v) = SessionBody"
| "kind_of (JSessions vs) = SessionsBody"
| "kind_of (JAudit evs) = AuditBody"
| "kind_of (JIce es t) = IceBody"
| "kind_of (JMessage m x) = MessageBody"
| "kind_of (JFlag f) = FlagBody"
| "kind_of (JTOTP u k cs) = TOTPBody"
| "kind_of (JOrganization g) = OrganizationBody"
| "kind_of (JOrganizations gs) = OrganizationsBody"
| "kind_of (JMembers ms) = MembersBody"
| "kind_of (JInvite i l) = InviteBody"
| "kind_of (JWorkflow w) = WorkflowBody"
| "kind_of (JWorkflows ws) = WorkflowsBody"
| "kind_of (JRun r) = RunBody"
| "kind_of (JAnalysis a b c t) = AnalysisBody"
| "kind_of (JPlain m) = PlainBody"

text \<open>The kind of the body and the statuses. The registration of a device confirms (200) or creates
  (201); the upgrade of a connection answers without JSON, and a refused one with the status the
  websocket library gives it.\<close>

definition reply_type :: "'st world \<Rightarrow> http_request \<Rightarrow> endpoint \<Rightarrow> body_kind \<times> nat list" where
  "reply_type w r ep =
     (case ep of
        EHealthz \<Rightarrow> (HealthBody, [200])
      | ERegister \<Rightarrow> (TokensBody, [201]) | ELogin \<Rightarrow> (TokensBody, [200])
      | ERefresh \<Rightarrow> (TokensBody, [200]) | E2FAVerify \<Rightarrow> (TokensBody, [200])
      | EMe \<Rightarrow> (MeBody, [200]) | EChallenge \<Rightarrow> (NonceBody, [201])
      | EAddDevice \<Rightarrow> (DeviceBody, [200, 201]) | ELookup \<Rightarrow> (LookupBody, [200])
      | EDevices \<Rightarrow> (DevicesBody, [200]) | ERequest \<Rightarrow> (SessionBody, [201])
      | EDecision \<Rightarrow> (SessionBody, [200]) | EPermissions \<Rightarrow> (SessionBody, [200])
      | EHandover \<Rightarrow> (SessionBody, [200]) | EStop \<Rightarrow> (SessionBody, [200])
      | ESessions \<Rightarrow> (SessionsBody, [200]) | EIce \<Rightarrow> (IceBody, [200])
      | EAudit \<Rightarrow> (AuditBody, [200]) | ESignalling \<Rightarrow>
          (PlainBody, [case wd_handshake w r of None \<Rightarrow> 101 | Some (st, m) \<Rightarrow> st])
      | EVerifyEmail \<Rightarrow> (MessageBody, [200]) | EPasswordReset \<Rightarrow> (MessageBody, [200])
      | E2FASetup \<Rightarrow> (TOTPBody, [200]) | E2FAConfirm \<Rightarrow> (FlagBody, [200])
      | E2FADisable \<Rightarrow> (FlagBody, [200])
      | ECreateOrg \<Rightarrow> (OrganizationBody, [201]) | EListOrgs \<Rightarrow> (OrganizationsBody, [200])
      | EListMembers \<Rightarrow> (MembersBody, [200]) | EInvite \<Rightarrow> (InviteBody, [201])
      | ECreateWorkflow \<Rightarrow> (WorkflowBody, [201]) | EListWorkflows \<Rightarrow> (WorkflowsBody, [200])
      | ERunWorkflow \<Rightarrow> (RunBody, [202]) | EGetRun \<Rightarrow> (RunBody, [200])
      | EAnalyze \<Rightarrow> (AnalysisBody, [200])
      | _ \<Rightarrow> (OkBody, [200]))"

definition of_type :: "body_kind \<times> nat list \<Rightarrow> nat \<Rightarrow> json_out \<Rightarrow> bool" where
  "of_type ty st body \<longleftrightarrow> kind_of body = fst ty \<and> st \<in> set (snd ty)"

lemma of_type_simp [simp]: "of_type (k, sts) st body \<longleftrightarrow> kind_of body = k \<and> st \<in> set sts"
  by (simp add: of_type_def)

section \<open>Accounts, devices and sessions\<close>

text \<open>Handlers that run a part under the password slot or the lock keep its reply.\<close>

lemma typed_inner: "typed P r \<Longrightarrow> typed P (case r of (s, rep) \<Rightarrow> (g s, rep))"
  by (cases r) (simp add: typed_def)

lemma register_typed: "typed (of_type (TokensBody, [201])) (register e now b s)"
  unfolding register_def register_locked_def register_insert_def busy_def Let_def
  by (intro typed_inner typed_intros; simp)

lemma login_typed: "typed (of_type (TokensBody, [200])) (login e now b s)"
  unfolding login_def login_locked_def login_finish_def busy_def Let_def
  by (intro typed_inner typed_intros; simp)

lemma rotate_typed: "typed (of_type (TokensBody, [200])) (rotate e now b s)"
  unfolding rotate_def Let_def
  by (intro typed_intros; simp)

lemma account_typed:
  "typed (of_type (OkBody, [200])) (logout e now u s)" "typed (of_type (MeBody, [200])) (me u s)"
  "typed (of_type (NonceBody, [201])) (newChallenge e now u s)"
  unfolding logout_def me_def newChallenge_def Let_def
  by (intro typed_intros; simp)+

lemma typed_scan:
  assumes "typed P x" and "typed P y" and "\<And>k d. typed P (f k d)" and "\<And>n. typed P (g n)"
  shows "typed P (case c of ScanForeign \<Rightarrow> x | ScanRevoked \<Rightarrow> y | ScanFound k d \<Rightarrow> f k d | ScanCount n \<Rightarrow> g n)"
  using assms by (simp split: device_scan.split)

lemma device_typed:
  "typed (of_type (DeviceBody, [200, 201])) (registerDevice e now r b u s)"
  "typed (of_type (DevicesBody, [200])) (listDevices now u s)"
  "typed (of_type (LookupBody, [200])) (lookupDevice now c u s)"
  "typed (of_type (OkBody, [200])) (revokeDevice e now k u s)"
  unfolding registerDevice_def listDevices_def lookupDevice_def revokeDevice_def Let_def
  by (intro typed_scan typed_intros; simp)+

lemma targetSession_typed: "targetSession e now r k u s = Inl out \<Longrightarrow> typed P out"
  by (auto simp: targetSession_def Let_def typed_Panicked intro!: typed_fail
      split: option.splits if_splits prod.splits)

lemma session_ends_typed:
  "typed (of_type (SessionBody, [200])) (update_session e now k v u a s)"
  "typed (of_type (SessionBody, [200])) (reply_ended e now k v st u s)"
  by (simp_all add: update_session_def reply_ended_def Let_def typed_def)

lemma session_typed:
  "typed (of_type (SessionBody, [201])) (requestSession e now r b1 u s)"
  "typed (of_type (SessionBody, [200])) (decideSession e now r k b2 u s)"
  "typed (of_type (SessionBody, [200])) (changePermissions e now r k b3 u s)"
  "typed (of_type (SessionBody, [200])) (handover e now r k u s)"
  "typed (of_type (SessionBody, [200])) (stopSession e now k u s)"
  "typed (of_type (SessionsBody, [200])) (listSessions u s)"
  "typed (of_type (AuditBody, [200])) (listAudit u s)"
  "typed (of_type (IceBody, [200])) (iceConfiguration e now k u s)"
  unfolding requestSession_def request_from_def create_session_def decideSession_def
    changePermissions_def handover_def stopSession_def listSessions_def listAudit_def
    iceConfiguration_def Let_def prod.case_distrib
  by (intro typed_intros session_ends_typed; (erule targetSession_typed | simp))+

section \<open>E-mail, second factor, organisations and the assistant\<close>

lemma email_typed:
  "typed (of_type (MessageBody, [200])) (sendVerifyEmail so e now u s)"
  "typed (of_type (OkBody, [200])) (confirmVerifyEmail so e now b1 u s)"
  "typed (of_type (MessageBody, [200])) (requestPasswordReset so e now b2 s)"
  "typed (of_type (OkBody, [200])) (confirmPasswordReset so e now b3 s)"
  unfolding sendVerifyEmail_def confirmVerifyEmail_def requestPasswordReset_def
    confirmPasswordReset_def reset_reply_def Let_def
  by (intro typed_intros; simp)+

lemma totp_typed:
  "typed (of_type (TOTPBody, [200])) (setup2FA so e u s)"
  "typed (of_type (FlagBody, [200])) (confirm2FA so e now b4 u s)"
  "typed (of_type (FlagBody, [200])) (disable2FA so e now b5 u s)"
  "typed (of_type (TokensBody, [200])) (verify2FALogin e now b6 s)"
  unfolding setup2FA_def confirm2FA_def disable2FA_def verify2FALogin_def generateBackupCodes_def Let_def
  by (intro typed_intros; simp)+

lemma team_typed:
  "typed (of_type (OrganizationBody, [201])) (createOrganization so e now b1 u s)"
  "typed (of_type (OrganizationsBody, [200])) (listOrganizations so u s)"
  "typed (of_type (MembersBody, [200])) (listMembers so k u s)"
  "typed (of_type (InviteBody, [201])) (inviteMember so e now k b2 u s)"
  "typed (of_type (OkBody, [200])) (updateMemberRole so e now k k2 b3 u s)"
  "typed (of_type (OkBody, [200])) (removeMember so e now k k2 u s)"
  "typed (of_type (WorkflowBody, [201])) (createWorkflow so e now k b4 u s)"
  "typed (of_type (WorkflowsBody, [200])) (listWorkflows so k u s)"
  "typed (of_type (RunBody, [202])) (runWorkflow so e now k k2 u s)"
  "typed (of_type (RunBody, [200])) (getWorkflowRun so k u s)"
  unfolding createOrganization_def listOrganizations_def listMembers_def inviteMember_def
    updateMemberRole_def removeMember_def createWorkflow_def listWorkflows_def runWorkflow_def
    getWorkflowRun_def Let_def
  by (intro typed_intros; simp)+

lemma typed_answer:
  assumes "typed P x1" and "typed P x2" and "typed P x3" and "\<And>c. typed P (f c)"
  shows "typed P (case a of AI_NoRequest \<Rightarrow> x1 | AI_Failed \<Rightarrow> x2 | AI_BadBody \<Rightarrow> x3 | AI_Content c \<Rightarrow> f c)"
  using assms by (simp split: ai_answer.split)

lemma analysis_typed:
  "typed (of_type (AnalysisBody, [200])) (analyzeSessionWithAI p key e now k b u s)"
  unfolding analyzeSessionWithAI_def
  by (intro typed_intros typed_answer; simp)

lemma signalling_typed:
  "typed (of_type (PlainBody, [case acc of None \<Rightarrow> 101 | Some (st, m) \<Rightarrow> st])) (serve_signalling acc r s)"
proof (cases acc)
  case None
  then show ?thesis
    by (auto simp: serve_signalling_def typed_def sig_connect_def fail_def Let_def
        split: if_splits option.splits)
next
  case (Some refused)
  then show ?thesis
    by (cases refused) (auto simp: serve_signalling_def typed_def sig_connect_def fail_def Let_def)
qed

section \<open>A whole request\<close>

lemma public_typed: "serve_public w now ep r s = Some out \<Longrightarrow> typed (of_type (reply_type w r ep)) out"
  by (cases ep) (auto simp: serve_public_def Let_def reply_type_def register_typed login_typed
      rotate_typed email_typed totp_typed signalling_typed intro: typed_pair)

lemma user_typed:
  "serve_public w now ep r s = None \<Longrightarrow> typed (of_type (reply_type w r ep)) (serve_user w now ep vs r u s)"
  by (cases ep) (simp_all add: serve_public_def serve_user_def Let_def reply_type_def account_typed
      device_typed session_typed email_typed totp_typed team_typed analysis_typed)

text \<open>Requests that no endpoint serves are answered in plain text.\<close>

definition routed_type :: "'st world \<Rightarrow> http_request \<Rightarrow> body_kind \<times> nat list" where
  "routed_type w r =
     (if \<not> clean_path (raw_segments r) then (PlainBody, [301])
      else case find_route routes (rq_Method r) (path_segments r) of
        None \<Rightarrow> (PlainBody, [404, 405])
      | Some (ep, vs) \<Rightarrow> reply_type w r ep)"

lemma dispatch_typed: "typed (of_type (routed_type w r)) (dispatch w now r s)"
proof (cases "clean_path (raw_segments r)")
  case True
  show ?thesis
  proof (cases "find_route routes (rq_Method r) (path_segments r)")
    case None
    with True show ?thesis by (simp add: dispatch_def routed_type_def Let_def typed_pair)
  next
    case (Some x)
    obtain ep vs where x: "x = (ep, vs)" by force
    have "typed (of_type (reply_type w r ep)) (dispatch w now r s)"
    proof (cases "serve_public w now ep r s")
      case None
      then show ?thesis
        using True Some x by (simp add: dispatch_def Let_def typed_auth user_typed)
    next
      case out: (Some out)
      then show ?thesis
        using True Some x public_typed[OF out] by (simp add: dispatch_def Let_def)
    qed
    with True Some x show ?thesis by (simp add: routed_type_def)
  qed
qed (simp add: dispatch_def routed_type_def Let_def typed_pair)

lemma serve_typed: "typed (of_type (routed_type w r)) (serve w now r s)"
  by (simp add: serve_def Let_def split_def dispatch_typed typed_fail)

end
