(* ===== verification/Disclosure.thy ===== *)
theory Disclosure
  imports Reply_Types
begin

text \<open>
  What a reply tells whom. A reply is personal when it carries devices, sessions, audit events, a
  profile or relay credentials; every endpoint that answers so has authenticated the caller, and puts
  only records into the reply that belong to the caller or are visible to the caller.
\<close>

section \<open>Personal replies\<close>

fun personal :: "json_out \<Rightarrow> bool" where
  "personal (JDevice d) = True"
| "personal (JDevices ds) = True"
| "personal (JSession v) = True"
| "personal (JSessions vs) = True"
| "personal (JAudit evs) = True"
| "personal (JMe i n m) = True"
| "personal (JIce entries t) = True"
| "personal _ = False"

text \<open>What the reply may hold for a user: relay credentials are the user's own, for an active session of
  the user, and end with it.\<close>

fun shows_only :: "env \<Rightarrow> 'st service \<Rightarrow> string \<Rightarrow> json_out \<Rightarrow> bool" where
  "shows_only e s u (JDevice d) = (d_OwnerID d = u)"
| "shows_only e s u (JDevices ds) = list_all (\<lambda>d. d_OwnerID d = u) ds"
| "shows_only e s u (JSession v) = visible s v u"
| "shows_only e s u (JSessions vs) = list_all (\<lambda>v. visible s v u) vs"
| "shows_only e s u (JAudit evs) = list_all (audit_visible s u) evs"
| "shows_only e s u (JMe i n m) =
     (case get (sv_accounts s) u of None \<Rightarrow> False
      | Some a \<Rightarrow> i = a_ID a \<and> n = a_Name a \<and> m = a_Email a)"
| "shows_only e s u (JIce entries t) =
     (list_ex (\<lambda>v. visible s v u \<and> s_State v = ''active'' \<and> t \<le> s_Expires v) (vals (sv_sessions s)) \<and>
      list_all (\<lambda>en. ice_login en =
        (if is_turn (ice_url en) then Some (TURNCredential e (sv_turnSecret s) u t) else None)) entries)"
| "shows_only e s u _ = True"

definition discreet :: "env \<Rightarrow> 'st service \<Rightarrow> string \<Rightarrow> reply \<Rightarrow> bool" where
  "discreet e s u rep \<longleftrightarrow> (case rep of Panicked \<Rightarrow> True | Reply st body \<Rightarrow> shows_only e s u body)"

definition impersonal :: "reply \<Rightarrow> bool" where
  "impersonal rep \<longleftrightarrow> (case rep of Panicked \<Rightarrow> True | Reply st body \<Rightarrow> \<not> personal body)"

lemma shows_only_impersonal: "\<not> personal body \<Longrightarrow> shows_only e s u body"
  by (cases body) simp_all

lemma impersonal_discreet: "impersonal rep \<Longrightarrow> discreet e s u rep"
  by (auto simp: impersonal_def discreet_def shows_only_impersonal split: reply.splits)

lemma impersonal_simps [simp]:
  "impersonal Panicked" "impersonal (Reply st body) = (\<not> personal body)"
  by (simp_all add: impersonal_def)

lemma impersonal_error: "error_reply rep \<Longrightarrow> impersonal rep"
  by (auto simp: error_reply_def)

section \<open>The endpoints that say nothing personal\<close>

text \<open>Whether a reply is personal can be read off its type.\<close>

definition personal_kinds :: "body_kind list" where
  "personal_kinds = [DeviceBody, DevicesBody, SessionBody, SessionsBody, AuditBody, MeBody, IceBody]"

lemma personal_kind: "personal body \<longleftrightarrow> kind_of body \<in> set personal_kinds"
  by (cases body) (simp_all add: personal_kinds_def)

lemma typed_impersonal:
  "typed (of_type (k, sts)) out \<Longrightarrow> k \<notin> set personal_kinds \<Longrightarrow> impersonal (snd out)"
  by (auto simp: typed_def impersonal_def personal_kind refusal_def personal_kinds_def split: reply.splits json_out.splits)

lemma public_impersonal: "serve_public w now ep r s = Some out \<Longrightarrow> impersonal (snd out)"
  using public_typed[of w now ep r s out]
  by (cases ep) (auto simp: serve_public_def Let_def reply_type_def personal_kinds_def
      dest!: typed_impersonal)

section \<open>The endpoints that answer with personal records\<close>

lemma discreet_simps [simp]:
  "discreet e s u Panicked" "discreet e s u (Reply st body) = shows_only e s u body"
  by (simp_all add: discreet_def)

lemma visible_same:
  "visible s v u \<Longrightarrow> s_OperatorID v' = s_OperatorID v \<Longrightarrow> s_TargetID v' = s_TargetID v \<Longrightarrow>
   visible s v' u"
  by (simp add: visible_def)

lemma target_side_shows:
  "target_side e now r u v s \<Longrightarrow> s_TargetID v' = s_TargetID v \<Longrightarrow> visible s v' u"
  by (auto simp: target_side_def visible_def split: option.splits)

lemma session_rows:
  "s_TargetID (ended st v) = s_TargetID v" "s_OperatorID (ended st v) = s_OperatorID v"
  "s_TargetID (approved now g v) = s_TargetID v" "s_TargetID (regranted g v) = s_TargetID v"
  "s_TargetID (handed_over v) = s_TargetID v"
  by (simp_all add: approved_def regranted_def handed_over_def)

lemma decideSession_discreet: "discreet e s u (snd (decideSession e now r k b u s))"
proof -
  obtain s' rep where d: "decideSession e now r k b u s = (s', rep)" by force
  from d have "discreet e s u rep"
    by (cases rule: decideSession_cases)
      (auto intro: impersonal_discreet impersonal_error target_side_shows simp: session_rows)
  with d show ?thesis by simp
qed

lemma changePermissions_discreet: "discreet e s u (snd (changePermissions e now r k b u s))"
proof -
  obtain s' rep where d: "changePermissions e now r k b u s = (s', rep)" by force
  from d have "discreet e s u rep"
    by (cases rule: changePermissions_cases)
      (auto intro: impersonal_discreet impersonal_error target_side_shows simp: session_rows)
  with d show ?thesis by simp
qed

lemma handover_discreet:
  assumes "service_inv s"
  shows "discreet e s u (snd (handover e now r k u s))"
proof -
  obtain s' rep where d: "handover e now r k u s = (s', rep)" by force
  from d table_invD(2)[OF service_invD(4)[OF assms]] have "discreet e s u rep"
    by (cases rule: handover_cases)
      (auto intro: impersonal_discreet impersonal_error target_side_shows simp: session_rows)
  with d show ?thesis by simp
qed

lemma stopSession_discreet: "discreet e s u (snd (stopSession e now k u s))"
proof -
  obtain s' rep where d: "stopSession e now k u s = (s', rep)" by force
  from d have "discreet e s u rep"
    by (cases rule: stopSession_cases) (auto intro: visible_same simp: session_rows)
  with d show ?thesis by simp
qed

lemma requestSession_discreet: "discreet e s u (snd (requestSession e now r b u s))"
proof -
  obtain s' rep where d: "requestSession e now r b u s = (s', rep)" by force
  from d have "discreet e s u rep"
    by (cases rule: requestSession_cases)
      (auto intro: impersonal_discreet impersonal_error simp: visible_def)
  with d show ?thesis by simp
qed

lemma registerDevice_discreet: "discreet e s u (snd (registerDevice e now r b u s))"
proof -
  obtain s' rep where d: "registerDevice e now r b u s = (s', rep)" by force
  from d have "discreet e s u rep"
    by (cases rule: registerDevice_cases) (auto intro: impersonal_discreet impersonal_error)
  with d show ?thesis by simp
qed

lemma audit_loop_all: "list_all P out \<Longrightarrow> list_all P (audit_loop P n evs out)"
  by (induction P n evs out rule: audit_loop.induct) auto

lemma list_replies:
  "discreet e s u (snd (listDevices now u s))" "discreet e s u (snd (lookupDevice now c u s))"
  "discreet e s u (snd (listSessions u s))" "discreet e s u (snd (listAudit u s))"
  "discreet e s u (snd (me u s))" "discreet e s u (snd (revokeDevice e now k u s))"
  by (auto simp: listDevices_def lookupDevice_def listSessions_def listAudit_def me_def
      revokeDevice_def fail_def Let_def audit_loop_all list_all_iff[of _ "sort_key _ _"]
      split: option.split)

lemma ice_discreet: "discreet e s u (snd (iceConfiguration e now k u s))"
proof (cases "get (sv_sessions s) k")
  case (Some v)
  then have "v \<in> set (vals (sv_sessions s))" by (auto dest: map_of_SomeD intro: rev_image_eqI)
  with Some show ?thesis
    by (auto simp: iceConfiguration_def fail_def Let_def list_ex_iff list_all_iff)
qed (simp add: iceConfiguration_def fail_def)

section \<open>A whole request\<close>

lemma serve_user_discreet:
  assumes "service_inv s" and "serve_public w now ep r s = None"
  shows "discreet (wd_env w) s u (snd (serve_user w now ep vs r u s))"
proof (cases "fst (reply_type w r ep) \<in> set personal_kinds")
  case True
  with assms(1) show ?thesis
    by (cases ep) (simp_all add: reply_type_def personal_kinds_def serve_user_def Let_def
        decideSession_discreet changePermissions_discreet handover_discreet stopSession_discreet
        requestSession_discreet registerDevice_discreet list_replies ice_discreet)
next
  case False
  have "impersonal (snd (serve_user w now ep vs r u s))"
    by (rule typed_impersonal[OF _ False, of "snd (reply_type w r ep)"]) (simp add: user_typed[OF assms(2)])
  then show ?thesis by (rule impersonal_discreet)
qed

lemma dispatch_discreet:
  assumes "service_inv s" and "snd (dispatch w now r s) = Reply st body" and "personal body"
  shows "\<exists>u. auth_user (wd_env w) now r s = Inr u \<and> shows_only (wd_env w) s u body"
proof -
  have "\<not> impersonal (snd (dispatch w now r s))" using assms(2,3) by simp
  then obtain ep vs u where u: "auth_user (wd_env w) now r s = Inr u"
    "dispatch w now r s = serve_user w now ep vs r u s" "serve_public w now ep r s = None"
    by (auto simp: dispatch_def Let_def auth_def auth_user_def dest: public_impersonal
        split: if_splits option.splits sum.splits)
  with serve_user_discreet[OF assms(1) u(3), of u vs] assms(2) show ?thesis by auto
qed

end
