(* ===== verification/Nonces.thy ===== *)
theory Nonces
  imports Service_Run
begin

text \<open>
  The nonces of device proofs. Only \<open>newChallenge\<close> adds one, the one it draws; every other endpoint and
  every other step of the service leaves the challenges alone or removes some. So a nonce that has been
  spent stays spent until the random source draws it again.
\<close>

section \<open>Outcomes that add no challenge\<close>

definition forgets :: "'st service \<Rightarrow> 'st outcome \<Rightarrow> bool" where
  "forgets s out \<longleftrightarrow>
     (\<forall>n. get (sv_challenges s) n = None \<longrightarrow> get (sv_challenges (fst out)) n = None)"

lemma forgets_same: "sv_challenges (fst out) = sv_challenges s \<Longrightarrow> forgets s out"
  by (simp add: forgets_def)

lemma forgets_pair [simp]: "forgets s (s, rep)" "forgets s (fail s st m)"
  by (simp_all add: forgets_def fail_def)

lemma forgets_from: "sv_challenges s' = sv_challenges s \<Longrightarrow> forgets s' out \<Longrightarrow> forgets s out"
  by (simp add: forgets_def)

lemma forgets_if: "(c \<Longrightarrow> forgets s x) \<Longrightarrow> (\<not> c \<Longrightarrow> forgets s y) \<Longrightarrow> forgets s (if c then x else y)"
  by simp

lemma forgets_option:
  "(v = None \<Longrightarrow> forgets s x) \<Longrightarrow> (\<And>a. v = Some a \<Longrightarrow> forgets s (f a)) \<Longrightarrow>
   forgets s (case v of None \<Rightarrow> x | Some a \<Rightarrow> f a)"
  by (simp split: option.split)

lemma forgets_sum:
  "(\<And>a. v = Inl a \<Longrightarrow> forgets s (f a)) \<Longrightarrow> (\<And>b. v = Inr b \<Longrightarrow> forgets s (g b)) \<Longrightarrow>
   forgets s (case v of Inl a \<Rightarrow> f a | Inr b \<Rightarrow> g b)"
  by (simp split: sum.split)

lemma forgets_decode:
  "(\<And>q. forgets s (F q)) \<Longrightarrow> forgets s (case decode b of Inl rep \<Rightarrow> (s, rep) | Inr q \<Rightarrow> F q)"
  by (intro forgets_sum) simp_all

lemma forgets_prod: "(\<And>a b. x = (a, b) \<Longrightarrow> forgets s (f a b)) \<Longrightarrow> forgets s (case x of (a, b) \<Rightarrow> f a b)"
  by (simp split: prod.split)

text \<open>Draws from the random source, audit events and calls of the store.\<close>

lemma forgets_randomID:
  "(\<And>x s'. forgets s' (f x s')) \<Longrightarrow> forgets s (case randomID e n s of (x, s') \<Rightarrow> f x s')"
  unfolding split_def by (rule forgets_from[of "snd (randomID e n s)"]) simp_all

lemma forgets_random_read:
  "(\<And>x s'. forgets s' (f x s')) \<Longrightarrow> forgets s (case random_read e n s of (x, s') \<Rightarrow> f x s')"
  unfolding split_def by (rule forgets_from[of "snd (random_read e n s)"]) simp_all

lemma forgets_hash:
  "(\<And>x s'. forgets s' (f x s')) \<Longrightarrow> forgets s (case hashPassword e raw s of (x, s') \<Rightarrow> f x s')"
  unfolding split_def by (rule forgets_from[of "snd (hashPassword e raw s)"]) simp_all

lemma forgets_encrypt:
  "(\<And>x s'. forgets s' (f x s')) \<Longrightarrow> forgets s (case encryptSecret e key t s of (x, s') \<Rightarrow> f x s')"
  unfolding split_def by (rule forgets_from[of "snd (encryptSecret e key t s)"])
    (simp_all add: encryptSecret_def Let_def split_def)

lemma backup_codes_challenges: "sv_challenges (snd (backup_codes e n s)) = sv_challenges s"
  by (induction n arbitrary: s) (simp_all add: Let_def split_def random_read_frame)

lemma forgets_backup:
  "(\<And>x s'. forgets s' (f x s')) \<Longrightarrow> forgets s (case generateBackupCodes e s of (x, s') \<Rightarrow> f x s')"
  unfolding split_def by (rule forgets_from[of "snd (generateBackupCodes e s)"])
    (simp_all add: generateBackupCodes_def backup_codes_challenges)

lemma forgets_call:
  assumes "\<And>err s. forgets s (k err s)"
  shows "forgets s (store_call op s k)"
proof (cases "sv_store s")
  case (Some st)
  obtain st' err where "op st = (st', err)" by force
  moreover have "forgets (s\<lparr>sv_store := Some st'\<rparr>) (k err (s\<lparr>sv_store := Some st'\<rparr>))" by (rule assms)
  ultimately show ?thesis
    using Some by (auto simp: store_call_def Let_def forgets_def split: option.splits)
qed (simp add: store_call_def)

lemma forgets_try: "(\<And>s. forgets s (k s)) \<Longrightarrow> forgets s (store_try op s k)"
  by (simp add: store_try_def forgets_call)

lemma forgets_read: "(\<And>r. forgets s (k r s)) \<Longrightarrow> forgets s (store_read op s k)"
  by (auto simp: store_read_def split: option.split)

lemma forgets_audit: "forgets s (record_audit e now u a r s, rep)"
  by (simp add: forgets_def)

lemma forgets_logged:
  assumes "\<And>s. forgets s (k s)"
  shows "forgets s (recordEvent so e now u a r s k)"
proof -
  have "forgets (record_audit e now u a r s) (recordEvent so e now u a r s k)"
    unfolding recordEvent_def Let_def by (intro forgets_if forgets_randomID forgets_try assms)
  then show ?thesis by (rule forgets_from[rotated]) simp
qed

lemmas forgets_intros = forgets_decode forgets_pair forgets_audit forgets_if forgets_randomID
  forgets_random_read forgets_hash forgets_encrypt forgets_backup forgets_read forgets_call forgets_try
  forgets_logged forgets_option forgets_sum

section \<open>Every endpoint but one\<close>

lemma email_forgets:
  "forgets s (sendVerifyEmail so e now u s)" "forgets s (confirmVerifyEmail so e now b1 u s)"
  "forgets s (requestPasswordReset so e now b2 s)" "forgets s (confirmPasswordReset so e now b3 s)"
  unfolding sendVerifyEmail_def confirmVerifyEmail_def requestPasswordReset_def
    confirmPasswordReset_def Let_def
  by (intro forgets_intros)+

lemma totp_forgets:
  "forgets s (setup2FA so e u s)" "forgets s (confirm2FA so e now b4 u s)"
  "forgets s (disable2FA so e now b5 u s)"
  unfolding setup2FA_def confirm2FA_def disable2FA_def Let_def
  by (intro forgets_intros)+

lemma team_forgets:
  "forgets s (createOrganization so e now b1 u s)" "forgets s (listOrganizations so u s)"
  "forgets s (listMembers so k u s)" "forgets s (inviteMember so e now k b2 u s)"
  "forgets s (updateMemberRole so e now k k2 b3 u s)" "forgets s (removeMember so e now k k2 u s)"
  "forgets s (createWorkflow so e now k b4 u s)" "forgets s (listWorkflows so k u s)"
  "forgets s (runWorkflow so e now k k2 u s)" "forgets s (getWorkflowRun so k u s)"
  unfolding createOrganization_def listOrganizations_def listMembers_def inviteMember_def
    updateMemberRole_def removeMember_def createWorkflow_def listWorkflows_def runWorkflow_def
    getWorkflowRun_def list_or_empty_def Let_def
  by (intro forgets_intros)+

lemma insert_challenges: "sv_challenges (fst (register_insert e now email name p s)) = sv_challenges s"
  by (auto simp: register_insert_def fail_def Let_def split_def reply_tokens_def issue_frame)

lemma finish_challenges: "sv_challenges (fst (login_finish e now q found s)) = sv_challenges s"
  by (auto simp: login_finish_def fail_def Let_def reply_tokens_def issue_frame split: option.split)

lemma password_challenges:
  "sv_challenges (fst (register e now b s)) = sv_challenges s"
  "sv_challenges (fst (login e now b' s)) = sv_challenges s"
  by (auto simp: register_def register_locked_def login_def login_locked_def insert_challenges
      finish_challenges busy_def fail_def Let_def split_def authSlot_def decode_def
      split: option.split json_body.split)

lemma account_challenges:
  "sv_challenges (fst (rotate e now b1 s)) = sv_challenges s"
  "sv_challenges (fst (verify2FALogin e now b2 s)) = sv_challenges s"
  "sv_challenges (fst (logout e now u s)) = sv_challenges s" "sv_challenges (fst (me u s)) = sv_challenges s"
  by (auto simp: rotate_def verify2FALogin_def logout_def me_def fail_def Let_def
      split_def reply_tokens_def decode_def issue_frame invalidate_frame
      split: option.split json_body.split)

lemma signalling_challenges: "sv_challenges (fst (serve_signalling acc r s)) = sv_challenges s"
  by (auto simp: serve_signalling_def sig_connect_def fail_def Let_def split: option.split prod.splits if_splits)

lemma listing_challenges:
  "sv_challenges (fst (listSessions u s)) = sv_challenges s" "sv_challenges (fst (listAudit u s)) = sv_challenges s"
  "sv_challenges (fst (listDevices now u s)) = sv_challenges s"
  "sv_challenges (fst (lookupDevice now c u s)) = sv_challenges s"
  "sv_challenges (fst (iceConfiguration e now k u s)) = sv_challenges s"
  "sv_challenges (fst (analyzeSessionWithAI p key e now k b u s)) = sv_challenges s"
  "sv_challenges (fst (revokeDevice e now k u s)) = sv_challenges s"
  "sv_challenges (fst (stopSession e now k u s)) = sv_challenges s"
  by (auto simp: listSessions_def listAudit_def listDevices_def lookupDevice_def iceConfiguration_def
      analyzeSessionWithAI_def stopSession_def decode_def fail_def Let_def
      split: option.split json_body.split ai_answer.split)

text \<open>The endpoints that take a device proof remove its nonce.\<close>

lemma forgets_proof:
  "(\<And>ok s'. forgets s' (f s' ok)) \<Longrightarrow> forgets s (case device_proof e now r u key s of (s', ok) \<Rightarrow> f s' ok)"
  unfolding split_def forgets_def by (simp add: device_proof_challenges get_del)

lemma forgets_target:
  assumes "\<And>s1 v. forgets s1 (F s1 v)"
  shows "forgets s (case targetSession e now r k user s of Inl out \<Rightarrow> out | Inr (s1, v) \<Rightarrow> F s1 v)"
proof -
  have "forgets s out" if "targetSession e now r k user s = Inl out" for out
    using that by (auto simp: targetSession_def Let_def forgets_def fail_def device_proof_challenges get_del
        split_def split: option.splits if_splits)
  moreover have "forgets s (F s1 v)" if t: "targetSession e now r k user s = Inr (s1, v)" for s1 v
  proof -
    have "get (sv_challenges s) n = None \<Longrightarrow> get (sv_challenges s1) n = None" for n
      using t by (auto simp: targetSession_def Let_def device_proof_challenges get_del split_def
          split: option.splits if_splits)
    with assms[of s1 v] show ?thesis by (simp add: forgets_def)
  qed
  ultimately show ?thesis by (auto split: sum.split)
qed

lemma forgets_scan:
  assumes "forgets s x" and "forgets s y" and "\<And>k d. forgets s (f k d)" and "\<And>n. forgets s (g n)"
  shows "forgets s (case c of ScanForeign \<Rightarrow> x | ScanRevoked \<Rightarrow> y | ScanFound k d \<Rightarrow> f k d | ScanCount n \<Rightarrow> g n)"
  using assms by (simp split: device_scan.split)

lemma session_ends_forget:
  "forgets s (update_session e now k v u a s)" "forgets s (reply_ended e now k v st u s)"
  "forgets s (update_session e now k v u a (take_from_rivals v' s))"
  "forgets s (create_session e now u source target perms s)"
  by (simp_all add: forgets_def update_session_frame reply_ended_frame take_from_rivals_frame
      create_session_def split_def Let_def split: option.split)

lemma proof_forgets:
  "forgets s (requestSession e now r b1 u s)" "forgets s (decideSession e now r k b2 u s)"
  "forgets s (changePermissions e now r k b3 u s)" "forgets s (handover e now r k u s)"
  unfolding requestSession_def request_from_def decideSession_def changePermissions_def handover_def Let_def
  by (intro forgets_decode forgets_target forgets_proof forgets_if forgets_pair session_ends_forget
      forgets_option forgets_prod)+

lemma registerDevice_forgets: "forgets s (registerDevice e now r b u s)"
  unfolding registerDevice_def Let_def
  by (intro forgets_decode forgets_if forgets_pair forgets_proof forgets_scan)
    (simp_all add: forgets_def split_def)

section \<open>Every step\<close>

lemma newChallenge_forgets:
  "get (sv_challenges s) n = None \<Longrightarrow> next_id e 32 s \<noteq> n \<Longrightarrow>
   get (sv_challenges (fst (newChallenge e now u s))) n = None"
  by (simp add: newChallenge_def randomID_next get_put)

lemma public_forgets: "serve_public w now ep r s = Some out \<Longrightarrow> forgets s out"
  by (cases ep) (auto simp: serve_public_def Let_def email_forgets forgets_same password_challenges
      account_challenges signalling_challenges)

lemma user_forgets: "ep \<noteq> EChallenge \<Longrightarrow> forgets s (serve_user w now ep vs r u s)"
  by (cases ep) (simp_all add: serve_user_def Let_def email_forgets totp_forgets team_forgets
      proof_forgets registerDevice_forgets forgets_same account_challenges listing_challenges)

lemma user_spent:
  assumes "get (sv_challenges s) n = None" and "next_id (wd_env w) 32 s \<noteq> n"
  shows "get (sv_challenges (fst (serve_user w now ep vs r u s))) n = None"
proof (cases "ep = EChallenge")
  case True
  with assms show ?thesis by (simp add: serve_user_def newChallenge_forgets)
next
  case False
  from user_forgets[OF this, of s w now vs r u] assms(1) show ?thesis by (simp add: forgets_def)
qed

lemma dispatch_spent:
  assumes "get (sv_challenges s) n = None" and "next_id (wd_env w) 32 s \<noteq> n"
  shows "get (sv_challenges (fst (dispatch w now r s))) n = None"
proof -
  have p: "get (sv_challenges (fst out)) n = None" if "serve_public w now ep r s = Some out" for ep out
    using public_forgets[OF that] assms(1) by (simp add: forgets_def)
  have a: "get (sv_challenges (fst (auth (wd_env w) now r (serve_user w now ep vs r) s))) n = None" for ep vs
    using user_spent[OF assms] assms(1) by (simp add: auth_def split: sum.split)
  show ?thesis
    using assms(1) p a unfolding dispatch_def Let_def by (simp split: option.split)
qed

lemma admit_spent:
  "get (sv_challenges s) n = None \<Longrightarrow> get (sv_challenges (fst (admit e now r s))) n = None"
  by (simp add: admit_def expire_def Let_def get_filter_None)

lemma step_spent:
  "service_step w s s' \<Longrightarrow> get (sv_challenges s) n = None \<Longrightarrow> next_id (wd_env w) 32 s \<noteq> n \<Longrightarrow>
   get (sv_challenges s') n = None"
proof (induction rule: service_step.induct)
  case (admission now s r)
  then show ?case by (simp add: admit_spent)
next
  case (dispatching now s r)
  then show ?case by (simp add: dispatch_spent)
next
  case (taking_slot s s')
  then show ?case by (auto simp: authSlot_Some)
next
  case (framing s i p f)
  then show ?case
    by (auto simp: sig_frame_def Let_def split: frame.split option.split)
next
  case (draining s p)
  then show ?case by (auto simp: sig_drain_def split: option.split list.split)
next
  case (reordering s s')
  then show ?case by (auto simp: reordered_def map_of_eq_None_iff)
qed (simp_all add: insert_challenges finish_challenges sig_close_def)

text \<open>A run in which the random source does not draw the nonce \<open>n\<close> for a challenge.\<close>

definition other_draws :: "'st world \<Rightarrow> string \<Rightarrow> 'st service \<Rightarrow> 'st service \<Rightarrow> bool" where
  "other_draws w n s s' \<longleftrightarrow> service_step w s s' \<and> next_id (wd_env w) 32 s \<noteq> n"

lemma run_spent:
  assumes "(other_draws w n)\<^sup>*\<^sup>* s s'" and "get (sv_challenges s) n = None"
  shows "get (sv_challenges s') n = None"
  using assms by (induction rule: rtranclp_induct) (auto simp: other_draws_def intro: step_spent)

end
