(* ===== verification/Session_Claims.thy ===== *)
theory Session_Claims
  imports Demo_State Session_Consent Ownership Disclosure Nonces
begin

text \<open>
  The properties of sessions, devices and device proofs, each with its witness on the demonstration
  service.
\<close>

section \<open>Rights\<close>

text \<open>C1: no right without the consent of the target's owner: if a session has a permission after
  a request that it did not have before, the request was an authenticated call of the decision, the
  permissions or the handover endpoint for this very session, by the owner of the target device,
  with that device connected and a fresh proof of possession of its key; and the operator had asked
  for the permission. The state in which the caller is checked is the one after admission.\<close>

theorem rights_need_consent:
  assumes "service_inv s"
    and "get (sv_sessions (fst (serve w now r s))) k = Some v'" and "p \<in> set (s_Granted v')"
    and "\<And>v. get (sv_sessions s) k = Some v \<Longrightarrow> p \<notin> set (s_Granted v)"
    and "s1 = fst (admit (wd_env w) now r s)"
  shows "\<exists>user v. grants_through w now r s1 user k \<and> get (sv_sessions s1) k = Some v \<and>
    open_session v \<and> p \<in> set (s_Requested v) \<and> target_side (wd_env w) now r user v s1"
proof -
  have inv: "service_inv s1" using admit_keeps[OF assms(1)] assms(5) by (simp add: keeps_def)
  have new: "p \<in> granted_at (sv_sessions (fst (serve w now r s))) k"
    using assms(2,3) by (simp add: granted_at_def)
  have "fewer_grants (sv_sessions s) (sv_sessions s1)"
    using expire_grants[OF table_invD(2)[OF service_invD(4)[OF assms(1)]]]
    by (simp add: assms(5) admit_state)
  moreover have "p \<notin> granted_at (sv_sessions s) k"
    using assms(4) by (auto simp: granted_at_def split: option.splits)
  ultimately have old: "p \<notin> granted_at (sv_sessions s1) k" by (auto simp: fewer_grants_def)
  have "fst (serve w now r s) = fst (dispatch w now r s1)"
    using new old by (cases rule: serve_cases[of w now r s]) (simp_all add: assms(5))
  from dispatch_gains[OF inv _ old, of w now r] new this show ?thesis
    unfolding consented_def by auto
qed

theorem rights_need_consent_witness:
  "\<exists>user v. grants_through demo_world 0 demo_approval (demo_admitted demo_approval) user ''s-ann'' \<and>
    get (sv_sessions (demo_admitted demo_approval)) ''s-ann'' = Some v \<and> open_session v \<and>
    ''view'' \<in> set (s_Requested v) \<and>
    target_side (wd_env demo_world) 0 demo_approval user v (demo_admitted demo_approval)"
proof -
  obtain v' where v': "get (sv_sessions (fst (serve demo_world 0 demo_approval demo_service))) ''s-ann''
      = Some v'" "s_Granted v' = [''view'']"
    using demo_approval_session by (auto simp: map_option_eq_Some)
  have "demo_admitted demo_approval = fst (admit (wd_env demo_world) 0 demo_approval demo_service)"
    by (simp add: demo_world_def demo_admit)
  from rights_need_consent[OF demo_inv v'(1) _ _ this, of "''view''"] v'(2) show ?thesis
    by (simp add: demo_service_def demo_session_def)
qed

section \<open>Ownership\<close>

text \<open>C5: no request touches what belongs to somebody else. Whatever the request, once it is admitted:
  a stored session changes only if the caller proved to be its operator or the owner of its target;
  a device changes only if the caller proved to be its owner, and keeps its owner, its key and a
  revocation; an account changes only in its token version, raised by one, by a caller who proved to
  be its user; a refresh token changes only by being marked as used, by a caller who proved to be its
  user. A caller proves to be a user by a valid bearer token or by a refresh token of that user.\<close>

theorem records_touched_by_owner:
  assumes "service_inv s" and s1: "s1 = fst (admit (wd_env w) now r s)"
    and "fresh_draws (wd_env w) s1" and s': "s' = fst (serve w now r s)"
  shows "(\<forall>k v. get (sv_sessions s1) k = Some v \<and> get (sv_sessions s') k \<noteq> Some v \<longrightarrow>
      (\<exists>u. acts_for w now r s1 u \<and> visible s1 v u)) \<and>
    (\<forall>k d. get (sv_devices s1) k = Some d \<and> get (sv_devices s') k \<noteq> Some d \<longrightarrow>
      acts_for w now r s1 (d_OwnerID d) \<and>
      (\<exists>d'. get (sv_devices s') k = Some d' \<and> d_OwnerID d' = d_OwnerID d \<and>
         d_PublicKey d' = d_PublicKey d \<and> (d_Revoked d \<longrightarrow> d_Revoked d'))) \<and>
    (\<forall>k a. get (sv_accounts s1) k = Some a \<and> get (sv_accounts s') k \<noteq> Some a \<longrightarrow>
      acts_for w now r s1 k \<and> get (sv_accounts s') k = Some (a\<lparr>a_Version := a_Version a + 1\<rparr>)) \<and>
    (\<forall>h t. get (sv_refresh s1) h = Some t \<and> get (sv_refresh s') h \<noteq> Some t \<longrightarrow>
      acts_for w now r s1 (r_UserID t) \<and> get (sv_refresh s') h = Some (t\<lparr>r_Used := True\<rparr>))"
proof (cases rule: serve_cases[of w now r s])
  case Refused
  then show ?thesis by (simp add: s1 s')
next
  case Admitted
  have "service_inv s1" using admit_keeps[OF assms(1)] s1 by (simp add: keeps_def)
  moreover have "s' = fst (dispatch w now r s1)" using Admitted by (simp add: s1 s')
  ultimately have own: "service_inv s1" "fresh_draws (wd_env w) s1" "s' = fst (dispatch w now r s1)"
    using assms(3) by simp_all
  show ?thesis
    by (intro conjI; intro allI impI; elim conjE;
      (rule dispatch_owners(1)[OF own] | rule dispatch_owners(2)[OF own]
        | rule dispatch_owners(3)[OF own] | rule dispatch_owners(4)[OF own]); assumption)
qed

theorem records_touched_by_owner_witness:
  "\<exists>u. acts_for demo_world 0 demo_approval (demo_admitted demo_approval) u \<and>
    visible (demo_admitted demo_approval)
      (demo_session ''s-ann'' ''ann'' ''dev-ann'' (CHR ''a'') ''pending'' []) u"
proof -
  let ?v = "demo_session ''s-ann'' ''ann'' ''dev-ann'' (CHR ''a'') ''pending'' []"
  have s1: "demo_admitted demo_approval = fst (admit (wd_env demo_world) 0 demo_approval demo_service)"
    by (simp add: demo_world_def demo_admit)
  have "get (sv_sessions (demo_admitted demo_approval)) ''s-ann'' = Some ?v"
    by (simp add: demo_admitted_def demo_service_def)
  moreover have "get (sv_sessions (fst (serve demo_world 0 demo_approval demo_service))) ''s-ann''
      \<noteq> Some ?v"
    using demo_approval_session by (auto simp: demo_session_def)
  ultimately show ?thesis
    using records_touched_by_owner[OF demo_inv s1 demo_fresh[of demo_approval, folded s1] refl] by blast
qed

text \<open>C7: every reply has the type of its endpoint. Whatever the request and the state, a reply is an
  error object under a status from 400 to 599, or has the kind of body and one of the statuses that
  belong to the endpoint the request is routed to (for the signalling endpoint: 101, or the status
  with which the websocket library has refused the handshake); only a request that no endpoint serves is answered
  with a plain text, under 301 when its path is not clean and under 404 or 405 when no route takes it.\<close>

theorem replies_well_typed:
  assumes "serve w now r s = (s', Reply st body)"
  shows "(kind_of body = ErrorBody \<and> 400 \<le> st \<and> st < 600) \<or>
    (if \<not> clean_path (raw_segments r) then kind_of body = PlainBody \<and> st = 301
     else case find_route routes (rq_Method r) (path_segments r) of
       None \<Rightarrow> kind_of body = PlainBody \<and> st \<in> {404, 405}
     | Some (ep, vs) \<Rightarrow> kind_of body = fst (reply_type w r ep) \<and> st \<in> set (snd (reply_type w r ep)))"
proof -
  have "refusal st body \<or> of_type (routed_type w r) st body"
    using serve_typed[of w r now s] assms by (simp add: typed_def)
  then show ?thesis
    by (auto simp: routed_type_def of_type_def dest: refusal_JError refusal_status split: option.splits if_splits)
qed

theorem replies_well_typed_witness:
  "\<exists>s' body. serve demo_world 0 demo_approval demo_service = (s', Reply 200 body) \<and>
    kind_of body = SessionBody"
proof -
  have r: "clean_path (raw_segments demo_approval)"
    "find_route routes (rq_Method demo_approval) (path_segments demo_approval) = Some (EDecision, [''s-ann''])"
    by code_simp+
  have "case snd (serve demo_world 0 demo_approval demo_service) of Panicked \<Rightarrow> False
      | Reply st body \<Rightarrow> kind_of body \<noteq> ErrorBody"
    unfolding demo_approval_decides by code_simp
  then obtain s' st body where d: "serve demo_world 0 demo_approval demo_service = (s', Reply st body)"
    "kind_of body \<noteq> ErrorBody"
    by (cases "serve demo_world 0 demo_approval demo_service") (auto split: reply.splits)
  from replies_well_typed[OF d(1)] r d show ?thesis by (simp add: reply_type_def)
qed



section \<open>The lifecycle\<close>

text \<open>C2: every request, whatever it is, takes each stored session along its lifecycle: a session is
  never lost, moves only by the steps of \<open>session_step\<close> (end, approval, change of grants, each with
  the next epoch), and a session that is new is pending, grants nothing and expires in two
  minutes, up to further steps of the same request.\<close>

theorem serve_follows_lifecycle:
  assumes "service_inv s" and "fresh_draws (wd_env w) (fst (admit (wd_env w) now r s))"
    and "m' = sv_sessions (fst (serve w now r s))"
  shows "(\<forall>k v. get (sv_sessions s) k = Some v \<longrightarrow>
      (\<exists>v'. get m' k = Some v' \<and> (session_step now)\<^sup>*\<^sup>* v v')) \<and>
    (\<forall>k v'. get m' k = Some v' \<longrightarrow>
      (\<exists>v. (session_step now)\<^sup>*\<^sup>* v v' \<and>
        (get (sv_sessions s) k = Some v \<or>
         (get (sv_sessions s) k = None \<and> initial_session now v))))"
  using table_steps_get[OF serve_inv(2)[OF assms(1,2)]]
    table_steps_back[OF serve_inv(2)[OF assms(1,2)]]
  unfolding assms(3) by blast

theorem serve_follows_lifecycle_witness:
  "\<exists>v'. get (sv_sessions (fst (serve demo_world 0 demo_approval demo_service))) ''s-ann'' = Some v' \<and>
    (session_step 0)\<^sup>*\<^sup>* (demo_session ''s-ann'' ''ann'' ''dev-ann'' (CHR ''a'') ''pending'' []) v'"
proof -
  have "get (sv_sessions demo_service) ''s-ann'' =
      Some (demo_session ''s-ann'' ''ann'' ''dev-ann'' (CHR ''a'') ''pending'' [])"
    by (simp add: demo_service_def)
  with serve_follows_lifecycle[OF demo_inv demo_fresh refl, of demo_approval] show ?thesis
    by blast
qed

text \<open>The end of a session is final: a session that is rejected, closed, expired or revoked is
  still there after any request, unchanged, with its epoch.\<close>

lemma final_session_frozen:
  assumes "service_inv s" and "fresh_draws (wd_env w) (fst (admit (wd_env w) now r s))"
    and "get (sv_sessions s) k = Some v" and "s_State v \<in> {''rejected'', ''closed'', ''expired'', ''revoked''}"
  shows "get (sv_sessions (fst (serve w now r s))) k = Some v"
proof -
  from table_steps_get[OF serve_inv(2)[OF assms(1,2)] assms(3)] obtain v' where
    v': "get (sv_sessions (fst (serve w now r s))) k = Some v'" "(session_step now)\<^sup>*\<^sup>* v v'" by blast
  have "\<not> open_session v" using assms(4) by (auto simp: open_session_def)
  with v'(2) have "v' = v" by (auto elim: converse_rtranclpE dest: session_step_open)
  with v'(1) show ?thesis by simp
qed

text \<open>C3: one pair of hands: after any request, while one active session of a target device holds
  mouse or keyboard control, no other active session of that device holds either.\<close>

theorem single_controller:
  assumes "service_inv s" and "fresh_draws (wd_env w) (fst (admit (wd_env w) now r s))"
    and "get (sv_sessions (fst (serve w now r s))) k = Some v"
    and "get (sv_sessions (fst (serve w now r s))) k' = Some v'" and "k \<noteq> k'"
    and "s_State v = ''active''" "''mouse'' \<in> set (s_Granted v) \<or> ''keyboard'' \<in> set (s_Granted v)"
    and "s_State v' = ''active''" "s_TargetID v = s_TargetID v'"
  shows "''mouse'' \<notin> set (s_Granted v') \<and> ''keyboard'' \<notin> set (s_Granted v')"
proof -
  have "one_controller (sv_sessions (fst (serve w now r s)))"
    by (rule table_invD(3)[OF service_invD(4)[OF serve_inv(1)[OF assms(1,2)]]])
  with assms(3-) have "\<not> controls (s_Granted v')"
    unfolding one_controller_def controlling_def controls_iff perm_names by blast
  then show ?thesis by (simp add: controls_iff perm_names)
qed

lemma demo_approval_table:
  "sv_sessions (fst (serve demo_world 0 demo_approval demo_service)) =
    adjust ''s-ann'' (\<lambda>_. approved 0 [''view'']
      (demo_session ''s-ann'' ''ann'' ''dev-ann'' (CHR ''a'') ''pending'' [])) (sv_sessions demo_service)"
proof -
  obtain s' rep where d: "decideSession demo_env 0 demo_approval ''s-ann''
      (OneObject \<lparr>dr_Approve = True, dr_Permissions = [''view'']\<rparr>) ''bob''
      (demo_admitted demo_approval) = (s', rep)" by force
  have s': "fst (serve demo_world 0 demo_approval demo_service) = s'"
    by (simp add: demo_approval_decides d)
  have g: "get (sv_sessions (demo_admitted demo_approval)) ''s-ann'' =
      Some (demo_session ''s-ann'' ''ann'' ''dev-ann'' (CHR ''a'') ''pending'' [])"
    by (simp add: demo_admitted_def demo_service_def)
  from d show ?thesis
  proof (cases rule: decideSession_cases)
    case Failed
    with demo_approval_session g show ?thesis by (simp add: s' demo_session_def)
  next
    case (Approved q v)
    with g show ?thesis by (auto simp: s' demo_admitted_def)
  qed auto
qed

lemma demo_approval_targets:
  "map_option (\<lambda>v. (s_State v, s_Granted v, s_TargetID v))
     (get (sv_sessions (fst (serve demo_world 0 demo_approval demo_service))) ''s-ann'') =
   Some (''active'', [''view''], ''dev-bob'')"
  "map_option (\<lambda>v. (s_State v, s_Granted v, s_TargetID v))
     (get (sv_sessions (fst (serve demo_world 0 demo_approval demo_service))) ''s-carol'') =
   Some (''active'', [''view'', ''mouse''], ''dev-bob'')"
  unfolding demo_approval_table
  by (simp_all add: get_adjust demo_service_def approved_def demo_session_def)

theorem single_controller_witness:
  "\<exists>v'. get (sv_sessions (fst (serve demo_world 0 demo_approval demo_service))) ''s-ann'' = Some v' \<and>
    s_State v' = ''active'' \<and> ''mouse'' \<notin> set (s_Granted v') \<and> ''keyboard'' \<notin> set (s_Granted v')"
proof -
  obtain v' where v': "get (sv_sessions (fst (serve demo_world 0 demo_approval demo_service))) ''s-ann''
      = Some v'" "s_State v' = ''active''" "s_TargetID v' = ''dev-bob''"
    using demo_approval_targets(1) by (auto simp: map_option_eq_Some)
  moreover obtain v where v: "get (sv_sessions (fst (serve demo_world 0 demo_approval demo_service)))
      ''s-carol'' = Some v" "s_State v = ''active''" "s_TargetID v = ''dev-bob''"
      "s_Granted v = [''view'', ''mouse'']"
    using demo_approval_targets(2) by (auto simp: map_option_eq_Some)
  ultimately show ?thesis
    using single_controller[OF demo_inv demo_fresh v(1) v'(1)] by simp
qed

section \<open>Handover, revocation, requests\<close>

text \<open>C14: a successful handover moves input control as a whole: the session named in the call is
  active and now holds each of mouse and keyboard it had asked for, every other active session of
  the same device loses both and nothing else, and sessions of other devices or in other states are
  untouched.\<close>

theorem handover_effect:
  assumes "service_inv s" and "handover e now r k user s = (s', Reply 200 (JSession v'))"
  shows "\<exists>v. get (sv_sessions s) k = Some v \<and> s_State v = ''active'' \<and>
    v' = handed_over v \<and> get (sv_sessions s') k = Some (handed_over v) \<and>
    set (s_Granted (handed_over v)) =
      set (s_Granted v) \<union> (set (s_Requested v) \<inter> {''mouse'', ''keyboard''}) \<and>
    (\<forall>k' u. get (sv_sessions s) k' = Some u \<and> k' \<noteq> k \<longrightarrow>
      get (sv_sessions s') k' = Some
        (if s_TargetID u = s_TargetID v \<and> s_State u = ''active''
         then u\<lparr>s_Granted := filter (\<lambda>p. p \<noteq> ''mouse'' \<and> p \<noteq> ''keyboard'') (s_Granted u),
                s_Epoch := s_Epoch u + 1\<rparr>
         else u))"
  using assms(2) table_invD(2)[OF service_invD(4)[OF assms(1)]]
proof (cases rule: handover_cases)
  case Failed
  then show ?thesis by (simp add: error_reply_def)
next
  case (Moved v)
  note inv = service_invD(4)[OF assms(1)]
  have self: "get (sv_sessions s') k = Some (handed_over v)"
    using Moved(1) by (simp add: Moved(5) get_adjust yield_rivals_def get_each)
  have "set (s_Granted (handed_over v)) =
      set (s_Granted v) \<union> (set (s_Requested v) \<inter> {''mouse'', ''keyboard''})"
    by (simp add: handed_over_def set_grant_controls perm_names)
  moreover have "yield_control u = u\<lparr>s_Granted := filter (\<lambda>p. p \<noteq> ''mouse'' \<and> p \<noteq> ''keyboard'')
      (s_Granted u), s_Epoch := s_Epoch u + 1\<rparr>" for u
    by (simp add: yield_control_def drop_controls_filter perm_names)
  ultimately show ?thesis
    using Moved self handover_table(2)[OF inv Moved(1,3)] by auto
qed

text \<open>C23: revoking a device works at once and only for its owner: afterwards the device is marked
  revoked and counts as offline, every open session that had it as source or target is revoked
  without any grant, and every other session is as before.\<close>

theorem revokeDevice_effect:
  assumes "service_inv s" and "revokeDevice e now k user s = (s', Reply 200 JOk)"
  shows "\<exists>d. get (sv_devices s) k = Some d \<and> d_OwnerID d = user \<and>
    get (sv_devices s') k = Some (d\<lparr>d_Revoked := True\<rparr>) \<and> \<not> live now' s' (get (sv_devices s') k) \<and>
    (\<forall>i v. get (sv_sessions s) i = Some v \<longrightarrow>
      get (sv_sessions s') i = Some
        (if (s_SourceID v = k \<or> s_TargetID v = k) \<and> (s_State v = ''pending'' \<or> s_State v = ''active'')
         then v\<lparr>s_State := ''revoked'', s_Granted := [], s_Epoch := s_Epoch v + 1\<rparr> else v))"
  using assms(2) table_invD(2)[OF service_invD(4)[OF assms(1)]] service_invD(3)[OF assms(1)]
proof (cases rule: revokeDevice_cases)
  case (Revoked d)
  then have "get (sv_devices s') k = Some (d\<lparr>d_Revoked := True\<rparr>)" by (simp add: get_adjust)
  with Revoked show ?thesis
    by (auto simp: get_each live_Some uses_device_def open_session_def ended_def)
qed simp

abbreviation demo_swap :: http_request where
  "demo_swap \<equiv> demo_request ''POST'' ''/v1/sessions/s-carol/handover'' ''n-bob'' (CHR ''b'')"

lemma demo_swap_proof:
  "snd (device_proof demo_env 0 demo_swap ''bob'' (demo_pk (CHR ''b'')) demo_service)"
  by code_simp

lemma demo_approval_proof:
  "snd (device_proof demo_env 0 demo_approval ''bob'' (demo_pk (CHR ''b'')) demo_service)"
  by code_simp

lemma demo_handover:
  "snd (handover demo_env 0 demo_swap ''s-carol'' ''bob'' demo_service) =
    Reply 200 (JSession (handed_over (demo_session ''s-carol'' ''carol'' ''dev-carol'' (CHR ''c'')
      ''active'' [''view'', ''mouse''])))"
proof -
  let ?v = "demo_session ''s-carol'' ''carol'' ''dev-carol'' (CHR ''c'') ''active'' [''view'', ''mouse'']"
  let ?d = "demo_device ''dev-bob'' ''bob'' (CHR ''b'')"
  have p: "snd (device_proof demo_env 0 demo_swap ''bob'' (d_PublicKey ?d) demo_service)"
    using demo_swap_proof by (simp add: demo_device_def)
  have "get (sv_sessions demo_service) ''s-carol'' = Some ?v"
    "get (sv_devices demo_service) (s_TargetID ?v) = Some ?d"
    "live 0 demo_service (Some ?d)" "d_OwnerID ?d = ''bob''"
    by (simp_all add: demo_service_def live_Some demo_session_def demo_device_def time_sub_def
        second_def)
  with p have "targetSession demo_env 0 demo_swap ''s-carol'' ''bob'' demo_service =
      Inr (fst (device_proof demo_env 0 demo_swap ''bob'' (d_PublicKey ?d) demo_service), ?v)"
    by (simp add: targetSession_def split_def Let_def)
  moreover have "s_State ?v = ''active''" "controls (s_Requested ?v)"
    by (simp_all add: demo_session_def controls_iff perm_names)
  ultimately show ?thesis
    by (simp add: handover_def update_session_def handed_over_def Let_def)
qed

theorem handover_effect_witness:
  "\<exists>s' v'. handover demo_env 0 demo_swap ''s-carol'' ''bob'' demo_service = (s', Reply 200 (JSession v')) \<and>
    get (sv_sessions s') ''s-carol'' = Some v'"
proof -
  obtain s' rep where h: "handover demo_env 0 demo_swap ''s-carol'' ''bob'' demo_service = (s', rep)" by force
  with demo_handover have h': "handover demo_env 0 demo_swap ''s-carol'' ''bob'' demo_service = (s', Reply 200 (JSession (handed_over
        (demo_session ''s-carol'' ''carol'' ''dev-carol'' (CHR ''c'') ''active'' [''view'', ''mouse'']))))"
    by simp
  from handover_effect[OF demo_inv h'] obtain v where
    "get (sv_sessions s') ''s-carol'' = Some (handed_over (demo_session ''s-carol'' ''carol''
      ''dev-carol'' (CHR ''c'') ''active'' [''view'', ''mouse'']))" by (elim exE conjE) simp
  with h' show ?thesis by (intro exI conjI)
qed

theorem revokeDevice_effect_witness:
  "\<exists>s'. revokeDevice demo_env 0 ''dev-bob'' ''bob'' demo_service = (s', Reply 200 JOk) \<and>
    map_option s_State (get (sv_sessions s') ''s-carol'') = Some ''revoked'' \<and>
    map_option s_State (get (sv_sessions s') ''s-ann'') = Some ''revoked''"
proof -
  obtain s' rep where r: "revokeDevice demo_env 0 ''dev-bob'' ''bob'' demo_service = (s', rep)" by force
  then have "rep = Reply 200 JOk"
    by (auto simp: revokeDevice_def Let_def demo_service_def demo_device_def)
  with r have d: "revokeDevice demo_env 0 ''dev-bob'' ''bob'' demo_service = (s', Reply 200 JOk)"
    by simp
  have "get (sv_sessions demo_service) ''s-carol'' = Some (demo_session ''s-carol'' ''carol''
      ''dev-carol'' (CHR ''c'') ''active'' [''view'', ''mouse''])"
    "get (sv_sessions demo_service) ''s-ann'' =
      Some (demo_session ''s-ann'' ''ann'' ''dev-ann'' (CHR ''a'') ''pending'' [])"
    by (simp_all add: demo_service_def)
  with revokeDevice_effect[OF demo_inv d, of 0] show ?thesis
    using d by (auto simp: demo_session_def)
qed

text \<open>C18: a session request succeeds exactly when the caller owns a connected source device and
  proves possession of its key, the target is another connected device, the permissions are valid
  and include view, and the caller has no open session with the target and fewer than ten in all;
  the reply is then the stored pending session.\<close>

theorem requestSession_iff:
  assumes "get (sv_accounts s) user \<noteq> None"
  shows "(\<exists>v. snd (requestSession e now r (OneObject q) user s) = Reply 201 (JSession v) \<and>
      get (sv_sessions (fst (requestSession e now r (OneObject q) user s))) (s_ID v) = Some v \<and>
      s_State v = ''pending'' \<and> s_Granted v = [] \<and> s_Expires v = now + 2 * minute) \<longleftrightarrow>
    (\<exists>source target. requestable now user q source target s \<and>
      snd (device_proof e now r user (d_PublicKey source) s))"
    (is "?succeeds \<longleftrightarrow> ?allowed")
proof
  obtain s' rep where d: "requestSession e now r (OneObject q) user s = (s', rep)" by force
  assume ?succeeds
  from d show ?allowed
  proof (cases rule: requestSession_cases)
    case Failed
    with \<open>?succeeds\<close> d show ?thesis by (auto simp: error_reply_def)
  qed blast
next
  assume ?allowed
  then obtain source target where a: "requestable now user q source target s"
    "snd (device_proof e now r user (d_PublicKey source) s)" by blast
  let ?p = "device_proof e now r user (d_PublicKey source) s"
  have scan: "scan_sessions user (d_ID target) (vals (sv_sessions s)) 0 =
      Some (count_map (\<lambda>v. s_OperatorID v = user \<and> open_session v) (sv_sessions s))"
  proof (cases "scan_sessions user (d_ID target) (vals (sv_sessions s)) 0")
    case None
    with a(1) show ?thesis by (auto simp: scan_sessions_None requestable_def)
  next
    case (Some c)
    with scan_sessions_Some[OF Some] show ?thesis by (simp add: count_map_def)
  qed
  define v where "v = new_session now (next_id e 18 s) user source target (sq_Permissions q)"
  have "request_from e now r q user source target s =
      create_session e now user source target (sq_Permissions q) (fst ?p)"
    using a scan by (simp add: request_from_def split_def Let_def requestable_def)
  then have out: "requestSession e now r (OneObject q) user s =
      create_session e now user source target (sq_Permissions q) (fst ?p)"
    using a by (simp add: requestSession_def decode_def requestable_def)
  obtain s' rep where d: "create_session e now user source target (sq_Permissions q) (fst ?p) = (s', rep)"
    by force
  have "v = new_session now (next_id e 18 (fst ?p)) user source target (sq_Permissions q)"
    by (simp add: v_def next_id_def)
  from create_session_cases[OF d this] assms show ?succeeds
    by (intro exI[of _ v]) (auto simp: out d v_def new_session_def get_put)
qed

definition demo_request_q :: session_request where
  "demo_request_q =
     \<lparr>sq_SourceID = ''dev-ann'', sq_TargetID = ''dev-carol'', sq_Permissions = [''view'']\<rparr>"

theorem requestSession_iff_witness:
  "\<exists>v. snd (requestSession demo_env 0 (demo_request ''POST'' ''/v1/sessions'' ''n-ann'' (CHR ''a''))
      (OneObject demo_request_q) ''ann'' demo_service) = Reply 201 (JSession v) \<and>
    s_State v = ''pending''"
proof -
  have 1: "get (sv_accounts demo_service) ''ann'' \<noteq> None" by (simp add: demo_service_def)
  have 2: "requestable 0 ''ann'' demo_request_q (demo_device ''dev-ann'' ''ann'' (CHR ''a''))
      (demo_device ''dev-carol'' ''carol'' (CHR ''c'')) demo_service"
    by (simp add: requestable_def demo_request_q_def demo_service_def live_Some demo_device_def
        demo_session_def time_sub_def second_def demo_perms open_session_def count_map_def)
  have 3: "snd (device_proof demo_env 0 (demo_request ''POST'' ''/v1/sessions'' ''n-ann'' (CHR ''a''))
      ''ann'' (d_PublicKey (demo_device ''dev-ann'' ''ann'' (CHR ''a''))) demo_service)"
    by code_simp
  from requestSession_iff[OF 1, of demo_env 0 "demo_request ''POST'' ''/v1/sessions'' ''n-ann'' (CHR ''a'')"
      demo_request_q] 2 3
  show ?thesis by blast
qed

section \<open>Device proofs and expiry\<close>



text \<open>C24: expiry is exact: at time \<open>now\<close> the open sessions whose deadline has come (not one
  instant earlier) are ended as expired, every other session is untouched, and exactly the rate
  windows and refresh tokens that are still running are kept.\<close>

theorem expire_exact:
  assumes "service_inv s"
  shows "get (sv_sessions (expire e now s)) k =
      map_option (\<lambda>v. if (s_State v = ''pending'' \<or> s_State v = ''active'') \<and> s_Expires v \<le> now
        then v\<lparr>s_State := ''expired'', s_Granted := [], s_Epoch := s_Epoch v + 1\<rparr> else v)
        (get (sv_sessions s) k) \<and>
    (get (sv_refresh (expire e now s)) h = Some t \<longleftrightarrow>
      get (sv_refresh s) h = Some t \<and> now < r_Expires t) \<and>
    (get (sv_rates (expire e now s)) a = Some w \<longleftrightarrow>
      get (sv_rates s) a = Some w \<and> now < rl_Until w)"
proof -
  note i = service_invD[OF assms]
  have 1: "get (sv_sessions (expire e now s)) k =
      map_option (\<lambda>v. if (s_State v = ''pending'' \<or> s_State v = ''active'') \<and> s_Expires v \<le> now
        then v\<lparr>s_State := ''expired'', s_Granted := [], s_Epoch := s_Epoch v + 1\<rparr> else v)
        (get (sv_sessions s) k)"
    unfolding expire_sessions[OF table_invD(2)[OF i(4)]] get_each open_session_def ended_def
      not_less ..
  show ?thesis
    unfolding 1 expire_refresh expire_rates
    using token_invD(1)[OF i(2)] i(9) by (auto simp: get_filter split: option.split)
qed

theorem expire_exact_witness:
  "map_option s_State (get (sv_sessions (expire demo_env hour demo_service)) ''s-ann'') = Some ''expired''"
proof -
  have "get (sv_sessions demo_service) ''s-ann'' =
      Some (demo_session ''s-ann'' ''ann'' ''dev-ann'' (CHR ''a'') ''pending'' [])"
    by (simp add: demo_service_def)
  with expire_exact[OF demo_inv, of demo_env hour "''s-ann''"] show ?thesis
    by (simp add: demo_session_def)
qed

text \<open>C25: the session endpoints never dereference a missing device: in a state that satisfies the
  invariant no decision, change of permissions, handover or stop panics, for any request.\<close>

theorem session_calls_never_panic:
  assumes "service_inv s"
  shows "snd (decideSession e now r k b user s) \<noteq> Panicked \<and>
    snd (changePermissions e now r k b' user s) \<noteq> Panicked \<and>
    snd (handover e now r k user s) \<noteq> Panicked \<and> snd (stopSession e now k user s) \<noteq> Panicked"
proof -
  have t: "snd (case targetSession e now r k user s of Inl out \<Rightarrow> out | Inr (s1, v) \<Rightarrow> F s1 v) \<noteq> Panicked"
    if "\<And>s1 v. snd (F s1 v) \<noteq> Panicked" for F
  proof
    assume p: "snd (case targetSession e now r k user s of Inl out \<Rightarrow> out | Inr (s1, v) \<Rightarrow> F s1 v) = Panicked"
    with that obtain out where "targetSession e now r k user s = Inl out" "snd out = Panicked"
      by (auto split: sum.splits)
    with targetSession_Inl_reply[of e now r k user s out] obtain v where
      v: "get (sv_sessions s) k = Some v" "get (sv_devices s) (s_TargetID v) = None" by auto
    from link_invD[OF service_invD(5)[OF assms] v(1)] v(2) show False by (auto elim: linkedE)
  qed
  note defs = fail_def reply_ended_def update_session_def Let_def
  have "snd (decideSession e now r k b user s) \<noteq> Panicked"
    unfolding decideSession_def by (cases b) (simp_all add: decode_def t defs)
  moreover have "snd (changePermissions e now r k b' user s) \<noteq> Panicked"
    unfolding changePermissions_def by (cases b') (simp_all add: decode_def t defs)
  moreover have "snd (handover e now r k user s) \<noteq> Panicked"
    unfolding handover_def by (simp add: t defs)
  moreover have "snd (stopSession e now k user s) \<noteq> Panicked"
    by (simp add: stopSession_def defs split: option.split)
  ultimately show ?thesis by blast
qed

text \<open>Bob, the owner of the target, with a valid proof: all four calls reach a stored session.\<close>

lemma demo_reaches:
  assumes "snd (device_proof demo_env 0 r ''bob'' (demo_pk (CHR ''b'')) demo_service)"
    and "get (sv_sessions demo_service) k = Some v" and "s_TargetID v = ''dev-bob''"
  shows "\<not> isl (targetSession demo_env 0 r k ''bob'' demo_service)"
proof -
  let ?d = "demo_device ''dev-bob'' ''bob'' (CHR ''b'')"
  have "get (sv_devices demo_service) ''dev-bob'' = Some ?d" "live 0 demo_service (Some ?d)"
    "d_OwnerID ?d = ''bob''" "d_PublicKey ?d = demo_pk (CHR ''b'')"
    by (simp_all add: demo_service_def live_Some demo_device_def time_sub_def second_def)
  with assms show ?thesis by (simp add: targetSession_def split_def Let_def)
qed

theorem session_calls_never_panic_witness:
  "\<not> isl (targetSession demo_env 0 demo_approval ''s-ann'' ''bob'' demo_service) \<and>
   snd (decideSession demo_env 0 demo_approval ''s-ann''
     (OneObject \<lparr>dr_Approve = True, dr_Permissions = [''view'']\<rparr>) ''bob'' demo_service) \<noteq> Panicked \<and>
   \<not> isl (targetSession demo_env 0 demo_swap ''s-carol'' ''bob'' demo_service) \<and>
   snd (changePermissions demo_env 0 demo_swap ''s-carol'' (OneObject [''view'']) ''bob'' demo_service)
     \<noteq> Panicked \<and>
   snd (handover demo_env 0 demo_swap ''s-carol'' ''bob'' demo_service) \<noteq> Panicked \<and>
   get (sv_sessions demo_service) ''s-carol'' \<noteq> None \<and>
   snd (stopSession demo_env 0 ''s-carol'' ''bob'' demo_service) \<noteq> Panicked"
proof -
  from demo_approval_proof[THEN demo_reaches] demo_swap_proof[THEN demo_reaches] have
    "\<not> isl (targetSession demo_env 0 demo_approval ''s-ann'' ''bob'' demo_service)"
    "\<not> isl (targetSession demo_env 0 demo_swap ''s-carol'' ''bob'' demo_service)"
    by (simp_all add: demo_service_def demo_session_def)
  moreover have "get (sv_sessions demo_service) ''s-carol'' \<noteq> None" by (simp add: demo_service_def)
  ultimately show ?thesis using session_calls_never_panic[OF demo_inv] by blast
qed

end
