(* ===== verification/Account_Claims.thy ===== *)
theory Account_Claims
  imports Demo_State
begin

text \<open>
  The properties of accounts, access tokens and refresh tokens: what a log-out ends, what a reused
  refresh token triggers, who can log in, and what an account can do after registration.
\<close>

section \<open>Log-out\<close>

lemma token_marks [simp]:
  "r_Used (uses_up user t) \<longleftrightarrow> r_UserID t = user \<or> r_Used t"
  "r_UserID (uses_up user t) = r_UserID t" "r_Family (uses_up user t) = r_Family t"
  "r_Used (spends_family f t) \<longleftrightarrow> r_Family t = f \<or> r_Used t"
  "r_UserID (spends_family f t) = r_UserID t" "r_Family (spends_family f t) = r_Family t"
  by (simp_all add: uses_up_def spends_family_def)

lemma invalidate_ends:
  assumes inv: "service_inv s" and acc: "get (sv_accounts s) user = Some a"
    and i: "invalidate e now user s = (s', ok)"
  shows "verifyAccess e now1 token s = Some user \<Longrightarrow> verifyAccess e now2 token s' \<noteq> Some user"
    and "get (sv_refresh s') h = Some t \<Longrightarrow> r_UserID t = user \<Longrightarrow> r_Used t"
    and "get (sv_sessions s') k = Some v \<Longrightarrow> visible s v user \<Longrightarrow> \<not> open_session v"
    and "u \<noteq> user \<Longrightarrow> get (sv_accounts s') u = get (sv_accounts s) u"
proof -
  note eff = invalidate_effect[OF acc table_invD(2)[OF service_invD(4)[OF inv]], of e now]
  have s': "s' = fst (invalidate e now user s)" using i by simp
  have key: "sv_key s' = sv_key s" unfolding s' by simp
  show "verifyAccess e now1 token s = Some user \<Longrightarrow> verifyAccess e now2 token s' \<noteq> Some user"
    by (erule bumped_refuses[OF _ key]) (simp add: s' eff(1) bumped_def)
  show "r_Used t" if "get (sv_refresh s') h = Some t" "r_UserID t = user"
  proof -
    from that(1) obtain z where "t = uses_up user z" by (auto simp: s' eff(2) get_each)
    with that(2) show ?thesis by simp
  qed
  show "\<not> open_session v" if "get (sv_sessions s') k = Some v" "visible s v user"
  proof -
    from that(1) obtain w where "v = closes_for s user w" by (auto simp: s' eff(3) get_each)
    with that(2) show ?thesis
      by (cases "visible s w user \<and> open_session w") (auto simp: closes_for_def open_session_def)
  qed
  show "u \<noteq> user \<Longrightarrow> get (sv_accounts s') u = get (sv_accounts s) u"
    by (simp add: s' eff(1) get_adjust)
qed

text \<open>C9: logging out ends every access of the account, whether the reply is sent or the handler
  panics on a connection of an unregistered device: no access token accepted before is accepted
  again, every refresh token of the user is spent, no session the user takes part in is open, and
  no other account is touched.\<close>

theorem logout_ends_access:
  assumes "service_inv s" and "get (sv_accounts s) user \<noteq> None"
    and "logout e now user s = (s', rep)"
  shows "(\<forall>token now1 now2. verifyAccess e now1 token s = Some user \<longrightarrow>
      verifyAccess e now2 token s' \<noteq> Some user) \<and>
    (\<forall>h t. get (sv_refresh s') h = Some t \<and> r_UserID t = user \<longrightarrow> r_Used t) \<and>
    (\<forall>k v. get (sv_sessions s') k = Some v \<and> visible s' v user \<longrightarrow>
      s_State v \<notin> {''pending'', ''active''}) \<and>
    (\<forall>u. u \<noteq> user \<longrightarrow> get (sv_accounts s') u = get (sv_accounts s) u)"
  using assms(3)
proof (rule logout_cases)
  fix s1 ok
  assume i: "invalidate e now user s = (s1, ok)" and eq: "sv_accounts s' = sv_accounts s1"
    "sv_refresh s' = sv_refresh s1" "sv_sessions s' = sv_sessions s1" "sv_key s' = sv_key s1"
  from assms(2) obtain a where a: "get (sv_accounts s) user = Some a" by blast
  have dev: "sv_devices s' = sv_devices s"
    using assms(3) i invalidate_frame(2)[of e now user s]
    by (auto simp: logout_def split: if_splits)
  have "verifyAccess e n token s' = verifyAccess e n token s1" for n token
    unfolding verifyAccess_def eq ..
  moreover have "visible s' v user = visible s v user" for v
    by (simp add: visible_def dev)
  ultimately show ?thesis
    using invalidate_ends[OF assms(1) a i] unfolding eq open_session_def by auto
qed

theorem logout_ends_access_witness:
  "\<exists>s'. logout demo_env 0 ''carol'' demo_service = (s', Reply 200 JOk) \<and>
    (\<forall>k v. \<not> (get (sv_sessions s') k = Some v \<and> visible s' v ''carol'' \<and> s_State v = ''active''))"
proof -
  obtain s' rep where l: "logout demo_env 0 ''carol'' demo_service = (s', rep)" by force
  have acc: "get (sv_accounts demo_service) ''carol'' \<noteq> None" by (simp add: demo_service_def)
  then obtain a where a: "get (sv_accounts demo_service) ''carol'' = Some a" by blast
  have "peers_known demo_service" by (simp add: peers_known_def demo_service_def)
  with invalidate_effect(4)[OF a table_invD(2)[OF service_invD(4)[OF demo_inv]], of demo_env 0]
  have "rep = Reply 200 JOk"
    using l by (auto simp: logout_def split_def Let_def split: if_splits)
  with l logout_ends_access[OF demo_inv acc l] show ?thesis by auto
qed

section \<open>Refresh tokens\<close>

lemma rotate_success:
  assumes "rotate e now (OneObject token) s = (s1, Reply 200 (JTokens t1))"
  obtains t s0 where "get (sv_refresh s) (digest e token) = Some t" "now < r_Expires t" "\<not> r_Used t"
    "s0 = s\<lparr>sv_refresh := adjust (digest e token) spent (sv_refresh s)\<rparr>"
    "s1 = fst (issue e now (r_UserID t) (r_Family t) s0)"
    "get (sv_accounts s) (r_UserID t) \<noteq> None" "t_RefreshToken t1 = new_raw e (r_Family t) s0"
  using assms
proof (cases rule: rotate_cases)
  case (Rotated token' t s0)
  from Rotated(7) have "snd (issue e now (r_UserID t) (r_Family t) s0) = Some t1"
    by (simp split: option.splits)
  then have "get (sv_accounts s) (r_UserID t) \<noteq> None" "t_RefreshToken t1 = new_raw e (r_Family t) s0"
    by (auto simp: issue_effect(2) Rotated(5) split: option.splits)
  with Rotated that show thesis by simp
qed (auto split: if_splits)

lemma rotate_reuse:
  assumes "rotate e now (OneObject token) s = (s', rep)"
    and "get (sv_refresh s) (digest e token) = Some t" and "now < r_Expires t" and "r_Used t"
  obtains s1 ok where "invalidate e now (r_UserID t)
      (s\<lparr>sv_refresh := each (spends_family (r_Family t)) (sv_refresh s)\<rparr>) = (s1, ok)"
    "s' = (if ok then record_audit e now (r_UserID t) ''auth.refresh_reuse'' (r_Family t) s1 else s1)"
    "rep = (if ok then Reply 401 (JError ''refresh token reuse; sign in again'') else Panicked)"
proof -
  obtain s1 ok where i: "invalidate e now (r_UserID t)
      (s\<lparr>sv_refresh := each (spends_family (r_Family t)) (sv_refresh s)\<rparr>) = (s1, ok)" by force
  with assms show thesis
    by (intro that[OF i])
      (auto simp: rotate_def decode_def fail_def Let_def spends_family_def[abs_def] split: if_splits)
qed

text \<open>What a rotation leaves behind, and what the second use of the same token does.\<close>

lemma rotated_once:
  assumes inv: "service_inv s" and fresh: "fresh_draws e s"
    and first: "rotate e now (OneObject token) s = (s1, Reply 200 (JTokens t1))"
    and t: "get (sv_refresh s) (digest e token) = Some t"
  obtains a where "service_inv s1" "get (sv_accounts s1) (r_UserID t) = Some a"
    "get (sv_refresh s1) (digest e token) = Some (spent t)"
    "r_Family t \<noteq> [] \<Longrightarrow> get (sv_refresh s1) (digest e (t_RefreshToken t1)) =
       Some \<lparr>r_UserID = r_UserID t, r_Family = r_Family t, r_Expires = now + 7 * 24 * hour,
         r_Used = False\<rparr>"
proof -
  from first obtain s0 where s0: "s0 = s\<lparr>sv_refresh := adjust (digest e token) spent (sv_refresh s)\<rparr>"
    "s1 = fst (issue e now (r_UserID t) (r_Family t) s0)"
    "get (sv_accounts s) (r_UserID t) \<noteq> None" "t_RefreshToken t1 = new_raw e (r_Family t) s0"
    by (rule rotate_success) (use t in auto)
  let ?new = "digest e (new_raw e (r_Family t) s0)"
  have tab: "sv_refresh s1 = put (sv_refresh s0) ?new \<lparr>r_UserID = r_UserID t,
      r_Family = new_family e (r_Family t) s0, r_Expires = now + 7 * 24 * hour, r_Used = False\<rparr>"
    unfolding s0(2) issue_effect(1) ..
  have "fresh_issue e (r_Family t) s"
    by (rule fresh_draws_issue[OF fresh, of 0]) simp_all
  then have ne: "?new \<noteq> digest e token"
    using t by (auto simp: fresh_issue_def s0(1) new_raw_def)
  have "keeps now s s1" using rotate_service[OF inv fresh, of now "OneObject token"] first by simp
  moreover obtain a where "get (sv_accounts s1) (r_UserID t) = Some a"
    using s0(3) by (auto simp: s0(2) s0(1))
  ultimately show thesis
    using ne t by (intro that)
      (simp_all add: keeps_def tab get_put s0(1,4) get_adjust new_family_def)
qed

lemma reuse_ends:
  assumes inv: "service_inv s" and again: "rotate e now (OneObject token) s = (s', rep)"
    and t: "get (sv_refresh s) (digest e token) = Some t" "r_Used t" "now < r_Expires t"
    and acc: "get (sv_accounts s) (r_UserID t) = Some a"
  shows "rep = (if peers_known s then Reply 401 (JError ''refresh token reuse; sign in again'')
      else Panicked)"
    and "get (sv_refresh s') h = Some u \<Longrightarrow>
      r_Family u = r_Family t \<or> r_UserID u = r_UserID t \<Longrightarrow> r_Used u"
    and "verifyAccess e n access s = Some (r_UserID t) \<Longrightarrow>
      verifyAccess e n' access s' \<noteq> Some (r_UserID t)"
proof -
  let ?s1 = "s\<lparr>sv_refresh := each (spends_family (r_Family t)) (sv_refresh s)\<rparr>"
  from again obtain s3 ok where i: "invalidate e now (r_UserID t) ?s1 = (s3, ok)"
    and s': "s' = (if ok then record_audit e now (r_UserID t) ''auth.refresh_reuse'' (r_Family t) s3
      else s3)"
    and rep: "rep = (if ok then Reply 401 (JError ''refresh token reuse; sign in again'') else Panicked)"
    by (rule rotate_reuse[OF _ t(1)]) (use t in simp_all)
  have "fewer_tokens (sv_refresh s) (sv_refresh ?s1)"
    using token_invD(1)[OF service_invD(2)[OF inv]]
    by (auto intro!: fewer_each simp: spends_family_def)
  then have inv1: "service_inv ?s1"
    using inv fewer_tokens_inv by (simp add: service_inv_def)
  have acc1: "get (sv_accounts ?s1) (r_UserID t) = Some a" using acc by simp
  note effect = invalidate_effect[OF acc1 table_invD(2)[OF service_invD(4)[OF inv1]], of e now]
  note ends = invalidate_ends[OF inv1 acc1 i]
  have same: "sv_refresh s' = sv_refresh s3"
    "verifyAccess e n access s' = verifyAccess e n access s3"
    "verifyAccess e n access ?s1 = verifyAccess e n access s" for n access
    by (simp_all add: s' verifyAccess_def cong: sum.case_cong option.case_cong)
  show "rep = (if peers_known s then Reply 401 (JError ''refresh token reuse; sign in again'')
      else Panicked)"
    using effect(4) i rep by (simp add: peers_known_def)
  show "r_Used u" if "get (sv_refresh s') h = Some u"
    "r_Family u = r_Family t \<or> r_UserID u = r_UserID t"
    using that ends(2)[of h u] effect(2) i by (auto simp: same get_each)
  show "verifyAccess e n' access s' \<noteq> Some (r_UserID t)"
    if "verifyAccess e n access s = Some (r_UserID t)"
    using ends(1)[of n access n'] that by (simp add: same)
qed

text \<open>C10: a refresh token works once, and using it twice is an alarm: after a successful refresh the
  account's new token is live in the same family, and if the old token is presented again within
  its lifetime, no tokens are issued, every token of the family (the new one included) and of the
  user is spent, and the user's access tokens are refused.
  (The alarm panics after its work when a connection of an unregistered device is open.)\<close>

theorem refresh_reuse_kills_family:
  assumes inv: "service_inv s" and fresh: "fresh_draws e s"
    and first: "rotate e now (OneObject token) s = (s1, Reply 200 (JTokens t1))"
    and second: "rotate e now' (OneObject token) s1 = (s2, rep)"
    and t: "get (sv_refresh s) (digest e token) = Some t" and fam: "r_Family t \<noteq> []"
    and alive: "now' < r_Expires t"
  shows "(\<exists>u. get (sv_refresh s1) (digest e (t_RefreshToken t1)) = Some u \<and> \<not> r_Used u \<and>
      r_Family u = r_Family t \<and> r_UserID u = r_UserID t \<and> r_Expires u = now + 7 * 24 * hour) \<and>
    rep = (if peers_known s1 then Reply 401 (JError ''refresh token reuse; sign in again'')
      else Panicked) \<and>
    (\<forall>h u. get (sv_refresh s2) h = Some u \<and> (r_Family u = r_Family t \<or> r_UserID u = r_UserID t)
      \<longrightarrow> r_Used u) \<and>
    (\<forall>access n n'. verifyAccess e n access s1 = Some (r_UserID t) \<longrightarrow>
      verifyAccess e n' access s2 \<noteq> Some (r_UserID t))"
proof -
  from rotated_once[OF inv fresh first t] obtain a where s1: "service_inv s1"
    "get (sv_accounts s1) (r_UserID t) = Some a"
    "get (sv_refresh s1) (digest e token) = Some (spent t)"
    "get (sv_refresh s1) (digest e (t_RefreshToken t1)) =
       Some \<lparr>r_UserID = r_UserID t, r_Family = r_Family t, r_Expires = now + 7 * 24 * hour,
         r_Used = False\<rparr>"
    using fam by metis
  have spent: "r_UserID (spent t) = r_UserID t" "r_Family (spent t) = r_Family t" "r_Used (spent t)"
    "now' < r_Expires (spent t)"
    using alive by (simp_all add: spent_def)
  note ends = reuse_ends[OF s1(1) second s1(3) spent(3,4), unfolded spent(1,2), OF s1(2)]
  show ?thesis
    using s1(4) ends(1) ends(2) ends(3) by auto
qed

lemma demo_fresh_service: "fresh_draws demo_env demo_service"
  by (rule short_fresh[OF demo_short])

lemma demo_digest: "get (sv_refresh demo_service) (digest demo_env ''token-ann'') =
    Some (demo_token ''ann'' False)"
  by code_simp

theorem refresh_reuse_kills_family_witness:
  "\<exists>s1 t1 s2. rotate demo_env 0 (OneObject ''token-ann'') demo_service = (s1, Reply 200 (JTokens t1)) \<and>
    rotate demo_env 1 (OneObject ''token-ann'') s1 =
      (s2, Reply 401 (JError ''refresh token reuse; sign in again'')) \<and>
    (\<forall>h u. \<not> (get (sv_refresh s2) h = Some u \<and> r_Family u = ''family-ann'' \<and> \<not> r_Used u))"
proof -
  obtain s1 rep1 where f: "rotate demo_env 0 (OneObject ''token-ann'') demo_service = (s1, rep1)" by force
  then obtain t1 where r1: "rep1 = Reply 200 (JTokens t1)" and p1: "sv_peers s1 = sv_peers demo_service"
    and d1: "sv_devices s1 = sv_devices demo_service"
    using demo_digest
    by (auto simp: rotate_def decode_def demo_token_def hour_def minute_def second_def Let_def
        reply_tokens_def issue_effect(2) demo_service_def)
  obtain s2 rep2 where g: "rotate demo_env 1 (OneObject ''token-ann'') s1 = (s2, rep2)" by force
  have fam: "r_Family (demo_token ''ann'' False) \<noteq> []" and alive: "1 < r_Expires (demo_token ''ann'' False)"
    by (simp_all add: demo_token_def hour_def minute_def second_def)
  note k = refresh_reuse_kills_family[OF demo_inv demo_fresh_service f[unfolded r1] g demo_digest fam alive]
  have "peers_known s1"
    unfolding peers_known_def p1 d1 by (simp add: demo_service_def)
  with k have "rep2 = Reply 401 (JError ''refresh token reuse; sign in again'')"
    and "\<forall>h u. \<not> (get (sv_refresh s2) h = Some u \<and> r_Family u = ''family-ann'' \<and> \<not> r_Used u)"
    by (auto simp: demo_token_def)
  with f r1 g show ?thesis by blast
qed

section \<open>Log-in and registration\<close>

lemma find_account_iff:
  assumes "account_inv (sv_accounts s) (sv_emails s)"
  shows "find_account e x s = Some a \<longleftrightarrow>
    get (sv_accounts s) (a_ID a) = Some a \<and> a_Email a = normal_email e x"
proof
  assume "find_account e x s = Some a"
  with find_account_inv[OF assms this] show
    "get (sv_accounts s) (a_ID a) = Some a \<and> a_Email a = normal_email e x" by blast
next
  assume a: "get (sv_accounts s) (a_ID a) = Some a \<and> a_Email a = normal_email e x"
  with account_invD(3)[OF assms, of "a_ID a" a]
  have "get (sv_emails s) (normal_email e x) = Some (a_ID a)" by simp
  with a show "find_account e x s = Some a"
    by (simp add: find_account_def normal_email_def[symmetric])
qed

definition may_login :: "env \<Rightarrow> 'st service \<Rightarrow> login_request \<Rightarrow> string \<Rightarrow> account \<Rightarrow> bool" where
  "may_login e s q k a \<longleftrightarrow>
     get (sv_accounts s) k = Some a \<and> a_Email a = normal_email e (lg_Email q) \<and>
     matches e (a_Password a) (lg_Password q)"

lemma login_outcome:
  assumes inv: "service_inv s" and "sv_authSlots s < 2" and "length (lg_Password q) \<le> 256"
    and "login e now (OneObject q) s = (s', rep)"
  obtains (Accepted) k a t where "may_login e s q k a" "rep = Reply 200 (JTokens t)"
      "t_AccessToken t = Sign e (sv_key s) k (a_Version a) now" "t_ExpiresIn t = 600"
      "sv_authSlots s' = sv_authSlots s"
  | (Refused) "\<And>k a. \<not> may_login e s q k a" "rep = Reply 401 (JError ''invalid credentials'')" "s' = s"
proof -
  note ai = service_invD(1)[OF inv]
  let ?s0 = "s\<lparr>sv_authSlots := sv_authSlots s + 1\<rparr>"
  obtain s1 rep1 where l: "login_locked e now q ?s0 = (s1, rep1)" by force
  with assms(2-4) have out: "s' = releaseSlot s1" "rep = rep1"
    by (auto simp: login_def decode_def authSlot_def Let_def)
  have f: "find_account e x (s\<lparr>sv_authSlots := n\<rparr>) = find_account e x s" for x n
    by (simp add: find_account_def)
  from l show thesis
  proof (cases rule: login_locked_cases)
    case R: Refused
    have "\<not> may_login e s q k a" for k a
    proof
      assume m: "may_login e s q k a"
      with account_invD(3)[OF ai, of k a] have "find_account e (lg_Email q) s = Some a"
        by (simp add: may_login_def find_account_iff[OF ai])
      with R(3) m f show False by (simp add: may_login_def)
    qed
    with R(1,2) show thesis by (intro Refused) (simp_all add: out releaseSlot_def)
  next
    case A: (Accepted a s2)
    from A(1,2) have a: "may_login e s q (a_ID a) a"
      by (simp_all add: f may_login_def find_account_iff[OF ai])
    then have "snd (issue e now (a_ID a) [] s2) = Some
        \<lparr>t_AccessToken = Sign e (sv_key s) (a_ID a) (a_Version a) now,
         t_RefreshToken = new_raw e [] s2, t_ExpiresIn = 600, t_TokenType = ''Bearer''\<rparr>"
      by (simp add: issue_effect(2) A(3) may_login_def)
    moreover have "sv_authSlots s' = sv_authSlots s"
      by (simp add: out A(3,4))
    ultimately show thesis
      using a A(5) by (intro Accepted) (auto simp: out)
  qed
qed

text \<open>C19: whenever a slot is free and the password is within its length, a log-in succeeds exactly
  when an account has the normalised address and the given password matches its stored hash, and
  the tokens are those of that account; otherwise the reply is the one 401 for every cause and the
  service is unchanged, the slot released.\<close>

theorem login_iff_password:
  assumes "service_inv s" and "sv_authSlots s < 2" and "length (lg_Password q) \<le> 256"
    and "login e now (OneObject q) s = (s', rep)"
  shows "if \<exists>k a. get (sv_accounts s) k = Some a \<and> a_Email a = normal_email e (lg_Email q) \<and>
           matches e (a_Password a) (lg_Password q)
    then \<exists>k a t. get (sv_accounts s) k = Some a \<and> a_Email a = normal_email e (lg_Email q) \<and>
           matches e (a_Password a) (lg_Password q) \<and> rep = Reply 200 (JTokens t) \<and>
           t_AccessToken t = Sign e (sv_key s) k (a_Version a) now \<and> t_ExpiresIn t = 600 \<and>
           sv_authSlots s' = sv_authSlots s
    else rep = Reply 401 (JError ''invalid credentials'') \<and> s' = s"
  using assms
  by (cases rule: login_outcome) (auto simp: may_login_def)

theorem login_iff_password_witness:
  "snd (login demo_env 0 (OneObject \<lparr>lg_Email = ''ann@x.org'', lg_Password = ''wrong''\<rparr>) demo_service)
     = Reply 401 (JError ''invalid credentials'')"
proof -
  let ?q = "\<lparr>lg_Email = ''ann@x.org'', lg_Password = ''wrong''\<rparr>"
  obtain s' rep where l: "login demo_env 0 (OneObject ?q) demo_service = (s', rep)" by force
  have "\<not> (\<exists>k a. get (sv_accounts demo_service) k = Some a \<and>
      a_Email a = normal_email demo_env (lg_Email ?q) \<and>
      matches demo_env (a_Password a) (lg_Password ?q))"
    by (auto simp: demo_service_def demo_account_def matches_def demo_env_def split: if_splits)
  moreover have "sv_authSlots demo_service < 2" by (simp add: demo_service_def)
  ultimately show ?thesis
    using login_iff_password[OF demo_inv _ _ l] l by simp
qed

lemma reg_password_slots [simp]: "reg_password e raw (s\<lparr>sv_authSlots := n\<rparr>) = reg_password e raw s"
  by (simp add: reg_password_def)

text \<open>The one account of the address after a successful registration.\<close>

lemma registered:
  assumes "service_inv s" and "fresh_draws e s" and "sv_authSlots s = 0"
    and "register e now (OneObject q) s = (s1, Reply 201 (JTokens t))"
  obtains k a where "service_inv s1" "sv_authSlots s1 = 0" "get (sv_accounts s1) k = Some a"
    "a_Email a = normal_email e (rg_Email q)" "a_Password a = reg_password e (rg_Password q) s"
proof -
  let ?s0 = "s\<lparr>sv_authSlots := sv_authSlots s + 1\<rparr>"
  from assms(4) obtain s2 where reg: "register_locked e now (normal_email e (rg_Email q)) (rg_Name q)
      (rg_Password q) ?s0 = (s2, Reply 201 (JTokens t))" and s1: "s1 = releaseSlot s2"
    by (cases rule: register_cases) auto
  have ai: "account_inv (sv_accounts ?s0) (sv_emails ?s0)"
    using service_invD(1)[OF assms(1)] by simp
  have "keeps now s s1"
    using register_service[OF assms(1,2), of now "OneObject q"] assms(4) by simp
  then have inv1: "service_inv s1" by (simp add: keeps_def)
  from reg ai show thesis
  proof (cases rule: register_locked_cases)
    case (Created s3 t')
    then show thesis
      using assms(3)
      by (intro that[OF inv1, of "reg_id e ?s0" "new_account (reg_id e ?s0)
            (normal_email e (rg_Email q)) (rg_Name q) (reg_password e (rg_Password q) s)"])
        (simp_all add: s1 get_put reg_password_def new_account_def)
  qed simp
qed

text \<open>C20: what was registered can log in: after a successful registration, a log-in with any
  spelling of the address that normalises alike and the same password succeeds while a slot is
  free, and every password with another hash is refused.\<close>

theorem register_then_login:
  assumes "service_inv s" and "fresh_draws e s" and "sv_authSlots s = 0"
    and "register e now (OneObject q) s = (s1, Reply 201 (JTokens t))"
    and "normal_email e (lg_Email l) = normal_email e (rg_Email q)"
    and "length (lg_Password l) \<le> 256"
  shows "(lg_Password l = rg_Password q \<longrightarrow>
      (\<exists>t'. snd (login e now' (OneObject l) s1) = Reply 200 (JTokens t'))) \<and>
    (\<not> matches e (reg_password e (rg_Password q) s) (lg_Password l) \<longrightarrow>
      snd (login e now' (OneObject l) s1) = Reply 401 (JError ''invalid credentials''))"
proof -
  from registered[OF assms(1-4)] obtain k a where inv1: "service_inv s1" and slots: "sv_authSlots s1 = 0"
    and acc: "get (sv_accounts s1) k = Some a" and
    a: "a_Email a = normal_email e (rg_Email q)" "a_Password a = reg_password e (rg_Password q) s"
    by metis
  obtain s2 rep where lg: "login e now' (OneObject l) s1 = (s2, rep)" by force
  have may: "may_login e s1 l i b \<longleftrightarrow> i = k \<and> b = a \<and>
      matches e (reg_password e (rg_Password q) s) (lg_Password l)" for i b
    using acc a assms(5) account_invD(3)[OF service_invD(1)[OF inv1]]
    unfolding may_login_def by (metis option.inject)
  have "sv_authSlots s1 < 2" using slots by simp
  from inv1 this assms(6) lg show ?thesis
  proof (cases rule: login_outcome)
    case Refused
    with Refused(1)[of k a] show ?thesis by (auto simp: may lg)
  qed (auto simp: may slots lg)
qed

definition demo_registration :: register_request where
  "demo_registration = \<lparr>rg_Email = '' dave@x.org'', rg_Name = ''Dave'', rg_Password = ''dave-password''\<rparr>"

theorem register_then_login_witness:
  "\<exists>s1 t t'. register demo_env 0 (OneObject demo_registration) demo_service = (s1, Reply 201 (JTokens t)) \<and>
    snd (login demo_env 1 (OneObject \<lparr>lg_Email = ''dave@x.org'', lg_Password = ''dave-password''\<rparr>) s1)
      = Reply 200 (JTokens t')"
proof -
  let ?l = "\<lparr>lg_Email = ''dave@x.org'', lg_Password = ''dave-password''\<rparr>"
  obtain s1 rep where r: "register demo_env 0 (OneObject demo_registration) demo_service = (s1, rep)" by force
  have mail: "normal_email demo_env '' dave@x.org'' = ''dave@x.org''"
    "normal_email demo_env ''dave@x.org'' = ''dave@x.org''" by code_simp+
  have ok: "\<not> register_invalid demo_env ''dave@x.org'' demo_registration"
    by (simp add: register_invalid_def demo_registration_def demo_env_def)
  let ?s0 = "demo_service\<lparr>sv_authSlots := sv_authSlots demo_service + 1\<rparr>"
  obtain s2 rep2 where l: "register_locked demo_env 0 ''dave@x.org'' ''Dave'' ''dave-password'' ?s0 = (s2, rep2)"
    by force
  have slots: "sv_authSlots demo_service = 0" by (simp add: demo_service_def)
  have "rep = rep2"
    using r l ok mail slots
    by (simp add: register_def decode_def authSlot_def Let_def demo_registration_def normal_email_def)
  moreover have new: "get (sv_emails ?s0) ''dave@x.org'' = None" by (simp add: demo_service_def)
  have "account_inv (sv_accounts ?s0) (sv_emails ?s0)" using service_invD(1)[OF demo_inv] by simp
  with l obtain t where "rep2 = Reply 201 (JTokens t)"
    by (cases rule: register_locked_cases) (use new in auto)
  ultimately have r': "register demo_env 0 (OneObject demo_registration) demo_service = (s1, Reply 201 (JTokens t))"
    using r by simp
  from register_then_login[OF demo_inv demo_fresh_service slots r', of ?l 1] r' mail show ?thesis
    by (simp add: demo_registration_def)
qed

end
