(* ===== verification/Mail_Flows.thy ===== *)
theory Mail_Flows
  imports Email_Handlers Totp_Handlers Team_Handlers Demo_State
begin

text \<open>
  The flows of \<open>email.go\<close> over two requests: a code or a token is stored under its digest, and the
  confirmation that presents it changes the account it was issued for. The locale \<open>mail_store\<close> is what
  the flows rely on in a store; the in-memory store provides it.
\<close>

section \<open>What the flows ask of a store\<close>

text \<open>Three views of the store: accounts by identifier, identifiers by address, tokens by digest.\<close>

locale mail_store =
  fixes so :: "'st store_ops"
    and acct :: "'st \<Rightarrow> string \<Rightarrow> Account option"
    and mail :: "'st \<Rightarrow> string \<Rightarrow> string option"
    and tok :: "'st \<Rightarrow> string \<Rightarrow> EmailToken option"
  assumes by_id: "so_GetAccountByID so st i =
      (case acct st i of None \<Rightarrow> Inl ErrNotFound | Some a \<Rightarrow> Inr a)"
    and by_mail: "mail st m = Some i \<Longrightarrow> acct st i = Some a \<Longrightarrow> so_GetAccountByEmail so st m = Inr a"
    and get_token: "so_GetEmailToken so st h =
      (case tok st h of None \<Rightarrow> Inl ErrNotFound | Some t \<Rightarrow> Inr t)"
    and put_token: "\<exists>st'. so_CreateEmailToken so st h u k x = (st', None) \<and> acct st' = acct st \<and>
      mail st' = mail st \<and>
      tok st' = (tok st)(h \<mapsto> \<lparr>et_TokenHash = h, et_UserID = u, et_Kind = k, et_ExpiresAt = x\<rparr>)"
    and drop_token: "\<exists>st'. so_DeleteEmailToken so st h = (st', None) \<and> acct st' = acct st \<and>
      mail st' = mail st \<and> tok st' = (tok st)(h := None)"
    and set_password: "acct st u = Some a \<Longrightarrow> \<exists>st'. so_UpdatePassword so st u p = (st', None) \<and>
      acct st' = (acct st)(u \<mapsto> a\<lparr>ac_PasswordHash := p, ac_TokenVersion := ac_TokenVersion a + 1\<rparr>) \<and>
      mail st' = mail st \<and> tok st' = tok st"
    and set_verified: "acct st u = Some a \<Longrightarrow> \<exists>st'. so_SetEmailVerified so st u at = (st', None) \<and>
      acct st' = (acct st)(u \<mapsto> a\<lparr>ac_EmailVerifiedAt := Some at\<rparr>) \<and> mail st' = mail st \<and> tok st' = tok st"
    and log: "\<exists>st' err. so_CreateAudit so st ev = (st', err) \<and> err \<noteq> Some NilDereference \<and>
      acct st' = acct st \<and> mail st' = mail st \<and> tok st' = tok st"
begin

definition same_views :: "'st \<Rightarrow> 'st \<Rightarrow> bool" where
  "same_views st st' \<longleftrightarrow> acct st' = acct st \<and> mail st' = mail st \<and> tok st' = tok st"

lemma record_keeps:
  assumes "sv_store s = Some st"
  shows "\<exists>s' st'. recordEvent so e now u a r s k = k s' \<and> sv_store s' = Some st' \<and> same_views st st'"
proof -
  let ?ev = "\<lambda>i. \<lparr>ae_ID = i, ae_ActorID = u, ae_OrganizationID = None, ae_Action = a,
    ae_ResourceID = r, ae_Metadata = [], ae_OccurredAt = now\<rparr>"
  obtain i s1 where r: "randomID e 12 (record_audit e now u a r s) = (i, s1)" by force
  then have s1: "sv_store s1 = Some st"
    using randomID_frame[of e 12 "record_audit e now u a r s"] assms by simp
  obtain st' err where c: "so_CreateAudit so st (?ev i) = (st', err)" "err \<noteq> Some NilDereference"
    "same_views st st'"
    using log[of st "?ev i"] by (auto simp: same_views_def)
  then have "recordEvent so e now u a r s k = k (s1\<lparr>sv_store := Some st'\<rparr>)"
    using assms s1 by (simp add: recordEvent_def r store_try_def store_call_def Let_def)
  with c show ?thesis by auto
qed

lemma reset_requested:
  assumes "sv_store s = Some st" and "mail st m = Some u" and "acct st u = Some a" and "ac_ID a = u"
    and "m = ToLower (unicode_lower e) (TrimSpace raw)" and "parse_address e m = Some y"
  shows "\<exists>s1 st1. requestPasswordReset so e now (OneObject raw) s = (s1, Reply 200 reset_reply) \<and>
    sv_store s1 = Some st1 \<and> acct st1 = acct st \<and> mail st1 = mail st \<and>
    tok st1 = (tok st)(digestStr e (drawn e 32 (sv_entropy s)) \<mapsto>
      \<lparr>et_TokenHash = digestStr e (drawn e 32 (sv_entropy s)), et_UserID = u, et_Kind = ''reset'',
       et_ExpiresAt = now + 30 * minute\<rparr>)"
proof -
  let ?h = "digestStr e (drawn e 32 (sv_entropy s))"
  obtain st1 where "so_CreateEmailToken so st ?h u ''reset'' (now + 30 * minute) = (st1, None)"
    "acct st1 = acct st" "mail st1 = mail st"
    "tok st1 = (tok st)(?h \<mapsto> \<lparr>et_TokenHash = ?h, et_UserID = u, et_Kind = ''reset'',
       et_ExpiresAt = now + 30 * minute\<rparr>)"
    using put_token by blast
  then show ?thesis
    using assms by_mail[OF assms(2,3)]
    by (simp add: requestPasswordReset_def decode_def Let_def randomID_def random_read_def drawn_def
        store_read_def store_call_def)
qed

text \<open>A confirmation with a stored token.\<close>

lemma reset_confirmed:
  assumes "sv_store s = Some st" and t: "tok st (digestStr e token) = Some t" and "et_Kind t = ''reset''"
    and "now < et_ExpiresAt t" and a: "acct st (et_UserID t) = Some a"
    and "12 \<le> length new" and "length new \<le> 256"
  shows "\<exists>s' st'. confirmPasswordReset so e now (OneObject \<lparr>pr_Token = token, pr_NewPassword = new\<rparr>) s =
      (s', Reply 200 JOk) \<and> sv_store s' = Some st' \<and> mail st' = mail st \<and>
    acct st' = (acct st)(et_UserID t \<mapsto> a\<lparr>ac_PasswordHash := encodePassword (fst (hashPassword e new s)),
      ac_TokenVersion := ac_TokenVersion a + 1\<rparr>) \<and>
    tok st' = (tok st)(digestStr e token := None)"
proof -
  let ?u = "et_UserID t" and ?h = "digestStr e token"
  obtain p s1 where p: "hashPassword e new s = (p, s1)" by force
  then have s1: "sv_store s1 = Some st" using hashPassword_frame(2)[of e new s] assms(1) by simp
  obtain st2 where st2: "so_UpdatePassword so st ?u (encodePassword p) = (st2, None)"
    "acct st2 = (acct st)(?u \<mapsto> a\<lparr>ac_PasswordHash := encodePassword p,
       ac_TokenVersion := ac_TokenVersion a + 1\<rparr>)" "mail st2 = mail st" "tok st2 = tok st"
    using set_password[OF a] by blast
  obtain st3 where st3: "so_DeleteEmailToken so st2 ?h = (st3, None)"
    "acct st3 = acct st2" "mail st3 = mail st2" "tok st3 = (tok st2)(?h := None)"
    using drop_token by blast
  obtain s' st' where r: "recordEvent so e now ?u ''account.password_reset'' ?u
      (s1\<lparr>sv_store := Some st3\<rparr>) (\<lambda>s. (s, Reply 200 JOk)) = (s', Reply 200 JOk)"
    "sv_store s' = Some st'" "same_views st3 st'"
    using record_keeps[of "s1\<lparr>sv_store := Some st3\<rparr>" st3] by fastforce
  have "confirmPasswordReset so e now (OneObject \<lparr>pr_Token = token, pr_NewPassword = new\<rparr>) s =
      (s', Reply 200 JOk)"
    using assms get_token[of st ?h] st2(1) st3(1) r(1) s1
    by (simp add: confirmPasswordReset_def decode_def Let_def store_read_def store_call_def p)
  with r st2 st3 show ?thesis by (auto simp: same_views_def p)
qed

text \<open>A confirmation without one.\<close>

lemma reset_refused:
  assumes "sv_store s = Some st" and "tok st (digestStr e token) = None"
    and "12 \<le> length new" and "length new \<le> 256"
  shows "confirmPasswordReset so e now (OneObject \<lparr>pr_Token = token, pr_NewPassword = new\<rparr>) s =
    (s, Reply 400 (JError ''invalid or expired reset token''))"
  using assms get_token[of st "digestStr e token"]
  by (simp add: confirmPasswordReset_def decode_def Let_def store_read_def fail_def)

text \<open>A verification code presented as a reset token is deleted, although nobody has proved anything.\<close>

lemma reset_spends_code:
  assumes "sv_store s = Some st" and "tok st (digestStr e token) = Some t" and "et_Kind t \<noteq> ''reset''"
    and "12 \<le> length new" and "length new \<le> 256"
  shows "\<exists>s' st'. confirmPasswordReset so e now (OneObject \<lparr>pr_Token = token, pr_NewPassword = new\<rparr>) s =
      (s', Reply 400 (JError ''invalid or expired reset token'')) \<and> sv_store s' = Some st' \<and>
    tok st' = (tok st)(digestStr e token := None)"
  using assms get_token[of st "digestStr e token"] drop_token[of st "digestStr e token"]
  by (auto simp: confirmPasswordReset_def decode_def Let_def store_read_def store_call_def fail_def)

text \<open>The code that verifies an address.\<close>

lemma code_sent:
  assumes "sv_store s = Some st" and "acct st u = Some a"
  shows "\<exists>s1 st1. sendVerifyEmail so e now u s = (s1, Reply 200 (JMessage ''verification code sent'' (Some 900))) \<and>
    sv_store s1 = Some st1 \<and> acct st1 = acct st \<and> mail st1 = mail st \<and>
    tok st1 = (tok st)(digestStr e (email_code (rand_bytes e (sv_entropy s) 4)) \<mapsto>
      \<lparr>et_TokenHash = digestStr e (email_code (rand_bytes e (sv_entropy s) 4)), et_UserID = u,
       et_Kind = ''verify'', et_ExpiresAt = now + 15 * minute\<rparr>)"
proof -
  let ?h = "digestStr e (email_code (rand_bytes e (sv_entropy s) 4))"
  obtain st1 where c: "so_CreateEmailToken so st ?h u ''verify'' (now + 15 * minute) = (st1, None)"
    "acct st1 = acct st" "mail st1 = mail st"
    "tok st1 = (tok st)(?h \<mapsto> \<lparr>et_TokenHash = ?h, et_UserID = u, et_Kind = ''verify'',
       et_ExpiresAt = now + 15 * minute\<rparr>)"
    using put_token by blast
  then have "so_GetAccountByID so st1 u = Inr a" using assms(2) by (simp add: by_id)
  with c assms show ?thesis
    by (simp add: sendVerifyEmail_def Let_def random_read_def store_read_def store_call_def)
qed

lemma code_confirmed:
  assumes "sv_store s = Some st" and t: "tok st (digestStr e (TrimSpace raw)) = Some t"
    and "TrimSpace raw \<noteq> []" and "et_UserID t = u" and "et_Kind t = ''verify''"
    and "now < et_ExpiresAt t" and a: "acct st u = Some a"
  shows "\<exists>s' st'. confirmVerifyEmail so e now (OneObject raw) u s = (s', Reply 200 JOk) \<and>
    sv_store s' = Some st' \<and> mail st' = mail st \<and>
    acct st' = (acct st)(u \<mapsto> a\<lparr>ac_EmailVerifiedAt := Some now\<rparr>) \<and>
    tok st' = (tok st)(digestStr e (TrimSpace raw) := None)"
proof -
  let ?h = "digestStr e (TrimSpace raw)"
  obtain st2 where st2: "so_SetEmailVerified so st u now = (st2, None)"
    "acct st2 = (acct st)(u \<mapsto> a\<lparr>ac_EmailVerifiedAt := Some now\<rparr>)" "mail st2 = mail st" "tok st2 = tok st"
    using set_verified[OF a] by blast
  obtain st3 where st3: "so_DeleteEmailToken so st2 ?h = (st3, None)"
    "acct st3 = acct st2" "mail st3 = mail st2" "tok st3 = (tok st2)(?h := None)"
    using drop_token by blast
  obtain s' st' where r: "recordEvent so e now u ''email.verified'' u
      (s\<lparr>sv_store := Some st3\<rparr>) (\<lambda>s. (s, Reply 200 JOk)) = (s', Reply 200 JOk)"
    "sv_store s' = Some st'" "same_views st3 st'"
    using record_keeps[of "s\<lparr>sv_store := Some st3\<rparr>" st3] by fastforce
  have "confirmVerifyEmail so e now (OneObject raw) u s = (s', Reply 200 JOk)"
    using assms get_token[of st ?h] st2(1) st3(1) r(1)
    by (simp add: confirmVerifyEmail_def decode_def Let_def store_read_def store_call_def)
  with r st2 st3 show ?thesis by (auto simp: same_views_def)
qed

lemma code_of_another:
  assumes "sv_store s = Some st" and "tok st (digestStr e (TrimSpace raw)) = Some t"
    and "TrimSpace raw \<noteq> []" and "et_UserID t \<noteq> u"
  shows "confirmVerifyEmail so e now (OneObject raw) u s =
    (s, Reply 400 (JError ''invalid or expired code''))"
  using assms get_token[of st "digestStr e (TrimSpace raw)"]
  by (simp add: confirmVerifyEmail_def decode_def Let_def store_read_def fail_def)

lemma code_late:
  assumes "sv_store s = Some st" and "tok st (digestStr e (TrimSpace raw)) = Some t"
    and "TrimSpace raw \<noteq> []" and "et_UserID t = u" and "et_Kind t = ''verify''"
    and "et_ExpiresAt t \<le> now"
  shows "\<exists>s' st'. confirmVerifyEmail so e now (OneObject raw) u s =
      (s', Reply 400 (JError ''code has expired'')) \<and> sv_store s' = Some st' \<and> acct st' = acct st"
  using assms get_token[of st "digestStr e (TrimSpace raw)"]
    drop_token[of st "digestStr e (TrimSpace raw)"]
  by (auto simp: confirmVerifyEmail_def decode_def Let_def store_read_def store_call_def fail_def)

end

interpretation memory_mail: mail_store memory_ops "\<lambda>m. get (ms_accounts m)" "\<lambda>m. get (ms_emails m)"
  "\<lambda>m. get (ms_emailTokens m)"
  by unfold_locales (auto simp: mem_op_defs GetAccountByID_def GetAccountByEmail_def GetEmailToken_def
      gomap_simps fun_eq_iff Let_def split: option.splits)

section \<open>Codes\<close>

lemma nat_digits_length: "n < 10 ^ Suc k \<Longrightarrow> length (nat_digits n) \<le> Suc k"
proof (induction k arbitrary: n)
  case (Suc k)
  then have "n div 10 < 10 ^ Suc k" by (simp add: less_mult_imp_div_less)
  from Suc.IH[OF this] show ?case by (simp add: nat_digits.simps[of n])
qed (simp add: nat_digits.simps)

lemma email_code_digits:
  "length (email_code b) = 6" "c \<in> set (email_code b) \<Longrightarrow> 48 \<le> (of_char c :: nat) \<and> (of_char c :: nat) < 58"
proof -
  define n :: nat where
    "n = (of_char (b ! 0) * 65536 + of_char (b ! 1) * 256 + of_char (b ! 2)) mod 1000000"
  have c: "email_code b = replicate (6 - length (nat_digits n)) (CHR ''0'') @ nat_digits n"
    by (simp add: email_code_def pad6_def n_def Let_def)
  have "length (nat_digits n) \<le> 6"
    using nat_digits_length[of n 5] by (simp add: n_def)
  then show "length (email_code b) = 6" by (simp add: c)
  show "c \<in> set (email_code b) \<Longrightarrow> 48 \<le> (of_char c :: nat) \<and> (of_char c :: nat) < 58"
    using nat_digits_range[of c n] by (auto simp: c split: if_splits)
qed

lemma TrimSpace_code: "TrimSpace (email_code b) = email_code b"
proof (rule TrimSpace_id)
  have "\<forall>c \<in> set (concat space_runes). \<not> (48 \<le> (of_char c :: nat) \<and> (of_char c :: nat) < 58)"
    by code_simp
  then show "set (email_code b) \<inter> set (concat space_runes) = {}"
    using email_code_digits(2)[of _ b] by blast
qed

end
