(* ===== verification/Store_Effects.thy ===== *)
theory Store_Effects
  imports Service_Run
begin

text \<open>
  What a request may do to the store. The locale \<open>store_relation\<close> takes a preorder on stores that
  every method but \<open>UpdatePassword\<close> respects; every endpoint then respects it as well, and the
  confirmation of a password reset is the one place that calls \<open>UpdatePassword\<close>.
\<close>

section \<open>Outcomes that respect a relation\<close>

definition effect :: "('st \<Rightarrow> 'st \<Rightarrow> bool) \<Rightarrow> 'st service \<Rightarrow> 'st outcome \<Rightarrow> bool" where
  "effect R s out \<longleftrightarrow>
     (case sv_store s of
        None \<Rightarrow> sv_store (fst out) = None
      | Some st \<Rightarrow> (case sv_store (fst out) of None \<Rightarrow> False | Some st' \<Rightarrow> R st st'))"

lemma effect_if: "(c \<Longrightarrow> effect R s x) \<Longrightarrow> (\<not> c \<Longrightarrow> effect R s y) \<Longrightarrow> effect R s (if c then x else y)"
  by simp

lemma effect_option:
  "(v = None \<Longrightarrow> effect R s x) \<Longrightarrow> (\<And>a. v = Some a \<Longrightarrow> effect R s (f a)) \<Longrightarrow>
   effect R s (case v of None \<Rightarrow> x | Some a \<Rightarrow> f a)"
  by (simp split: option.split)

lemma effect_sum:
  "(\<And>a. v = Inl a \<Longrightarrow> effect R s (f a)) \<Longrightarrow> (\<And>b. v = Inr b \<Longrightarrow> effect R s (g b)) \<Longrightarrow>
   effect R s (case v of Inl a \<Rightarrow> f a | Inr b \<Rightarrow> g b)"
  by (simp split: sum.split)

lemma effect_prod:
  "(\<And>a b. x = (a, b) \<Longrightarrow> effect R s (f a b)) \<Longrightarrow> effect R s (case x of (a, b) \<Rightarrow> f a b)"
  by (simp split: prod.split)

text \<open>Steps of a handler before its store is touched.\<close>

lemma effect_from: "sv_store s' = sv_store s \<Longrightarrow> effect R s' out \<Longrightarrow> effect R s out"
  by (simp add: effect_def)

lemma effect_randomID:
  "(\<And>x s'. effect R s' (f x s')) \<Longrightarrow> effect R s (case randomID e n s of (x, s') \<Rightarrow> f x s')"
  unfolding split_def by (rule effect_from[of "snd (randomID e n s)"]) simp_all

lemma effect_random_read:
  "(\<And>x s'. effect R s' (f x s')) \<Longrightarrow> effect R s (case random_read e n s of (x, s') \<Rightarrow> f x s')"
  unfolding split_def by (rule effect_from[of "snd (random_read e n s)"]) simp_all

lemma effect_encrypt:
  "(\<And>x s'. effect R s' (f x s')) \<Longrightarrow> effect R s (case encryptSecret e key t s of (x, s') \<Rightarrow> f x s')"
  unfolding split_def by (rule effect_from[of "snd (encryptSecret e key t s)"])
    (simp_all add: encryptSecret_def Let_def split_def)

lemma backup_codes_store: "sv_store (snd (backup_codes e n s)) = sv_store s"
  by (induction n arbitrary: s) (simp_all add: Let_def split_def random_read_frame)

lemma effect_backup:
  "(\<And>x s'. effect R s' (f x s')) \<Longrightarrow> effect R s (case generateBackupCodes e s of (x, s') \<Rightarrow> f x s')"
  unfolding split_def by (rule effect_from[of "snd (generateBackupCodes e s)"])
    (simp_all add: generateBackupCodes_def backup_codes_store)

lemma effect_store_read: "(\<And>r. effect R s (k r s)) \<Longrightarrow> effect R s (s, Panicked) \<Longrightarrow> effect R s (store_read op s k)"
  by (auto simp: store_read_def split: option.split)

locale preorder_on_stores =
  fixes R :: "'st \<Rightarrow> 'st \<Rightarrow> bool"
  assumes same: "R st st" and steps: "R a b \<Longrightarrow> R b c \<Longrightarrow> R a c"
begin

lemma untouched: "sv_store (fst out) = sv_store s \<Longrightarrow> effect R s out"
  by (simp add: effect_def same split: option.split)

lemma call:
  assumes "\<And>st. R st (fst (op st))" and "\<And>err s. effect R s (k err s)"
  shows "effect R s (store_call op s k)"
proof (cases "sv_store s")
  case (Some st)
  obtain st' err where o': "op st = (st', err)" by force
  then have "R st st'" using assms(1)[of st] by simp
  moreover have "effect R (s\<lparr>sv_store := Some st'\<rparr>) (k err (s\<lparr>sv_store := Some st'\<rparr>))" by (rule assms(2))
  ultimately show ?thesis
    using Some o' by (auto simp: store_call_def Let_def effect_def intro: steps split: option.splits)
qed (simp add: store_call_def untouched)

lemma try':
  assumes "\<And>st. R st (fst (op st))" and "\<And>s. effect R s (k s)"
  shows "effect R s (store_try op s k)"
  using assms by (simp add: store_try_def call)

lemma read: "(\<And>r. effect R s (k r s)) \<Longrightarrow> effect R s (store_read op s k)"
  by (rule effect_store_read) (simp_all add: untouched)

lemma decoded: "(\<And>q. effect R s (F q)) \<Longrightarrow>
    effect R s (case decode b of Inl rep \<Rightarrow> (s, rep) | Inr q \<Rightarrow> F q)"
  by (intro effect_sum) (simp_all add: untouched)

lemma refused: "effect R s (fail s st m)"
  by (simp add: untouched fail_def)

lemma replied: "effect R s (record_audit e now u a r s, rep)" "effect R s (s, rep)"
  by (simp_all add: untouched)

end

section \<open>A relation that all methods but one respect\<close>

locale store_relation = preorder_on_stores R
  for R :: "'st \<Rightarrow> 'st \<Rightarrow> bool" +
  fixes so :: "'st store_ops"
  assumes op_audit: "R st (fst (so_CreateAudit so st ev))"
    and op_verified: "R st (fst (so_SetEmailVerified so st i t))"
    and op_factor: "R st (fst (so_CreateSecondFactor so st i u k secret))"
    and op_factor_ok: "R st (fst (so_VerifySecondFactor so st i t))"
    and op_factor_gone: "R st (fst (so_DeleteSecondFactor so st u))"
    and op_token: "R st (fst (so_CreateEmailToken so st h u k x))"
    and op_token_gone: "R st (fst (so_DeleteEmailToken so st h))"
    and op_org: "R st (fst (so_CreateOrganization so st g))"
    and op_member: "R st (fst (so_CreateMembership so st i u r y))"
    and op_role: "R st (fst (so_UpdateMemberRole so st i u r))"
    and op_member_gone: "R st (fst (so_RemoveMembership so st i u))"
    and op_invite: "R st (fst (so_CreateInvite so st invite))"
    and op_workflow: "R st (fst (so_CreateWorkflow so st flow))"
    and op_run: "R st (fst (so_CreateWorkflowRun so st run))"
begin

lemmas ops = op_audit op_verified op_factor op_factor_ok op_factor_gone op_token op_token_gone op_org
  op_member op_role op_member_gone op_invite op_workflow op_run

lemma logged:
  assumes "\<And>s. effect R s (k s)"
  shows "effect R s (recordEvent so e now u a r s k)"
proof -
  have "effect R (record_audit e now u a r s) (recordEvent so e now u a r s k)"
    unfolding recordEvent_def Let_def
    by (intro effect_if effect_randomID try' op_audit assms)
  then show ?thesis by (rule effect_from[rotated]) simp
qed

lemmas intros = decoded refused replied effect_if effect_randomID effect_random_read effect_encrypt
  effect_backup read call try' logged ops effect_option effect_sum

lemma email_effects:
  "effect R s (sendVerifyEmail so e now u s)"
  "effect R s (confirmVerifyEmail so e now b1 u s)"
  "effect R s (requestPasswordReset so e now b2 s)"
  unfolding sendVerifyEmail_def confirmVerifyEmail_def requestPasswordReset_def Let_def
  by (intro intros)+

lemma totp_effects:
  "effect R s (setup2FA so e u s)" "effect R s (confirm2FA so e now b4 u s)"
  "effect R s (disable2FA so e now b5 u s)"
  unfolding setup2FA_def confirm2FA_def disable2FA_def Let_def
  by (intro intros)+

lemma team_effects:
  "effect R s (createOrganization so e now b1 u s)" "effect R s (listOrganizations so u s)"
  "effect R s (listMembers so k u s)" "effect R s (inviteMember so e now k b2 u s)"
  "effect R s (updateMemberRole so e now k k2 b3 u s)" "effect R s (removeMember so e now k k2 u s)"
  "effect R s (createWorkflow so e now k b4 u s)" "effect R s (listWorkflows so k u s)"
  "effect R s (runWorkflow so e now k k2 u s)" "effect R s (getWorkflowRun so k u s)"
  unfolding createOrganization_def listOrganizations_def listMembers_def inviteMember_def
    updateMemberRole_def removeMember_def createWorkflow_def listWorkflows_def runWorkflow_def
    getWorkflowRun_def list_or_empty_def Let_def
  by (intro intros)+

end

section \<open>The endpoints that never touch the store\<close>

lemma store_issue: "sv_store (fst (reply_tokens st (issue e now u f s))) = sv_store s"
  by (simp add: reply_tokens_def issue_frame)

lemma register_untouched: "sv_store (fst (register e now b s)) = sv_store s"
  by (auto simp: register_def register_locked_def register_insert_def busy_def fail_def Let_def split_def reply_tokens_def
      authSlot_def decode_def issue_frame split: option.split json_body.split)

lemma login_untouched: "sv_store (fst (login e now b s)) = sv_store s"
  by (auto simp: login_def login_locked_def login_finish_def busy_def fail_def Let_def split_def reply_tokens_def
      authSlot_def decode_def issue_frame split: option.split json_body.split)

lemma account_untouched:
  "sv_store (fst (rotate e now b1 s)) = sv_store s" "sv_store (fst (verify2FALogin e now b2 s)) = sv_store s"
  "sv_store (fst (logout e now u s)) = sv_store s" "sv_store (fst (me u s)) = sv_store s"
  "sv_store (fst (newChallenge e now u s)) = sv_store s"
  by (auto simp: rotate_def verify2FALogin_def logout_def me_def newChallenge_def fail_def Let_def
      split_def reply_tokens_def decode_def issue_frame invalidate_frame
      split: option.split json_body.split)

lemma decide_untouched: "sv_store (fst (decideSession e now r k b u s)) = sv_store s"
  by (auto simp: decideSession_def decode_def fail_def update_session_frame reply_ended_frame
      dest: targetSession_Inl_frame targetSession_Inr_frame split: json_body.split sum.split)

lemma signalling_untouched: "sv_store (fst (serve_signalling acc r s)) = sv_store s"
  by (auto simp: serve_signalling_def sig_connect_def fail_def Let_def split: option.split prod.splits if_splits)

lemma session_untouched:
  "sv_store (fst (changePermissions e now r k b1 u s)) = sv_store s"
  "sv_store (fst (handover e now r k u s)) = sv_store s"
  "sv_store (fst (stopSession e now k u s)) = sv_store s"
  "sv_store (fst (requestSession e now r b2 u s)) = sv_store s"
  by (auto simp: changePermissions_def handover_def stopSession_def requestSession_def request_from_def
      create_session_def decode_def fail_def Let_def split_def take_from_rivals_frame
      dest: targetSession_Inl_frame targetSession_Inr_frame
      split: json_body.split sum.split option.split)

lemma listing_untouched:
  "sv_store (fst (listSessions u s)) = sv_store s" "sv_store (fst (listAudit u s)) = sv_store s"
  "sv_store (fst (listDevices now u s)) = sv_store s" "sv_store (fst (lookupDevice now c u s)) = sv_store s"
  "sv_store (fst (iceConfiguration e now k u s)) = sv_store s"
  "sv_store (fst (analyzeSessionWithAI p key e now k b u s)) = sv_store s"
  by (auto simp: listSessions_def listAudit_def listDevices_def lookupDevice_def iceConfiguration_def
      analyzeSessionWithAI_def decode_def fail_def Let_def split: option.split json_body.split ai_answer.split)

lemmas untouched_simps = register_untouched login_untouched account_untouched decide_untouched
  signalling_untouched session_untouched listing_untouched registerDevice_frame revokeDevice_frame

lemma admit_untouched: "sv_store (fst (admit e now r s)) = sv_store s"
  by (simp add: admit_def Let_def)

section \<open>A whole request\<close>

text \<open>The confirmation of a reset: the token is looked up, and only an unexpired token for a reset
  leads to \<open>UpdatePassword\<close>, for the account and with the password of the request.\<close>

definition resets ::
  "'st store_ops \<Rightarrow> env \<Rightarrow> time \<Rightarrow> reset_request \<Rightarrow> EmailToken \<Rightarrow> password \<Rightarrow> 'st \<Rightarrow> bool" where
  "resets so e now q t p st \<longleftrightarrow>
     so_GetEmailToken so st (digestStr e (pr_Token q)) = Inr t \<and> et_Kind t = ''reset'' \<and>
     now < et_ExpiresAt t \<and> matches e p (pr_NewPassword q)"

context store_relation begin

lemma reset_effect:
  "effect (\<lambda>st st'. R st st' \<or> (\<exists>q t p. b = OneObject q \<and> resets so e now q t p st \<and>
      R (fst (so_UpdatePassword so st (et_UserID t) (encodePassword p))) st'))
    s (confirmPasswordReset so e now b s)" (is "effect ?Q s ?out")
proof (cases "effect R s ?out")
  case True
  then show ?thesis by (auto simp: effect_def split: option.splits)
next
  case False
  then obtain q where q: "b = OneObject q"
    by (cases b) (auto simp: confirmPasswordReset_def decode_def untouched)
  let ?h = "digestStr e (pr_Token q)"
  have len: "\<not> (length (pr_NewPassword q) < 12 \<or> length (pr_NewPassword q) > 256)"
  proof
    assume "length (pr_NewPassword q) < 12 \<or> length (pr_NewPassword q) > 256"
    then have "sv_store (fst ?out) = sv_store s"
      using q by (simp add: confirmPasswordReset_def decode_def fail_def)
    with False show False by (simp add: untouched)
  qed
  have "sv_store s \<noteq> None"
  proof
    assume "sv_store s = None"
    then have "sv_store (fst ?out) = sv_store s"
      using q len by (simp add: confirmPasswordReset_def decode_def store_read_def Let_def)
    with False show False by (simp add: untouched)
  qed
  then obtain st where st: "sv_store s = Some st" by auto
  show ?thesis
  proof (cases "so_GetEmailToken so st ?h")
    case (Inl err)
    then have "sv_store (fst ?out) = sv_store s"
      using q len st by (auto simp: confirmPasswordReset_def decode_def Let_def store_read_def fail_def)
    with False show ?thesis by (simp add: untouched)
  next
    case (Inr t)
    have live: "et_Kind t = ''reset'' \<and> now < et_ExpiresAt t"
    proof (rule ccontr)
      assume "\<not> ?thesis"
      then have "?out = store_call (\<lambda>st. so_DeleteEmailToken so st ?h) s
          (\<lambda>_ s. fail s 400 ''invalid or expired reset token'')"
        using q len st Inr by (auto simp: confirmPasswordReset_def decode_def Let_def store_read_def)
      then have "effect R s ?out" by (simp add: call op_token_gone refused)
      with False show False ..
    qed
    obtain p s1 where p: "hashPassword e (pr_NewPassword q) s = (p, s1)" by force
    then have s1: "sv_store s1 = Some st" and "matches e p (pr_NewPassword q)"
      using hashPassword_frame(2)[of e "pr_NewPassword q" s] st
      by (auto simp: hashPassword_def matches_def Let_def split_def)
    with live Inr have res: "resets so e now q t p st" by (simp add: resets_def)
    obtain st1 err where up: "so_UpdatePassword so st (et_UserID t) (encodePassword p) = (st1, err)" by force
    define s2 where "s2 = s1\<lparr>sv_store := Some st1\<rparr>"
    define rest where "rest = (if err \<noteq> None then fail s2 500 ''failed to update password''
      else store_call (\<lambda>st. so_DeleteEmailToken so st ?h) s2
        (\<lambda>_ s. recordEvent so e now (et_UserID t) ''account.password_reset'' (et_UserID t) s
           (\<lambda>s. (s, Reply 200 JOk))))"
    have "?out = (if err = Some NilDereference then (s2, Panicked) else rest)"
      using q len st Inr live s1
      by (simp add: confirmPasswordReset_def decode_def Let_def store_read_def p store_call_def[of _ s1] up
          s2_def rest_def)
    moreover have "effect R s2 rest"
      unfolding rest_def by (intro intros)
    ultimately have "effect R s2 ?out" by (simp add: untouched)
    then obtain st' where "sv_store (fst ?out) = Some st'" "R st1 st'"
      by (auto simp: effect_def s2_def split: option.splits)
    moreover from up have "st1 = fst (so_UpdatePassword so st (et_UserID t) (encodePassword p))" by simp
    ultimately show ?thesis unfolding effect_def using st res q by auto
  qed
qed

lemma public_effects:
  assumes "serve_public w now ep r s = Some out" and "ep \<noteq> EPasswordResetConfirm" and "wd_store w = so"
  shows "effect R s out"
  using assms(1,2) unfolding assms(3)[symmetric]
  by (cases ep) (auto simp: serve_public_def Let_def email_effects[folded assms(3)] untouched untouched_simps)

lemma user_effects:
  "wd_store w = so \<Longrightarrow> effect R s (serve_user w now ep vs r u s)"
  by (cases ep) (simp_all add: serve_user_def Let_def email_effects totp_effects team_effects untouched
      untouched_simps)

lemma auth_effects: "(\<And>u. effect R s (k u s)) \<Longrightarrow> effect R s (auth e now r k s)"
  by (auto simp: auth_def untouched split: sum.split)

text \<open>Any request: the store moves along the relation, or a reset was confirmed.\<close>

lemma serve_effect:
  assumes "wd_store w = so"
  shows "effect (\<lambda>st st'. R st st' \<or> (\<exists>vs q t p.
      find_route routes (rq_Method r) (path_segments r) = Some (EPasswordResetConfirm, vs) \<and>
      jc_reset (wd_json w) (rq_Body r) = OneObject q \<and> resets so (wd_env w) now q t p st \<and>
      R (fst (so_UpdatePassword so st (et_UserID t) (encodePassword p))) st'))
    s (serve w now r s)" (is "effect ?Q s _")
proof -
  have weak: "effect R s1 out \<Longrightarrow> effect ?Q s1 out" for s1 out
    by (auto simp: effect_def split: option.splits)
  obtain s1 ok where ad: "admit (wd_env w) now r s = (s1, ok)" by force
  then have s1: "sv_store s1 = sv_store s" using admit_untouched[of "wd_env w" now r s] by simp
  have "effect ?Q s1 (dispatch w now r s1)"
  proof (cases "clean_path (raw_segments r)")
    case clean: True
    show ?thesis
    proof (cases "find_route routes (rq_Method r) (path_segments r)")
      case None
      then show ?thesis using clean by (intro weak) (simp add: dispatch_def Let_def replied)
    next
      case (Some x)
      obtain ep vs where x: "x = (ep, vs)" by force
      show ?thesis
      proof (cases "serve_public w now ep r s1")
        case None
        have "effect R s1 (auth (wd_env w) now r (serve_user w now ep vs r) s1)"
          by (rule auth_effects) (rule user_effects[OF assms])
        then show ?thesis
          using None clean Some x by (intro weak) (simp add: dispatch_def Let_def)
      next
        case out: (Some out)
        show ?thesis
        proof (cases "ep = EPasswordResetConfirm")
          case True
          then show ?thesis
            using clean Some x assms
              reset_effect[where b="jc_reset (wd_json w) (rq_Body r)" and e="wd_env w" and now=now and s=s1]
            by (simp add: dispatch_def Let_def serve_public_def effect_def split: option.splits)
        next
          case False
          then show ?thesis
            using clean Some x out public_effects[OF out False assms]
            by (intro weak) (simp add: dispatch_def Let_def)
        qed
      qed
    qed
  qed (intro weak, simp add: dispatch_def Let_def replied)
  then have "effect ?Q s (dispatch w now r s1)" using s1 by (simp add: effect_def)
  moreover have "effect ?Q s (fail s1 429 m)" for m
    using s1 by (intro weak untouched) (simp add: fail_def)
  ultimately show ?thesis by (simp add: serve_def Let_def ad)
qed

end

section \<open>The passwords of the in-memory store\<close>

definition same_passwords :: "MemoryStore \<Rightarrow> MemoryStore \<Rightarrow> bool" where
  "same_passwords m m' \<longleftrightarrow>
     (\<forall>u. map_option ac_PasswordHash (get (ms_accounts m') u) =
          map_option ac_PasswordHash (get (ms_accounts m) u))"

interpretation memory_passwords: store_relation same_passwords memory_ops
  by unfold_locales (auto simp: same_passwords_def mem_op_defs gomap_simps Let_def split: option.split)

end
