(* ===== verification/Mail_Claims.thy ===== *)
theory Mail_Claims
  imports Mail_Flows Store_Effects
begin

text \<open>
  The properties of e-mail verification and password reset over the in-memory store.
\<close>

section \<open>Password reset\<close>

text \<open>C11: the password of an account in the store changes only by a confirmed reset: whatever request
  is served, if the stored hash of an account is another one afterwards, the request was routed to the
  confirmation of a reset and named a token whose digest was stored for a reset of that very account
  and had not expired, and the new hash is one of the password in the request.\<close>

theorem stored_password_needs_token:
  assumes "sv_store s = Some m" and "wd_store w = memory_ops"
    and "sv_store (fst (serve w now r s)) = Some m'"
    and a: "get (ms_accounts m) u = Some a" and a': "get (ms_accounts m') u = Some a'"
    and new: "ac_PasswordHash a' \<noteq> ac_PasswordHash a"
  shows "\<exists>vs q t p.
    find_route routes (rq_Method r) (path_segments r) = Some (EPasswordResetConfirm, vs) \<and>
    jc_reset (wd_json w) (rq_Body r) = OneObject q \<and>
    get (ms_emailTokens m) (digestStr (wd_env w) (pr_Token q)) = Some t \<and>
    et_Kind t = ''reset'' \<and> et_UserID t = u \<and> now < et_ExpiresAt t \<and>
    ac_PasswordHash a' = encodePassword p \<and> matches (wd_env w) p (pr_NewPassword q)"
proof -
  have "\<not> same_passwords m m'"
    using a a' new unfolding same_passwords_def by (metis option.map(2) option.inject)
  with memory_passwords.serve_effect[OF assms(2), of r now s] assms(1,3) obtain vs q t p where
    r: "find_route routes (rq_Method r) (path_segments r) = Some (EPasswordResetConfirm, vs)"
      "jc_reset (wd_json w) (rq_Body r) = OneObject q" "resets memory_ops (wd_env w) now q t p m"
      "same_passwords (fst (UpdatePassword m (et_UserID t) (encodePassword p))) m'"
    by (auto simp: effect_def)
  from r(4) a a' new have "et_UserID t = u \<and> ac_PasswordHash a' = encodePassword p"
    by (auto simp: same_passwords_def UpdatePassword_def get_adjust split: option.splits if_splits
        dest!: spec[of _ u])
  with r(1-3) show ?thesis
    by (auto simp: resets_def GetEmailToken_def split: option.splits)
qed

definition demo_stored :: Account where
  "demo_stored = \<lparr>ac_ID = ''ann'', ac_Email = ''ann@x.org'', ac_Name = ''ann'', ac_PasswordHash = ''old'',
     ac_TokenVersion = 0, ac_EmailVerifiedAt = None, ac_CreatedAt = 0\<rparr>"

definition demo_mail_store :: MemoryStore where
  "demo_mail_store = NewMemoryStore\<lparr>ms_accounts := [(''ann'', demo_stored)],
     ms_emails := [(''ann@x.org'', ''ann'')],
     ms_emailTokens := [(''746f6b'', \<lparr>et_TokenHash = ''746f6b'', et_UserID = ''ann'',
       et_Kind = ''reset'', et_ExpiresAt = minute\<rparr>)]\<rparr>"

definition demo_mailing :: "MemoryStore service" where
  "demo_mailing = demo_service\<lparr>sv_store := Some demo_mail_store, sv_sessions := []\<rparr>"

definition demo_reset_world :: "MemoryStore world" where
  "demo_reset_world = demo_world\<lparr>wd_json := demo_json\<lparr>jc_reset :=
     (\<lambda>_. OneObject \<lparr>pr_Token = ''tok'', pr_NewPassword = ''a new password''\<rparr>)\<rparr>\<rparr>"

definition demo_reset_request :: http_request where
  "demo_reset_request = \<lparr>rq_Method = ''POST'', rq_Path = ''/v1/auth/password-reset/confirm'',
     rq_EscapedPath = ''/v1/auth/password-reset/confirm'',
     rq_Header = [], rq_RemoteAddr = ''host'', rq_DeviceQuery = [], rq_Body = []\<rparr>"

lemma admit_first: "sv_rates s = [] \<Longrightarrow> snd (admit e now r s)"
  by (simp add: admit_def expire_def Let_def count_request_def no_rate_def rate_limit_def)

lemma demo_reset_run:
  "\<exists>s' m'. serve demo_reset_world 0 demo_reset_request demo_mailing = (s', Reply 200 JOk) \<and>
    sv_store s' = Some m' \<and> map_option ac_TokenVersion (get (ms_accounts m') ''ann'') = Some 1 \<and>
    map_option ac_PasswordHash (get (ms_accounts m') ''ann'') \<noteq> Some ''old''"
proof -
  define s1 where "s1 = fst (admit demo_env 0 demo_reset_request demo_mailing)"
  have ad: "admit demo_env 0 demo_reset_request demo_mailing = (s1, True)"
    using admit_first[of demo_mailing] by (simp add: s1_def demo_mailing_def demo_service_def prod_eq_iff)
  have st: "sv_store s1 = Some demo_mail_store"
    by (simp add: s1_def admit_untouched demo_mailing_def)
  have r: "clean_path (raw_segments demo_reset_request)"
    "find_route routes (rq_Method demo_reset_request) (path_segments demo_reset_request) =
       Some (EPasswordResetConfirm, [])" by code_simp+
  have h: "digestStr demo_env ''tok'' = ''746f6b''" by code_simp
  have "serve demo_reset_world 0 demo_reset_request demo_mailing = confirmPasswordReset memory_ops demo_env 0
      (OneObject \<lparr>pr_Token = ''tok'', pr_NewPassword = ''a new password''\<rparr>) s1"
    by (simp add: serve_def dispatch_def serve_public_def Let_def demo_reset_world_def demo_world_def ad r)
  moreover have "\<exists>s' m'. confirmPasswordReset memory_ops demo_env 0
      (OneObject \<lparr>pr_Token = ''tok'', pr_NewPassword = ''a new password''\<rparr>) s1 = (s', Reply 200 JOk) \<and>
      sv_store s' = Some m' \<and> get (ms_emails m') = get (ms_emails demo_mail_store) \<and>
      get (ms_accounts m') = (get (ms_accounts demo_mail_store))(''ann'' \<mapsto> demo_stored\<lparr>ac_PasswordHash :=
        encodePassword (fst (hashPassword demo_env ''a new password'' s1)), ac_TokenVersion := 0 + 1\<rparr>) \<and>
      get (ms_emailTokens m') = (get (ms_emailTokens demo_mail_store))(digestStr demo_env ''tok'' := None)"
    using memory_mail.reset_confirmed[OF st, of demo_env "''tok''" _ 0 demo_stored "''a new password''"]
    by (simp add: h demo_mail_store_def demo_stored_def minute_def second_def)
  moreover have "encodePassword (fst (hashPassword demo_env ''a new password'' s1)) \<noteq> ''old''"
    by (simp add: encodePassword_def hashPassword_def random_read_def demo_env_def)
  ultimately show ?thesis by fastforce
qed

theorem stored_password_needs_token_witness:
  "\<exists>s' m' a' p. serve demo_reset_world 0 demo_reset_request demo_mailing = (s', Reply 200 JOk) \<and>
    sv_store s' = Some m' \<and> get (ms_accounts m') ''ann'' = Some a' \<and>
    ac_PasswordHash a' = encodePassword p \<and> matches demo_env p ''a new password''"
proof -
  obtain s' m' a' where s': "serve demo_reset_world 0 demo_reset_request demo_mailing = (s', Reply 200 JOk)"
    "sv_store s' = Some m'" "get (ms_accounts m') ''ann'' = Some a'" "ac_PasswordHash a' \<noteq> ''old''"
    using demo_reset_run by auto
  have w: "sv_store demo_mailing = Some demo_mail_store" "wd_store demo_reset_world = memory_ops"
    "get (ms_accounts demo_mail_store) ''ann'' = Some demo_stored"
    by (simp_all add: demo_mailing_def demo_reset_world_def demo_world_def demo_mail_store_def)
  have "sv_store (fst (serve demo_reset_world 0 demo_reset_request demo_mailing)) = Some m'"
    using s' by simp
  from stored_password_needs_token[OF w(1,2) this w(3) s'(3)] s'(4)
  obtain q p where "jc_reset (wd_json demo_reset_world) (rq_Body demo_reset_request) = OneObject q"
    "ac_PasswordHash a' = encodePassword p" "matches (wd_env demo_reset_world) p (pr_NewPassword q)"
    by (auto simp: demo_stored_def)
  with s' show ?thesis by (auto simp: demo_reset_world_def demo_world_def)
qed

text \<open>C12: a reset token works once. The token that a reset request for a stored account draws sets, until
  thirty minutes later and whatever else the service did in between, the password of that account: the
  stored hash decodes to one that matches the new password, the token version is raised, and every
  later confirmation with the same token is refused.\<close>

theorem password_reset_works_once:
  fixes s :: "MemoryStore service"
  assumes token_def: "token = RawURLEncode (rand_bytes e (sv_entropy s) 32)"
    and store: "sv_store s = Some m" and mail: "get (ms_emails m) em = Some (ac_ID a)"
    and acct: "get (ms_accounts m) (ac_ID a) = Some a"
    and em: "em = ToLower (unicode_lower e) (TrimSpace raw)" "parse_address e em = Some y"
    and s2: "sv_store s2 = sv_store (fst (requestPasswordReset memory_ops e now (OneObject raw) s))"
    and time: "at < now + 30 * minute" and len: "12 \<le> length new" "length new \<le> 256"
    and salt: "length (rand_bytes e (sv_entropy s2) 16) = 16"
    and hash: "length (argon2id e new (rand_bytes e (sv_entropy s2) 16) 3 (64 * 1024) 2 32) = 32"
  shows "\<exists>s3 m3 p. confirmPasswordReset memory_ops e at
        (OneObject \<lparr>pr_Token = token, pr_NewPassword = new\<rparr>) s2 = (s3, Reply 200 JOk) \<and>
    sv_store s3 = Some m3 \<and>
    GetAccountByEmail m3 em = Inr (a\<lparr>ac_PasswordHash := encodePassword p,
      ac_TokenVersion := ac_TokenVersion a + 1\<rparr>) \<and>
    decodePassword (encodePassword p) = Some p \<and> matches e p new \<and>
    (\<forall>late x. 12 \<le> length x \<and> length x \<le> 256 \<longrightarrow>
      confirmPasswordReset memory_ops e late (OneObject \<lparr>pr_Token = token, pr_NewPassword = x\<rparr>) s3 =
        (s3, Reply 400 (JError ''invalid or expired reset token'')))"
proof -
  let ?h = "digestStr e token"
  obtain s1 m1 where m1: "requestPasswordReset memory_ops e now (OneObject raw) s = (s1, Reply 200 reset_reply)"
    "sv_store s1 = Some m1" "get (ms_accounts m1) = get (ms_accounts m)" "get (ms_emails m1) = get (ms_emails m)"
    "get (ms_emailTokens m1) = (get (ms_emailTokens m))(?h \<mapsto> \<lparr>et_TokenHash = ?h, et_UserID = ac_ID a,
       et_Kind = ''reset'', et_ExpiresAt = now + 30 * minute\<rparr>)"
    using memory_mail.reset_requested[OF store mail acct refl em, of now] unfolding drawn_def token_def by blast
  have "sv_store s2 = Some m1" using s2 m1(1,2) by simp
  from memory_mail.reset_confirmed[OF this, of e token _ at a new] m1 acct time len
  obtain s3 m3 where m3: "confirmPasswordReset memory_ops e at
      (OneObject \<lparr>pr_Token = token, pr_NewPassword = new\<rparr>) s2 = (s3, Reply 200 JOk)"
    "sv_store s3 = Some m3" "get (ms_emails m3) = get (ms_emails m)"
    "get (ms_accounts m3) (ac_ID a) = Some (a\<lparr>ac_PasswordHash := encodePassword (fst (hashPassword e new s2)),
       ac_TokenVersion := ac_TokenVersion a + 1\<rparr>)" "get (ms_emailTokens m3) ?h = None"
    by auto
  let ?p = "fst (hashPassword e new s2)"
  have "decodePassword (encodePassword ?p) = Some ?p"
    using salt hash by (simp add: decodePassword_def encodePassword_def hashPassword_def random_read_def)
  moreover have "matches e ?p new" by (simp add: matches_def hashPassword_def random_read_def)
  moreover have "GetAccountByEmail m3 em = Inr (a\<lparr>ac_PasswordHash := encodePassword ?p,
      ac_TokenVersion := ac_TokenVersion a + 1\<rparr>)"
    using m3(3,4) mail by (simp add: GetAccountByEmail_def)
  ultimately show ?thesis using m3 memory_mail.reset_refused[OF m3(2,5)] by blast
qed

theorem password_reset_works_once_witness:
  "\<exists>s3 m3. confirmPasswordReset memory_ops demo_env minute
      (OneObject \<lparr>pr_Token = RawURLEncode (rand_bytes demo_env 0 32),
         pr_NewPassword = ''thirty-two characters of phrase.''\<rparr>)
      (fst (requestPasswordReset memory_ops demo_env 0 (OneObject ''ann@x.org'') demo_mailing)) =
      (s3, Reply 200 JOk) \<and> sv_store s3 = Some m3 \<and>
    (\<exists>p. GetAccountByEmail m3 ''ann@x.org'' =
       Inr (demo_stored\<lparr>ac_PasswordHash := encodePassword p, ac_TokenVersion := 0 + 1\<rparr>))"
proof -
  let ?s2 = "fst (requestPasswordReset memory_ops demo_env 0 (OneObject ''ann@x.org'') demo_mailing)"
  have m: "sv_store demo_mailing = Some demo_mail_store"
    "get (ms_emails demo_mail_store) ''ann@x.org'' = Some (ac_ID demo_stored)"
    "get (ms_accounts demo_mail_store) (ac_ID demo_stored) = Some demo_stored"
    by (simp_all add: demo_mailing_def demo_mail_store_def demo_stored_def)
  have em: "''ann@x.org'' = ToLower (unicode_lower demo_env) (TrimSpace ''ann@x.org'')"
    "parse_address demo_env ''ann@x.org'' = Some ''ann@x.org''" by code_simp+
  have e: "RawURLEncode (rand_bytes demo_env 0 32) = RawURLEncode (rand_bytes demo_env (sv_entropy demo_mailing) 32)"
    "ac_TokenVersion demo_stored = 0"
    by (simp_all add: demo_mailing_def demo_service_def demo_stored_def)
  have len: "minute < 0 + 30 * minute" "12 \<le> length ''thirty-two characters of phrase.''"
    "length ''thirty-two characters of phrase.'' \<le> 256"
    "length (rand_bytes demo_env (sv_entropy ?s2) 16) = 16"
    "length (argon2id demo_env ''thirty-two characters of phrase.'' (rand_bytes demo_env (sv_entropy ?s2) 16)
       3 (64 * 1024) 2 32) = 32"
    by (simp_all add: demo_env_def minute_def second_def)
  from password_reset_works_once[OF e(1) m em refl len] show ?thesis unfolding e(2) by blast
qed

section \<open>E-mail verification\<close>

text \<open>C13: the code that is sent has six digits and verifies exactly its account within fifteen minutes:
  entered by that account in time it marks the address as verified at that instant and is used up,
  entered by another account it is refused and changes nothing, and entered late it verifies nothing.\<close>

theorem verification_code_works:
  fixes s :: "MemoryStore service"
  assumes code_def: "code = email_code (rand_bytes e (sv_entropy s) 4)"
    and store: "sv_store s = Some m" and acct: "get (ms_accounts m) u = Some a"
    and s2: "sv_store s2 = sv_store (fst (sendVerifyEmail memory_ops e now u s))"
  shows "length code = 6 \<and> (\<forall>c \<in> set code. CHR ''0'' \<le> c \<and> c \<le> CHR ''9'') \<and>
    (at < now + 15 * minute \<longrightarrow> (\<exists>s3 m3.
      confirmVerifyEmail memory_ops e at (OneObject code) u s2 = (s3, Reply 200 JOk) \<and>
      sv_store s3 = Some m3 \<and> get (ms_accounts m3) u = Some (a\<lparr>ac_EmailVerifiedAt := Some at\<rparr>) \<and>
      get (ms_emailTokens m3) (digestStr e code) = None)) \<and>
    (x \<noteq> u \<longrightarrow> confirmVerifyEmail memory_ops e at (OneObject code) x s2 =
      (s2, Reply 400 (JError ''invalid or expired code''))) \<and>
    (now + 15 * minute \<le> at \<longrightarrow> (\<exists>s3 m3.
      confirmVerifyEmail memory_ops e at (OneObject code) u s2 = (s3, Reply 400 (JError ''code has expired'')) \<and>
      sv_store s3 = Some m3 \<and> get (ms_accounts m3) = get (ms_accounts m)))"
proof -
  let ?t = "\<lparr>et_TokenHash = digestStr e code, et_UserID = u, et_Kind = ''verify'',
    et_ExpiresAt = now + 15 * minute\<rparr>"
  have trim: "TrimSpace code = code" "code \<noteq> []" "length code = 6"
    using email_code_digits(1)[of "rand_bytes e (sv_entropy s) 4"] by (auto simp: code_def TrimSpace_code)
  have digits: "\<forall>c \<in> set code. CHR ''0'' \<le> c \<and> c \<le> CHR ''9''"
    using email_code_digits(2) by (fastforce simp: code_def less_eq_char_def)
  obtain m1 where m1: "sv_store s2 = Some m1" "get (ms_accounts m1) = get (ms_accounts m)"
    "get (ms_emailTokens m1) (digestStr e (TrimSpace code)) = Some ?t"
    using memory_mail.code_sent[OF store acct, of e now] s2 trim(1) unfolding code_def by fastforce
  have ok: "\<exists>s3 m3. confirmVerifyEmail memory_ops e at (OneObject code) u s2 = (s3, Reply 200 JOk) \<and>
      sv_store s3 = Some m3 \<and> get (ms_accounts m3) u = Some (a\<lparr>ac_EmailVerifiedAt := Some at\<rparr>) \<and>
      get (ms_emailTokens m3) (digestStr e code) = None" if "at < now + 15 * minute"
    using memory_mail.code_confirmed[OF m1(1,3), of u at a] trim that m1(2) acct by fastforce
  have other: "confirmVerifyEmail memory_ops e at (OneObject code) x s2 =
      (s2, Reply 400 (JError ''invalid or expired code''))" if "x \<noteq> u"
    using memory_mail.code_of_another[OF m1(1,3), of x at] trim that by simp
  have late: "\<exists>s3 m3. confirmVerifyEmail memory_ops e at (OneObject code) u s2 =
      (s3, Reply 400 (JError ''code has expired'')) \<and> sv_store s3 = Some m3 \<and>
      get (ms_accounts m3) = get (ms_accounts m)" if "now + 15 * minute \<le> at"
    using memory_mail.code_late[OF m1(1,3), of u at] trim that m1(2) by simp
  show ?thesis using trim(3) digits ok other late by blast
qed

theorem verification_code_works_witness:
  "\<exists>s3 m3. confirmVerifyEmail memory_ops demo_env minute (OneObject (email_code (rand_bytes demo_env 0 4)))
      ''ann'' (fst (sendVerifyEmail memory_ops demo_env 0 ''ann'' demo_mailing)) = (s3, Reply 200 JOk) \<and>
    sv_store s3 = Some m3 \<and>
    get (ms_accounts m3) ''ann'' = Some (demo_stored\<lparr>ac_EmailVerifiedAt := Some minute\<rparr>)"
proof -
  have m: "email_code (rand_bytes demo_env 0 4) = email_code (rand_bytes demo_env (sv_entropy demo_mailing) 4)"
    "sv_store demo_mailing = Some demo_mail_store"
    "get (ms_accounts demo_mail_store) ''ann'' = Some demo_stored"
    by (simp_all add: demo_mailing_def demo_mail_store_def demo_service_def)
  have "minute < 0 + 15 * minute" by (simp add: minute_def second_def)
  with verification_code_works[OF m refl, of minute 0 "''bob''"] show ?thesis by blast
qed

end
