(* ===== verification/Http_Claims.thy ===== *)
theory Http_Claims
  imports Demo_State
begin

text \<open>
  The properties of the service as a whole: consistent states, the rate limiter, the routes, the
  relay of the signalling endpoint and the ICE configuration.
\<close>

section \<open>Consistent states\<close>


lemma demo_start: "reachable demo_world (fst (admit demo_env 0 r (fst (ConfigureICE [] []
    (the (NewWithStore demo_key (Some NewMemoryStore)))))))"
proof -
  have "NewWithStore demo_key (Some NewMemoryStore) =
      Some (the (NewWithStore demo_key (Some NewMemoryStore)))"
    by (simp add: NewWithStore_def demo_key_def)
  from reachable.step[OF reachable.start[OF this, of demo_world "[]" "[]"]
      service_step.admission[of 0 demo_world _ r]]
  show ?thesis by (simp add: demo_world_def)
qed


section \<open>The rate limiter\<close>

primrec admissions ::
  "env \<Rightarrow> (time \<times> http_request) list \<Rightarrow> 'st service \<Rightarrow> bool list" where
  "admissions e [] s = []"
| "admissions e (x # xs) s =
     snd (admit e (fst x) (snd x) s) # admissions e xs (fst (admit e (fst x) (snd x) s))"

definition window_state :: "rate option \<Rightarrow> time \<Rightarrow> nat \<Rightarrow> bool" where
  "window_state w until n \<longleftrightarrow>
     (case w of None \<Rightarrow> n = 0 | Some v \<Rightarrow> until \<le> rl_Until v \<and> rl_Count v = int n)"

lemma admit_rates:
  assumes "wf_map (sv_rates s)" and "window_state (get (sv_rates s) k) until n" and "now < until"
    and "until \<le> now + minute" and "0 \<le> now"
  shows "window_state (get (sv_rates (fst (admit e now r s))) k) until
      (if rate_key e r = k then Suc n else n)"
    and "rate_key e r = k \<Longrightarrow> snd (admit e now r s) \<longleftrightarrow> int (Suc n) \<le> rate_limit r"
    and "wf_map (sv_rates (fst (admit e now r s)))"
proof -
  have keep: "get (sv_rates (expire e now s)) k = get (sv_rates s) k"
    if "window_state (get (sv_rates s) k) until n"
    using that assms(1,3) unfolding expire_rates
    by (auto simp: get_filter window_state_def split: option.splits)
  have cnt: "window_state (Some (count_request now (get (sv_rates s) k))) until (Suc n)"
    "rl_Count (count_request now (get (sv_rates s) k)) = int (Suc n)"
    using assms(2-5)
    by (auto simp: window_state_def count_request_def no_rate_def zero_time_def Let_def
        split: option.splits)
  show "window_state (get (sv_rates (fst (admit e now r s))) k) until
      (if rate_key e r = k then Suc n else n)"
    using cnt(1) assms(2) keep[OF assms(2)] by (simp add: admit_state get_put)
  show "rate_key e r = k \<Longrightarrow> snd (admit e now r s) \<longleftrightarrow> int (Suc n) \<le> rate_limit r"
    using cnt(2) keep[OF assms(2)] by (auto simp: admit_def Let_def)
  show "wf_map (sv_rates (fst (admit e now r s)))"
    using assms(1) by (simp add: admit_state expire_rates)
qed

lemma admissions_window:
  assumes "wf_map (sv_rates s)" and "window_state (get (sv_rates s) k) until n"
    and "\<forall>(now, r) \<in> set xs. 0 \<le> now \<and> now < until \<and> until \<le> now + minute \<and>
           (rate_key e r = k \<longrightarrow> rate_limit r = int limit)"
  shows "length (filter (\<lambda>((now, r), ok). rate_key e r = k \<and> ok) (zip xs (admissions e xs s))) =
    min (length (filter (\<lambda>(now, r). rate_key e r = k) xs)) (limit - n)"
  using assms
proof (induction xs arbitrary: s n)
  case (Cons x xs)
  obtain now r where x: "x = (now, r)" by force
  from Cons.prems(3) x have t: "0 \<le> now" "now < until" "until \<le> now + minute"
    "rate_key e r = k \<longrightarrow> rate_limit r = int limit" by auto
  note a = admit_rates[OF Cons.prems(1,2) t(2,3,1), of e r]
  from Cons.IH[OF a(3,1)] Cons.prems(3) a(2) t(4) show ?case
    by (cases "rate_key e r = k") (auto simp: x)
qed simp

text \<open>C26: the limiter admits, for each key, exactly the first \<open>limit\<close> requests of a window and none
  of the others: for any sequence of requests of any clients within less than a minute, starting
  when the key has no window, the number admitted under the key is the smaller of the number sent
  and the limit (15 on the authentication paths, 300 elsewhere).\<close>

theorem rate_limit_window:
  assumes "service_inv s" and "get (sv_rates s) k = None"
    and "0 \<le> t0" and "\<forall>(now, r) \<in> set xs. t0 \<le> now \<and> now < t0 + minute \<and>
           (rate_key e r = k \<longrightarrow> rate_limit r = int limit)"
  shows "length (filter (\<lambda>((now, r), ok). rate_key e r = k \<and> ok) (zip xs (admissions e xs s))) =
    min (length (filter (\<lambda>(now, r). rate_key e r = k) xs)) limit"
  using admissions_window[OF service_invD(9)[OF assms(1)], of k "t0 + minute" 0 xs e limit] assms(2-4)
  by (force simp: window_state_def)

theorem rate_limit_window_witness:
  "length (filter (\<lambda>((now, r), ok). rate_key demo_env r = ''host/auth'' \<and> ok)
    (zip (replicate 20 (0::time, demo_request ''POST'' ''/v1/auth/login'' [] (CHR ''a'')))
      (admissions demo_env (replicate 20 (0, demo_request ''POST'' ''/v1/auth/login'' [] (CHR ''a'')))
        demo_service))) = 15"
proof -
  let ?r = "demo_request ''POST'' ''/v1/auth/login'' [] (CHR ''a'')"
  have k: "rate_key demo_env ?r = ''host/auth''" "rate_limit ?r = int 15" by code_simp+
  have w: "\<forall>(now, r) \<in> set (replicate 20 (0, ?r)). 0 \<le> now \<and> now < 0 + minute \<and>
      (rate_key demo_env r = ''host/auth'' \<longrightarrow> rate_limit r = int 15)"
    using k by (auto simp: minute_def second_def)
  have "get (sv_rates demo_service) ''host/auth'' = None" by (simp add: demo_service_def)
  from rate_limit_window[OF demo_inv this order_refl w]
  moreover have "min (20::nat) 15 = 15" by simp
  ultimately show ?thesis using k(1) by (simp only: filter_replicate length_replicate prod.case refl if_True)
qed

section \<open>Routes\<close>

text \<open>Two patterns that some path matches both.\<close>

fun overlap :: "segment list \<Rightarrow> segment list \<Rightarrow> bool" where
  "overlap [] [] = True"
| "overlap (Lit l # ps) (Lit l' # qs) = (if l = l' then overlap ps qs else False)"
| "overlap (Lit l # ps) (Wild # qs) = overlap ps qs"
| "overlap (Wild # ps) (q # qs) = overlap ps qs"
| "overlap _ _ = False"

lemma match_overlap: "match_path ps xs \<noteq> None \<Longrightarrow> match_path qs xs \<noteq> None \<Longrightarrow> overlap ps qs"
proof (induction ps qs arbitrary: xs rule: overlap.induct)
  case (2 l ps l' qs)
  then show ?case by (cases xs) (auto split: if_splits)
next
  case (3 l ps qs)
  then show ?case by (cases xs) (auto split: if_splits)
next
  case (4 ps q qs)
  then show ?case by (cases xs; cases q) (auto split: if_splits)
qed (auto elim: match_path.elims)

lemma overlap_sym: "overlap ps qs = overlap qs ps"
proof (induction ps qs rule: overlap.induct)
  case (4 ps q qs)
  then show ?case by (cases q) simp_all
qed auto

definition apart :: "string \<times> segment list \<times> endpoint \<Rightarrow> string \<times> segment list \<times> endpoint \<Rightarrow> bool" where
  "apart x y \<longleftrightarrow> (fst x = fst y \<longrightarrow> \<not> overlap (fst (snd x)) (fst (snd y)))"

lemma apart_pairs: "apart (m, ps, ep) (m', ps', ep') \<longleftrightarrow> (m = m' \<longrightarrow> \<not> overlap ps ps')"
  by (simp add: apart_def)

lemma routes_apart: "sorted_wrt apart routes"
  unfolding routes_def sorted_wrt.simps list.set ball_simps apart_pairs by simp

lemma sorted_wrt_two: "sorted_wrt P xs \<Longrightarrow> x \<in> set xs \<Longrightarrow> y \<in> set xs \<Longrightarrow> x = y \<or> P x y \<or> P y x"
  by (induction xs) auto

lemma routes_overlap:
  assumes "(m, ps, ep) \<in> set routes" and "(m, ps', ep') \<in> set routes" and "overlap ps ps'"
  shows "ps = ps' \<and> ep = ep'"
  using sorted_wrt_two[OF routes_apart assms(1,2)] assms(3) by (auto simp: apart_def overlap_sym)

lemma routes_methods: "(m, ps, ep) \<in> set routes \<Longrightarrow> m \<noteq> ''HEAD''"
proof -
  have "list_all (\<lambda>x. fst x \<noteq> ''HEAD'') routes" by (simp add: routes_def)
  then have "\<And>x. x \<in> set routes \<Longrightarrow> fst x \<noteq> ''HEAD''" unfolding list_all_iff by blast
  from this[of "(m, ps, ep)"] show "(m, ps, ep) \<in> set routes \<Longrightarrow> m \<noteq> ''HEAD''"
    unfolding fst_conv .
qed

lemma find_route_Some:
  "find_route rs meth xs = Some (ep, vs) \<Longrightarrow>
     \<exists>m ps. (m, ps, ep) \<in> set rs \<and> method_matches m meth \<and> match_path ps xs = Some vs"
proof (induction rs)
  case (Cons x rs)
  obtain m ps e' where x: "x = (m, ps, e')" by (cases x)
  show ?case
  proof (cases "method_matches m meth \<and> match_path ps xs \<noteq> None")
    case True
    with Cons.prems x have "e' = ep" "match_path ps xs = Some vs" by auto
    with True x show ?thesis by (intro exI[of _ m] exI[of _ ps]) simp
  next
    case False
    with Cons.prems x have "find_route rs meth xs = Some (ep, vs)" by (auto split: if_splits)
    from Cons.IH[OF this] show ?thesis by (meson list.set_intros(2))
  qed
qed simp

lemma find_route_None:
  "find_route rs meth xs = None \<Longrightarrow> (m, ps, ep) \<in> set rs \<Longrightarrow> method_matches m meth \<Longrightarrow>
     match_path ps xs = None"
proof (induction rs)
  case (Cons x rs)
  then show ?case by (cases x) (auto split: if_splits option.splits)
qed simp

text \<open>The routes are unambiguous: a request that matches a registered pattern, with \<open>GET\<close> patterns
  also serving \<open>HEAD\<close>, reaches that pattern's handler with the values of its wildcards, whatever the
  order in which the patterns are tried; so trying them in the order of registration is the choice of
  the most specific pattern.\<close>

lemma routes_unambiguous:
  assumes "(m, ps, ep) \<in> set routes" and "method_matches m meth" and "match_path ps xs = Some vs"
    and "set rs = set routes"
  shows "find_route rs meth xs = Some (ep, vs)"
proof (cases "find_route rs meth xs")
  case None
  from find_route_None[OF None, of m ps ep] assms show ?thesis by simp
next
  case (Some y)
  obtain ep' vs' where y: "y = (ep', vs')" by force
  from find_route_Some[of rs meth xs ep' vs'] Some y assms(4) obtain m' ps' where
    r: "(m', ps', ep') \<in> set routes" "method_matches m' meth" "match_path ps' xs = Some vs'" by auto
  have ov: "overlap ps ps'" by (rule match_overlap[of _ xs]) (use assms(3) r(3) in simp_all)
  have "m = m'"
    using routes_methods[OF assms(1)] routes_methods[OF r(1)] assms(2) r(2)
    by (auto simp: method_matches_def)
  with routes_overlap[OF assms(1) _ ov] r(1) have "ps = ps' \<and> ep = ep'" by blast
  with r(3) assms(3) Some y show ?thesis by simp
qed

section \<open>Signalling\<close>




text \<open>C28: a device that reconnects is not taken offline by its old connection: after a new
  connection registered under the same identifier, the clean-up of the connection it replaced
  changes nothing, and only the clean-up of the new one unregisters the device.\<close>

theorem stale_close_harmless:
  assumes "service_inv s" and "get (sv_peers s) i = Some p"
    and "sig_connect r accepted s = (s1, Connected i p')"
  shows "sig_close i p s1 = s1 \<and> get (sv_peers s1) i = Some p' \<and> p \<in> set (sv_closing s1) \<and>
    get (sv_peers (sig_close i p' s1)) i = None"
proof -
  have "get (sv_conns s) p \<noteq> None"
    using service_invD(6)[OF assms(1)] assms(2) by (auto simp: conn_inv_def dest: all_mapD)
  then have "p < length (sv_conns s)"
    using service_invD(6)[OF assms(1)] by (auto simp: conn_inv_def dest: all_mapD)
  moreover from assms(3) have "p' = length (sv_conns s)" "get (sv_peers s1) i = Some p'"
    "sv_closing s1 = sv_closing s @ [p]"
    using assms(2) by (auto simp: sig_connect_def Let_def get_put split: if_splits)
  ultimately show ?thesis by (simp add: sig_close_def get_del)
qed

theorem stale_close_harmless_witness:
  "\<exists>s1 p'. sig_connect ((demo_request ''GET'' ''/v1/signalling'' [] (CHR ''b''))\<lparr>rq_DeviceQuery := ''dev-bob''\<rparr>)
      True demo_service = (s1, Connected ''dev-bob'' p') \<and> sig_close ''dev-bob'' 1 s1 = s1"
proof -
  let ?r = "(demo_request ''GET'' ''/v1/signalling'' [] (CHR ''b''))\<lparr>rq_DeviceQuery := ''dev-bob''\<rparr>"
  have h: "header_of ?r ''X-Device-ID'' = []" by (simp add: header_of_def demo_request_def)
  have n: "norm_id ''dev-bob'' = ''dev-bob''" by code_simp
  obtain s1 p' where c: "sig_connect ?r True demo_service = (s1, Connected ''dev-bob'' p')"
    by (simp add: sig_connect_def h n Let_def)
  have "get (sv_peers demo_service) ''dev-bob'' = Some 1" by (simp add: demo_service_def)
  from stale_close_harmless[OF demo_inv this c] c show ?thesis by blast
qed

section \<open>ICE\<close>

text \<open>C36: relay configuration is given exactly to the participants of an active session that has not
  expired, once endpoints are configured; the credentials are for the caller alone, name every
  configured endpoint, are attached to the TURN ones only, and expire with the session or in ten
  minutes, whichever is first. Asking changes nothing.\<close>

theorem ice_credentials:
  "iceConfiguration e now k user s = (s', rep) \<Longrightarrow> s' = s \<and>
    ((\<exists>entries until. rep = Reply 200 (JIce entries until)) \<longleftrightarrow>
      (\<exists>v. get (sv_sessions s) k = Some v \<and> visible s v user \<and> s_State v = ''active'' \<and>
        now < s_Expires v \<and> sv_iceURLs s \<noteq> [])) \<and>
    (\<forall>entries until. rep = Reply 200 (JIce entries until) \<longrightarrow>
      now < until \<and> until \<le> now + 10 * minute \<and>
      (\<exists>v. get (sv_sessions s) k = Some v \<and> until \<le> s_Expires v) \<and>
      map ice_url entries = sv_iceURLs s \<and>
      list_all (\<lambda>en. ice_login en =
        (if is_turn (ice_url en) then Some (TURNCredential e (sv_turnSecret s) user until) else None))
        entries)"
  by (auto simp: iceConfiguration_def fail_def Let_def comp_def list_all_iff minute_def second_def
      split: option.splits if_splits)

theorem ice_credentials_witness:
  "\<exists>entries until. snd (iceConfiguration demo_env 0 ''s-carol'' ''carol''
      (demo_service\<lparr>sv_iceURLs := [''stun:a.org'', ''turn:b.org'']\<rparr>)) = Reply 200 (JIce entries until) \<and>
    map ice_url entries = [''stun:a.org'', ''turn:b.org'']"
proof -
  let ?s = "demo_service\<lparr>sv_iceURLs := [''stun:a.org'', ''turn:b.org'']\<rparr>"
  let ?v = "demo_session ''s-carol'' ''carol'' ''dev-carol'' (CHR ''c'') ''active'' [''view'', ''mouse'']"
  obtain s' rep where i: "iceConfiguration demo_env 0 ''s-carol'' ''carol'' ?s = (s', rep)" by force
  have "get (sv_sessions ?s) ''s-carol'' = Some ?v" by (simp add: demo_service_def)
  moreover have "visible ?s ?v ''carol''" "s_State ?v = ''active''" "0 < s_Expires ?v"
    by (simp_all add: visible_def demo_session_def hour_def minute_def second_def)
  ultimately obtain entries until where r: "rep = Reply 200 (JIce entries until)"
    using ice_credentials[OF i] by force
  with ice_credentials[OF i] have "map ice_url entries = [''stun:a.org'', ''turn:b.org'']" by simp
  with r i show ?thesis by simp
qed

text \<open>The start-up check of the ICE endpoints.\<close>

lemma check_ice_None:
  "check_ice urls secret = None \<longleftrightarrow>
    (\<forall>u \<in> set urls. is_ice_url u \<and> \<not> ContainsAny u [CHR '' '', CHR 0x0A, CHR 0x0D, CHR ''@''] \<and>
       (is_turn u \<longrightarrow> 32 \<le> length secret \<and> \<not> ContainsStr secret ''REPLACE''))"
  by (induction urls) (auto simp: not_less)

text \<open>Configuration is all or nothing: the endpoints are accepted exactly when each is a STUN or
  TURN URL without blanks, line breaks or user part and, if there is a TURN endpoint, the secret has
  at least 32 bytes and is not a placeholder; a refused configuration leaves the previous one.\<close>

lemma ConfigureICE_all_or_nothing:
  "ConfigureICE urls secret s =
    (if \<forall>u \<in> set urls. is_ice_url u \<and> \<not> ContainsAny u [CHR '' '', CHR 0x0A, CHR 0x0D, CHR ''@''] \<and>
        (is_turn u \<longrightarrow> 32 \<le> length secret \<and> \<not> ContainsStr secret ''REPLACE'')
     then (s\<lparr>sv_iceURLs := urls, sv_turnSecret := secret\<rparr>, None)
     else (s, check_ice urls secret))"
  unfolding check_ice_None[symmetric] by (simp add: ConfigureICE_def split: option.split)

end
