(* ===== verification/Findings.thy ===== *)
theory Findings
  imports Http_Claims Session_Consent
begin

text \<open>
  What the model shows about the code where it does not do what its names, tests or documents say:
  one lemma for each such behaviour of the handlers. The stores and the start-up have theirs beside
  their operations (\<open>CreateOrganization_lost_answer\<close>, \<open>shutdown_not_awaited\<close>).
\<close>

section \<open>Second factors\<close>

text \<open>\<open>verify2FALogin\<close> hands tokens of any registered user to whoever sends six characters: neither
  a password nor a second factor is looked at.\<close>

lemma verify2FALogin_any_code:
  assumes "length (TrimSpace code) = 6" and "get (sv_accounts s) user \<noteq> None"
  shows "\<exists>t. snd (verify2FALogin e now (OneObject \<lparr>tl_UserID = user, tl_Code = code\<rparr>) s) =
    Reply 200 (JTokens t)"
  using assms by (auto simp: verify2FALogin_def decode_def Let_def reply_tokens_def issue_def
      randomID_def random_read_def record_audit_def split_def signAccess_def split: option.splits)

text \<open>A second factor is confirmed by any six characters, and disabled without the password.\<close>

lemma confirm2FA_any_code:
  assumes "length (TrimSpace code) = 6" and "sv_store s = None"
  shows "snd (confirm2FA so e now (OneObject code) user s) = Reply 200 (JFlag ''verified'')"
  using assms by (simp add: confirm2FA_def decode_def Let_def)

lemma disable2FA_any_password:
  "sv_store s = None \<Longrightarrow>
   snd (disable2FA so e now (OneObject password) user s) = Reply 200 (JFlag ''disabled'')"
  by (simp add: disable2FA_def decode_def store_try_def)

section \<open>No device is ever seen\<close>

text \<open>\<open>LastSeen\<close> is set by no handler, and \<open>live\<close> wants it within 45 seconds.\<close>

definition unseen :: "'st service \<Rightarrow> bool" where
  "unseen s \<longleftrightarrow> all_map (\<lambda>k d. d_LastSeen d = zero_time) (sv_devices s) \<and> sv_sessions s = []"

lemma unseen_not_live:
  assumes "unseen s" and "0 \<le> now"
  shows "\<not> live now s (get (sv_devices s) k)"
  using assms by (cases "get (sv_devices s) k")
    (auto simp: unseen_def live_def zero_time_def time_sub_def second_def dest: all_mapD)

lemma unseen_same:
  "unseen s \<Longrightarrow> sv_devices s' = sv_devices s \<Longrightarrow> sv_sessions s' = sv_sessions s \<Longrightarrow> unseen s'"
  by (simp add: unseen_def)

lemma unseen_quiet: "unseen s \<Longrightarrow> quiet s s' \<Longrightarrow> unseen s'"
  by (rule unseen_same) (auto simp: quiet_def)

lemma unseen_registers:
  assumes "unseen s"
  shows "unseen (fst (registerDevice e now r b user s))"
proof -
  obtain s' rep where d: "registerDevice e now r b user s = (s', rep)" by force
  have "all_map (\<lambda>k d. d_LastSeen d = zero_time) (sv_devices s')"
    using d assms by (cases rule: registerDevice_cases)
      (auto simp: unseen_def intro!: all_map_put all_map_adjust dest: all_mapD_set)
  moreover have "sv_sessions s' = []"
    using registerDevice_frame(1)[of e now r b user s] assms d by (simp add: unseen_def)
  ultimately show ?thesis by (simp add: d unseen_def)
qed

lemma unseen_revokes: "unseen s \<Longrightarrow> unseen (fst (revokeDevice e now k user s))"
  by (auto simp: unseen_def revokeDevice_def Let_def fail_def end_where_sessions
      intro!: all_map_adjust split: option.split)

lemma unseen_requests:
  assumes "unseen s" and "0 \<le> now"
  shows "requestSession e now r (OneObject q) user s =
      fail s 404 ''available source and target devices required''"
  using unseen_not_live[OF assms, of "sq_SourceID q"]
  by (auto simp: requestSession_def decode_def split: option.split)

lemma unseen_no_session:
  assumes "unseen s"
  shows "fst (decideSession e now r k b user s) = s" "fst (changePermissions e now r k b2 user s) = s"
    "fst (handover e now r k user s) = s" "fst (stopSession e now k user s) = s"
  using assms
  by (auto simp: unseen_def decideSession_def changePermissions_def handover_def stopSession_def
      targetSession_def decode_def fail_def split: json_body.split)


text \<open>So no reachable state has a session.\<close>

lemma unseen_request_state: "unseen s \<Longrightarrow> 0 \<le> now \<Longrightarrow> fst (requestSession e now r b user s) = s"
  using unseen_requests[of s now e r _ user]
  by (cases b) (auto simp: requestSession_def decode_def fail_def)

lemma invalidate_sessions:
  "sv_sessions s = [] \<Longrightarrow> sv_sessions (fst (invalidate e now user s)) = []"
  by (auto simp: invalidate_def Let_def end_where_sessions split: option.split)

lemma unseen_invalidate: "unseen s \<Longrightarrow> unseen (fst (invalidate e now user s))"
  by (simp add: unseen_def invalidate_sessions)

lemma unseen_logout: "unseen s \<Longrightarrow> unseen (fst (logout e now user s))"
  by (rule unseen_same[OF unseen_invalidate[of s e now user]])
    (simp_all add: logout_def split_def Let_def)

lemma unseen_rotate: "unseen s \<Longrightarrow> unseen (fst (rotate e now b s))"
proof -
  assume s: "unseen s"
  obtain s' rep where d: "rotate e now b s = (s', rep)" by force
  from d have "unseen s'"
  proof (cases rule: rotate_cases)
    case (Reuse token t s1 ok)
    from unseen_invalidate[of "s\<lparr>sv_refresh := _\<rparr>" e now "r_UserID t"] s
    have "unseen (fst (invalidate e now (r_UserID t) (s\<lparr>sv_refresh := ts\<rparr>)))" for ts
      by (simp add: unseen_def)
    from this Reuse(5) have "unseen s1" by (metis fst_conv)
    then show ?thesis by (simp add: Reuse(6) unseen_def)
  qed (use s in \<open>simp_all add: unseen_def\<close>)
  with d show ?thesis by simp
qed

lemma account_devices:
  "sv_devices (fst (register e now b1 s)) = sv_devices s"
  "sv_devices (fst (login e now b2 s)) = sv_devices s"
  "sv_devices (fst (verify2FALogin e now b3 s)) = sv_devices s"
  "sv_devices (fst (serve_signalling acc r s)) = sv_devices s"
  by (auto simp: register_def register_locked_def register_insert_def login_def login_locked_def login_finish_def verify2FALogin_def
      serve_signalling_def sig_connect_def decode_def fail_def busy_def authSlot_def Let_def
      split_def split: json_body.split option.split connect_result.split)

lemma unseen_public:
  assumes "unseen s" and "serve_public w now ep r s = Some out"
  shows "unseen (fst out)"
  using assms(2) unseen_rotate[OF assms(1)] assms(1)
    unseen_quiet[OF assms(1) requestPasswordReset_quiet]
    unseen_quiet[OF assms(1) confirmPasswordReset_quiet]
  by (cases ep) (auto simp: serve_public_def Let_def
      intro: unseen_same[OF assms(1) account_devices(1) account_sessions(1)]
        unseen_same[OF assms(1) account_devices(2) account_sessions(2)]
        unseen_same[OF assms(1) account_devices(3) account_sessions(3)]
        unseen_same[OF assms(1) account_devices(4) account_sessions(4)])

lemma unseen_user:
  assumes "unseen s" and "0 \<le> now"
  shows "unseen (fst (serve_user w now ep vs r u s))"
proof -
  note q = unseen_quiet[OF assms(1)]
  show ?thesis
    using assms
    by (cases ep)
      (simp_all add: serve_user_def Let_def read_only_quiet unseen_logout unseen_registers
        q[OF quiet_handlers(1)] q[OF quiet_handlers(2)] q[OF quiet_handlers(5)]
        q[OF quiet_handlers(6)] q[OF quiet_handlers(7)] q[OF quiet_handlers(8)]
        q[OF quiet_handlers(9)] q[OF quiet_handlers(10)] q[OF quiet_handlers(11)]
        q[OF quiet_handlers(12)] q[OF quiet_handlers(13)] q[OF quiet_handlers(14)]
        q[OF quiet_handlers(15)] q[OF quiet_handlers(16)] q[OF quiet_handlers(17)]
        q[OF quiet_handlers(18)] listOrganizations_def listWorkflows_def
        unseen_revokes unseen_request_state unseen_no_session)
qed

lemma unseen_dispatch: "unseen s \<Longrightarrow> 0 \<le> now \<Longrightarrow> unseen (fst (dispatch w now r s))"
  using unseen_public[of s w now _ r] unseen_user[of s now w _ _ r]
  by (auto simp: dispatch_def Let_def auth_def fail_def split: option.split sum.split)

lemma unseen_step: "service_step w s s' \<Longrightarrow> unseen s \<Longrightarrow> unseen s'"
proof (induction rule: service_step.induct)
  case (admission now s r)
  then show ?case by (auto simp: unseen_def admit_state expire_def Let_def end_where_sessions)
next
  case (dispatching now s r)
  then show ?case by (simp add: unseen_dispatch)
next
  case (taking_slot s s')
  then show ?case by (auto simp: authSlot_Some unseen_def)
next
  case (registering now s email q p)
  have "sv_devices (fst (register_insert (wd_env w) now email (rg_Name q) p s)) = sv_devices s"
    "sv_sessions (fst (register_insert (wd_env w) now email (rg_Name q) p s)) = sv_sessions s"
    by (simp_all add: register_insert_def Let_def split_def fail_def reply_tokens_def)
  with registering show ?case by (simp add: unseen_def)
next
  case (logging_in now s found q)
  have "sv_devices (fst (login_finish (wd_env w) now q found s)) = sv_devices s"
    "sv_sessions (fst (login_finish (wd_env w) now q found s)) = sv_sessions s"
    by (simp_all add: login_finish_def Let_def split_def fail_def reply_tokens_def split: option.split)
  with logging_in show ?case by (simp add: unseen_def)
next
  case (reordering s s')
  then show ?case
    by (auto simp: reordered_def unseen_def same_map_all) (simp add: same_map_def)
qed (simp_all add: unseen_def sig_other_fields)

text \<open>C40: no reachable state of the service has a session. \<open>requestSession\<close> asks for two live devices,
  \<open>live\<close> for a \<open>LastSeen\<close> within 45 seconds, and no request, frame or expiry ever sets \<open>LastSeen\<close>
  after the registration left it at the zero time, so every request for a session is refused.\<close>

theorem no_session_ever:
  assumes "reachable w s"
  shows "sv_sessions s = []"
proof -
  from assms have "unseen s"
  proof (induction rule: reachable.induct)
    case (start key st s urls secret)
    then show ?case
      by (auto simp: NewWithStore_def ConfigureICE_def unseen_def fail_def split: if_splits option.splits)
  qed (rule unseen_step)
  then show ?thesis by (simp add: unseen_def)
qed

theorem no_session_ever_witness:
  "sv_sessions (fst (admit demo_env 0 (demo_request ''GET'' ''/healthz'' [] (CHR ''a''))
    (fst (ConfigureICE [] [] (the (NewWithStore demo_key (Some NewMemoryStore))))))) = []"
  by (rule no_session_ever[OF demo_start])

section \<open>A device nobody registered\<close>

text \<open>Signalling lets any device identifier connect. While one is connected that belongs to no
  registered device, every logout panics: \<open>invalidate\<close> looks each peer's owner up unchecked.\<close>

lemma logout_panics:
  assumes "get (sv_accounts s) user = Some a" and "wf_map (sv_sessions s)"
    and "(i, p) \<in> set (sv_peers s)" and "get (sv_devices s) i = None"
  shows "snd (logout e now user s) = Panicked"
proof -
  have "\<not> peers_known s" using assms(3,4) unfolding peers_known_def by blast
  then show ?thesis
    using invalidate_effect(4)[OF assms(1,2), of e now]
    by (simp add: logout_def split_def Let_def)
qed

text \<open>And whoever names a device takes its connection over, without any proof.\<close>

lemma anyone_connects:
  assumes "header_of r ''X-Device-ID'' = ident" and "ident \<noteq> []"
  shows "\<exists>s' p. sig_connect r True s = (s', Connected (norm_id ident) p) \<and>
    get (sv_peers s') (norm_id ident) = Some p"
  using assms by (auto simp: sig_connect_def Let_def get_put)

section \<open>Members of somebody else's organisation\<close>

text \<open>Any authenticated user gives any member of any organisation any role, and removes any member.\<close>

lemma anyone_sets_any_role:
  assumes "sv_store s = Some m" and "get (ms_memberships m) (memberKey g member) = Some x"
  shows "\<exists>s' m'. updateMemberRole memory_ops e now g member (OneObject role) stranger s = (s', Reply 200 JOk) \<and>
    sv_store s' = Some m' \<and> get (ms_memberships m') (memberKey g member) = Some (x\<lparr>mb_Role := role\<rparr>)"
  using assms by (auto simp: updateMemberRole_def decode_def store_try_def store_call_def
      UpdateMemberRole_def get_adjust)

lemma anyone_removes_any_member:
  assumes "sv_store s = Some m" and "get (ms_memberships m) (memberKey g member) = Some x"
  shows "\<exists>s' m'. removeMember memory_ops e now g member stranger s = (s', Reply 200 JOk) \<and>
    sv_store s' = Some m' \<and> get (ms_memberships m') (memberKey g member) = None"
  using assms by (auto simp: removeMember_def store_try_def store_call_def RemoveMembership_def
      get_del Let_def)

section \<open>A password reset\<close>

text \<open>The reset writes the new password to the store alone; \<open>login\<close> reads the accounts in memory.\<close>

lemma reset_leaves_login:
  "sv_accounts (fst (confirmPasswordReset so e now b s)) = sv_accounts s"
  "sv_emails (fst (confirmPasswordReset so e now b s)) = sv_emails s"
  using confirmPasswordReset_quiet[of s so e now b] by (simp_all add: quiet_def)

section \<open>A decision after the deadline\<close>

text \<open>The deadline of a pending session is enforced by the expiry at the start of a request alone.
  A decision whose body arrives slowly is taken at a later time \<open>now\<close>, and no deadline is compared.\<close>

lemma late_decision:
  assumes "get (sv_sessions s) k = Some v" and "target_side e now r user v s"
    and "s_State v = ''pending''" and "s_Expires v \<le> now" and "grantable s v g"
  shows "get (sv_sessions (fst (decideSession e now r k
      (OneObject \<lparr>dr_Approve = True, dr_Permissions = g\<rparr>) user s))) k = Some (approved now g v)"
  using assms
  by (auto simp: decideSession_def decode_def targetSession_def target_side_def grantable_def
      approved_def get_adjust split_def Let_def same_core_frame[OF device_proof_core]
      update_session_sessions split: option.splits)

end
