(* ===== verification/Pg_Tables.thy ===== *)
theory Pg_Tables
  imports Store_Model
begin

text \<open>
  The database that \<open>internal/store/postgres.go\<close> works on: the tables that the files of
  \<open>server/migrations\<close> create (the columns that the statements name), their constraints, and what a
  statement, a round trip and a transaction do. The SQL statements are part of the source; an
  \<open>INSERT\<close> or \<open>UPDATE\<close> is refused as a whole when a row breaks a constraint, a key or a reference of
  the migrations. Outside the repository, and parameters, are: the outcome of each round trip (it
  may never reach the server, or be carried out with its answer lost), the order in which a scan
  meets the rows, the collation, \<open>lower\<close>, the texts the server accepts, and the JSON codec.
  Instants are stored in microseconds.
\<close>

section \<open>The server\<close>

datatype round_trip = Answered | NotSent | AnswerLost

datatype sql_error =
  UniqueViolation | ForeignKeyViolation | RowViolation | UndefinedTable | OutOfRange | DriverError

text \<open>\<open>RowViolation\<close> is a broken \<open>CHECK\<close> or \<open>NOT NULL\<close>. \<open>pe_nil\<close> tells whether an empty slice
  that a method is given is a nil one: the driver sends a nil slice as NULL. \<open>pe_scan\<close> lists, for a
  table of so many rows, the positions in the order of the scan.\<close>

record pg_env =
  pe_text_ok :: "string \<Rightarrow> bool"
  pe_lower :: "string \<Rightarrow> string"
  pe_collate :: "string \<Rightarrow> string"
  pe_jsonb :: "string \<Rightarrow> string option"
  pe_marshal :: "(string, string) gomap \<Rightarrow> string option"
  pe_unmarshal :: "string \<Rightarrow> (string, string) gomap"
  pe_nil :: bool
  pe_scan :: "nat \<Rightarrow> nat list"

definition pg_time :: "time \<Rightarrow> time" where
  "pg_time t = t div 1000 * 1000"

section \<open>Rows and tables\<close>

text \<open>Where the columns are the fields of the Go type, the row is the record of
  \<open>Store_Model\<close>.\<close>

record user_row =
  ur_id :: string
  ur_email :: string
  ur_display_name :: string
  ur_password_hash :: string
  ur_token_version :: int
  ur_email_verified_at :: "time option"
  ur_created_at :: time

record device_row =
  dr_id :: string
  dr_name :: string
  dr_owner_id :: string
  dr_public_key :: "8 word list"
  dr_os :: string
  dr_revoked_at :: "time option"
  dr_created_at :: time

record session_row =
  sr_id :: string
  sr_operator_id :: string
  sr_source_device_id :: string
  sr_target_device_id :: string
  sr_state :: string
  sr_requested_permissions :: "string list"
  sr_granted_permissions :: "string list"
  sr_epoch :: int
  sr_created_at :: time
  sr_expires_at :: time
  sr_ended_at :: "time option"
  sr_recording_consent :: bool
  sr_chat_enabled :: bool
  sr_notes_count :: int

record audit_row =
  au_id :: string
  au_actor_id :: string
  au_organization_id :: "string option"
  au_action :: string
  au_resource_id :: string
  au_metadata :: string
  au_occurred_at :: time

text \<open>The table \<open>email_verification_tokens\<close> of the statements is created by no migration (they
  create \<open>email_tokens\<close>): \<open>None\<close> is a database where it does not exist.\<close>

record pg_tables =
  tb_users :: "user_row list"
  tb_organizations :: "Organization list"
  tb_memberships :: "Membership list"
  tb_devices :: "device_row list"
  tb_refresh_tokens :: "RefreshToken list"
  tb_device_sessions :: "session_row list"
  tb_audit_events :: "audit_row list"
  tb_transfer_metadata :: "TransferRecord list"
  tb_workflows :: "Workflow list"
  tb_workflow_runs :: "WorkflowRun list"
  tb_second_factors :: "SecondFactor list"
  tb_org_invites :: "OrgInvite list"
  tb_email_verification_tokens :: "EmailToken list option"

definition migrated :: pg_tables where
  "migrated =
     \<lparr>tb_users = [], tb_organizations = [], tb_memberships = [], tb_devices = [],
      tb_refresh_tokens = [], tb_device_sessions = [], tb_audit_events = [],
      tb_transfer_metadata = [], tb_workflows = [], tb_workflow_runs = [],
      tb_second_factors = [], tb_org_invites = [], tb_email_verification_tokens = None\<rparr>"

section \<open>Constraints of the migrations\<close>

definition has_id :: "('r \<Rightarrow> string) \<Rightarrow> 'r list \<Rightarrow> string \<Rightarrow> bool" where
  "has_id key rows i \<longleftrightarrow> list_ex (\<lambda>r. key r = i) rows"

abbreviation user_exists :: "pg_tables \<Rightarrow> string \<Rightarrow> bool" where
  "user_exists t \<equiv> has_id ur_id (tb_users t)"

abbreviation org_exists :: "pg_tables \<Rightarrow> string \<Rightarrow> bool" where
  "org_exists t \<equiv> has_id og_ID (tb_organizations t)"

abbreviation device_exists :: "pg_tables \<Rightarrow> string \<Rightarrow> bool" where
  "device_exists t \<equiv> has_id dr_id (tb_devices t)"

abbreviation session_exists :: "pg_tables \<Rightarrow> string \<Rightarrow> bool" where
  "session_exists t \<equiv> has_id sr_id (tb_device_sessions t)"

definition session_states :: "string list" where
  "session_states =
     [''pending'', ''active'', ''rejected'', ''closed'', ''expired'', ''revoked'', ''disconnected'']"

definition row_controls :: "session_row \<Rightarrow> bool" where
  "row_controls r \<longleftrightarrow>
     sr_state r = ''active'' \<and>
     (''mouse'' \<in> set (sr_granted_permissions r) \<or> ''keyboard'' \<in> set (sr_granted_permissions r))"

definition user_check :: "pg_env \<Rightarrow> user_row \<Rightarrow> bool" where
  "user_check e r \<longleftrightarrow> ur_email r = pe_lower e (ur_email r)"

definition user_clash :: "user_row \<Rightarrow> user_row \<Rightarrow> bool" where
  "user_clash a b \<longleftrightarrow> ur_id a = ur_id b \<or> ur_email a = ur_email b"

definition member_check :: "Membership \<Rightarrow> bool" where
  "member_check r \<longleftrightarrow>
     mb_Role r \<in> {''owner'', ''administrator'', ''operator'', ''viewer'', ''guest''}"

definition member_clash :: "Membership \<Rightarrow> Membership \<Rightarrow> bool" where
  "member_clash a b \<longleftrightarrow>
     mb_OrganizationID a = mb_OrganizationID b \<and> mb_UserID a = mb_UserID b"

definition member_refs :: "pg_tables \<Rightarrow> Membership \<Rightarrow> bool" where
  "member_refs t r \<longleftrightarrow> org_exists t (mb_OrganizationID r) \<and> user_exists t (mb_UserID r)"

definition device_check :: "device_row \<Rightarrow> bool" where
  "device_check r \<longleftrightarrow> length (dr_public_key r) = 32"

definition device_clash :: "device_row \<Rightarrow> device_row \<Rightarrow> bool" where
  "device_clash a b \<longleftrightarrow> dr_id a = dr_id b \<or> dr_public_key a = dr_public_key b"

definition session_check :: "session_row \<Rightarrow> bool" where
  "session_check r \<longleftrightarrow>
     sr_state r \<in> set session_states \<and> sr_source_device_id r \<noteq> sr_target_device_id r \<and>
     set (sr_granted_permissions r) \<subseteq> set (sr_requested_permissions r)"

text \<open>The primary key and the partial unique index \<open>one_controller_per_device\<close>.\<close>

definition session_clash :: "session_row \<Rightarrow> session_row \<Rightarrow> bool" where
  "session_clash a b \<longleftrightarrow>
     sr_id a = sr_id b \<or>
     (row_controls a \<and> row_controls b \<and> sr_target_device_id a = sr_target_device_id b)"

definition session_refs :: "pg_tables \<Rightarrow> session_row \<Rightarrow> bool" where
  "session_refs t r \<longleftrightarrow>
     user_exists t (sr_operator_id r) \<and> device_exists t (sr_source_device_id r) \<and>
     device_exists t (sr_target_device_id r)"

definition audit_refs :: "pg_tables \<Rightarrow> audit_row \<Rightarrow> bool" where
  "audit_refs t r \<longleftrightarrow>
     user_exists t (au_actor_id r) \<and>
     (case au_organization_id r of None \<Rightarrow> True | Some g \<Rightarrow> org_exists t g)"

definition transfer_check :: "TransferRecord \<Rightarrow> bool" where
  "transfer_check r \<longleftrightarrow> 0 \<le> tr_SizeBytes r \<and> length (tr_SHA256 r) = 32"

definition workflow_refs :: "pg_tables \<Rightarrow> Workflow \<Rightarrow> bool" where
  "workflow_refs t r \<longleftrightarrow> org_exists t (wf_OrganizationID r) \<and> user_exists t (wf_CreatedBy r)"

definition run_refs :: "pg_tables \<Rightarrow> WorkflowRun \<Rightarrow> bool" where
  "run_refs t r \<longleftrightarrow>
     has_id wf_ID (tb_workflows t) (wr_WorkflowID r) \<and> session_exists t (wr_SessionID r) \<and>
     (case wr_ApprovedBy r of None \<Rightarrow> True | Some u \<Rightarrow> user_exists t u)"

definition invite_check :: "OrgInvite \<Rightarrow> bool" where
  "invite_check r \<longleftrightarrow> iv_Role r \<in> {''administrator'', ''operator'', ''viewer'', ''guest''}"

definition invite_clash :: "OrgInvite \<Rightarrow> OrgInvite \<Rightarrow> bool" where
  "invite_clash a b \<longleftrightarrow> iv_ID a = iv_ID b \<or> iv_TokenHash a = iv_TokenHash b"

section \<open>Tables\<close>

text \<open>What a statement needs to know of a table: where its rows are, and its constraints.\<close>

record 'r table =
  t_exists :: "pg_tables \<Rightarrow> bool"
  t_rows :: "pg_tables \<Rightarrow> 'r list"
  t_store :: "'r list \<Rightarrow> pg_tables \<Rightarrow> pg_tables"
  t_check :: "'r \<Rightarrow> bool"
  t_clash :: "'r \<Rightarrow> 'r \<Rightarrow> bool"
  t_refs :: "pg_tables \<Rightarrow> 'r \<Rightarrow> bool"

definition users :: "pg_env \<Rightarrow> user_row table" where
  "users e = \<lparr>t_exists = (\<lambda>t. True), t_rows = tb_users, t_store = (\<lambda>rs t. t\<lparr>tb_users := rs\<rparr>),
     t_check = user_check e, t_clash = user_clash, t_refs = (\<lambda>t r. True)\<rparr>"

definition organizations :: "Organization table" where
  "organizations = \<lparr>t_exists = (\<lambda>t. True), t_rows = tb_organizations,
     t_store = (\<lambda>rs t. t\<lparr>tb_organizations := rs\<rparr>), t_check = (\<lambda>r. True),
     t_clash = (\<lambda>a b. og_ID a = og_ID b), t_refs = (\<lambda>t r. user_exists t (og_OwnerID r))\<rparr>"

definition memberships :: "Membership table" where
  "memberships = \<lparr>t_exists = (\<lambda>t. True), t_rows = tb_memberships,
     t_store = (\<lambda>rs t. t\<lparr>tb_memberships := rs\<rparr>), t_check = member_check,
     t_clash = member_clash, t_refs = member_refs\<rparr>"

definition devices :: "device_row table" where
  "devices = \<lparr>t_exists = (\<lambda>t. True), t_rows = tb_devices,
     t_store = (\<lambda>rs t. t\<lparr>tb_devices := rs\<rparr>), t_check = device_check,
     t_clash = device_clash, t_refs = (\<lambda>t r. user_exists t (dr_owner_id r))\<rparr>"

definition refresh_tokens :: "RefreshToken table" where
  "refresh_tokens = \<lparr>t_exists = (\<lambda>t. True), t_rows = tb_refresh_tokens,
     t_store = (\<lambda>rs t. t\<lparr>tb_refresh_tokens := rs\<rparr>), t_check = (\<lambda>r. True),
     t_clash = (\<lambda>a b. rt_Hash a = rt_Hash b), t_refs = (\<lambda>t r. user_exists t (rt_UserID r))\<rparr>"

definition device_sessions :: "session_row table" where
  "device_sessions = \<lparr>t_exists = (\<lambda>t. True), t_rows = tb_device_sessions,
     t_store = (\<lambda>rs t. t\<lparr>tb_device_sessions := rs\<rparr>), t_check = session_check,
     t_clash = session_clash, t_refs = session_refs\<rparr>"

definition audit_events :: "audit_row table" where
  "audit_events = \<lparr>t_exists = (\<lambda>t. True), t_rows = tb_audit_events,
     t_store = (\<lambda>rs t. t\<lparr>tb_audit_events := rs\<rparr>), t_check = (\<lambda>r. True),
     t_clash = (\<lambda>a b. au_id a = au_id b), t_refs = audit_refs\<rparr>"

definition transfer_metadata :: "TransferRecord table" where
  "transfer_metadata = \<lparr>t_exists = (\<lambda>t. True), t_rows = tb_transfer_metadata,
     t_store = (\<lambda>rs t. t\<lparr>tb_transfer_metadata := rs\<rparr>), t_check = transfer_check,
     t_clash = (\<lambda>a b. tr_ID a = tr_ID b), t_refs = (\<lambda>t r. session_exists t (tr_SessionID r))\<rparr>"

definition workflows :: "Workflow table" where
  "workflows = \<lparr>t_exists = (\<lambda>t. True), t_rows = tb_workflows,
     t_store = (\<lambda>rs t. t\<lparr>tb_workflows := rs\<rparr>), t_check = (\<lambda>r. True),
     t_clash = (\<lambda>a b. wf_ID a = wf_ID b), t_refs = workflow_refs\<rparr>"

definition workflow_runs :: "WorkflowRun table" where
  "workflow_runs = \<lparr>t_exists = (\<lambda>t. True), t_rows = tb_workflow_runs,
     t_store = (\<lambda>rs t. t\<lparr>tb_workflow_runs := rs\<rparr>), t_check = (\<lambda>r. True),
     t_clash = (\<lambda>a b. wr_ID a = wr_ID b), t_refs = run_refs\<rparr>"

definition second_factors :: "SecondFactor table" where
  "second_factors = \<lparr>t_exists = (\<lambda>t. True), t_rows = tb_second_factors,
     t_store = (\<lambda>rs t. t\<lparr>tb_second_factors := rs\<rparr>), t_check = (\<lambda>r. True),
     t_clash = (\<lambda>a b. sf_ID a = sf_ID b), t_refs = (\<lambda>t r. user_exists t (sf_UserID r))\<rparr>"

definition org_invites :: "OrgInvite table" where
  "org_invites = \<lparr>t_exists = (\<lambda>t. True), t_rows = tb_org_invites,
     t_store = (\<lambda>rs t. t\<lparr>tb_org_invites := rs\<rparr>), t_check = invite_check,
     t_clash = invite_clash, t_refs = (\<lambda>t r. org_exists t (iv_OrgID r))\<rparr>"

text \<open>A database that has the table was given it by hand: nothing is known of its constraints but
  the key that \<open>ON CONFLICT (token_hash)\<close> needs.\<close>

definition email_verification_tokens :: "EmailToken table" where
  "email_verification_tokens = \<lparr>t_exists = (\<lambda>t. tb_email_verification_tokens t \<noteq> None),
     t_rows = (\<lambda>t. case tb_email_verification_tokens t of None \<Rightarrow> [] | Some rs \<Rightarrow> rs),
     t_store = (\<lambda>rs t. t\<lparr>tb_email_verification_tokens := Some rs\<rparr>), t_check = (\<lambda>r. True),
     t_clash = (\<lambda>a b. et_TokenHash a = et_TokenHash b), t_refs = (\<lambda>t r. True)\<rparr>"

lemmas table_defs =
  users_def organizations_def memberships_def devices_def refresh_tokens_def device_sessions_def
  audit_events_def transfer_metadata_def workflows_def workflow_runs_def second_factors_def
  org_invites_def email_verification_tokens_def

section \<open>Statements\<close>

text \<open>A statement gives the rows affected and the next tables, or its error. A row is checked first
  against its own constraints, then against the keys, then against the references; of an \<open>UPDATE\<close>
  only the columns it sets can break one, and no method sets a column that refers to another table
  but \<open>approved_by\<close>. With \<open>ON CONFLICT\<close> a row whose key is taken is skipped, or changes the row that
  has the key.\<close>

type_synonym sql = "pg_tables \<Rightarrow> sql_error + nat \<times> pg_tables"

definition insert_into :: "'r table \<Rightarrow> 'r \<Rightarrow> sql" where
  "insert_into T r t =
     (if \<not> t_exists T t then Inl UndefinedTable
      else if \<not> t_check T r then Inl RowViolation
      else if list_ex (\<lambda>x. t_clash T x r) (t_rows T t) then Inl UniqueViolation
      else if \<not> t_refs T t r then Inl ForeignKeyViolation
      else Inr (1, t_store T (t_rows T t @ [r]) t))"

definition insert_or_nothing :: "'r table \<Rightarrow> 'r \<Rightarrow> sql" where
  "insert_or_nothing T r t =
     (if t_exists T t \<and> t_check T r \<and> list_ex (\<lambda>x. t_clash T x r) (t_rows T t) then Inr (0, t)
      else insert_into T r t)"

definition update_where :: "'r table \<Rightarrow> ('r \<Rightarrow> bool) \<Rightarrow> ('r \<Rightarrow> 'r) \<Rightarrow> sql" where
  "update_where T P f t =
     (let rows = map (\<lambda>r. if P r then f r else r) (t_rows T t) in
      if \<not> t_exists T t then Inl UndefinedTable
      else if \<not> list_all (\<lambda>r. P r \<longrightarrow> t_check T (f r)) (t_rows T t) then Inl RowViolation
      else if \<not> sorted_wrt (\<lambda>a b. \<not> t_clash T a b) rows then Inl UniqueViolation
      else if \<not> list_all (\<lambda>r. P r \<longrightarrow> t_refs T t (f r)) (t_rows T t) then Inl ForeignKeyViolation
      else Inr (length (filter P (t_rows T t)), t_store T rows t))"

definition insert_or_update :: "'r table \<Rightarrow> 'r \<Rightarrow> ('r \<Rightarrow> 'r) \<Rightarrow> sql" where
  "insert_or_update T r f t =
     (if t_exists T t \<and> t_check T r \<and> list_ex (\<lambda>x. t_clash T x r) (t_rows T t)
      then update_where T (\<lambda>x. t_clash T x r) f t
      else insert_into T r t)"

definition delete_where :: "'r table \<Rightarrow> ('r \<Rightarrow> bool) \<Rightarrow> sql" where
  "delete_where T P t =
     (if \<not> t_exists T t then Inl UndefinedTable
      else Inr (length (filter P (t_rows T t)), t_store T (filter (\<lambda>r. \<not> P r) (t_rows T t)) t))"

definition scan :: "pg_env \<Rightarrow> 'r list \<Rightarrow> 'r list" where
  "scan e rows =
     map (\<lambda>i. rows ! i) (filter (\<lambda>i. i < length rows) (pe_scan e (length rows)))"

definition select_where ::
  "pg_env \<Rightarrow> 'r table \<Rightarrow> ('r \<Rightarrow> bool) \<Rightarrow> pg_tables \<Rightarrow> sql_error + 'r list" where
  "select_where e T P t =
     (if \<not> t_exists T t then Inl UndefinedTable else Inr (filter P (scan e (t_rows T t))))"

section \<open>Round trips\<close>

text \<open>\<open>Exec\<close> and \<open>Query\<close> of the pool. \<open>encodable\<close> says that the driver and the server accept the
  parameters; texts are accepted by \<open>pe_text_ok\<close>, a \<open>uint64\<close> by a \<open>bigint\<close> column below its bound.\<close>

definition texts :: "pg_env \<Rightarrow> string list \<Rightarrow> bool" where
  "texts e xs \<longleftrightarrow> list_all (pe_text_ok e) xs"

definition bigint :: "64 word \<Rightarrow> bool" where
  "bigint w \<longleftrightarrow> uint w < 2 ^ 63"

definition slice_ok :: "pg_env \<Rightarrow> 'a list \<Rightarrow> bool" where
  "slice_ok e xs \<longleftrightarrow> xs \<noteq> [] \<or> \<not> pe_nil e"

definition pool_exec ::
  "round_trip \<Rightarrow> bool \<Rightarrow> sql \<Rightarrow> pg_tables \<Rightarrow> pg_tables \<times> (sql_error + nat)" where
  "pool_exec net encodable stmt t =
     (if net = NotSent \<or> \<not> encodable then (t, Inl DriverError)
      else case stmt t of
        Inl err \<Rightarrow> (t, if net = AnswerLost then Inl DriverError else Inl err)
      | Inr (n, t') \<Rightarrow> (t', if net = AnswerLost then Inl DriverError else Inr n))"

definition pool_query :: "round_trip \<Rightarrow> bool \<Rightarrow> sql_error + 'r list \<Rightarrow> sql_error + 'r list" where
  "pool_query net encodable res = (if net \<noteq> Answered \<or> \<not> encodable then Inl DriverError else res)"

text \<open>Inside a transaction the tables are a working copy; after an error it is gone (\<open>None\<close>) and
  every later statement fails.\<close>

definition tx_exec ::
  "round_trip \<Rightarrow> bool \<Rightarrow> sql \<Rightarrow> pg_tables option \<Rightarrow> pg_tables option \<times> (sql_error + nat)" where
  "tx_exec net encodable stmt w =
     (case w of
        None \<Rightarrow> (None, Inl DriverError)
      | Some t \<Rightarrow>
          if net \<noteq> Answered \<or> \<not> encodable then (None, Inl DriverError)
          else case stmt t of Inl err \<Rightarrow> (None, Inl err) | Inr (n, t') \<Rightarrow> (Some t', Inr n))"

text \<open>The outcomes of the round trips of one attempt of a transaction.\<close>

record tx_net =
  tx_begun :: bool
  tx_stmt :: "nat \<Rightarrow> round_trip"
  tx_commit :: round_trip

end
