(* ===== verification/Pg_Codec.thy ===== *)
theory Pg_Codec
  imports Go_Codec
begin

text \<open>
  The base-64 routines that \<open>internal/store/postgres.go\<close> writes by hand for the
  \<open>devices.public_key\<close> column: \<open>pgxDecodeB64\<close> with its lookup table, 32-bit
  accumulator and bit counter, the wrappers around it, \<open>publicKeyBytes\<close> and the encoder
  \<open>pkBytesToB64\<close>. A byte slice is a list of 8-bit words.
\<close>

unbundle bit_operations_syntax

datatype pg_error = InvalidBase64Character | OutputBufferTooSmall | InvalidPublicKey

definition pg_alphabet :: string where
  "pg_alphabet = ''ABCDEFGHIJKLMNOPQRSTUVWXYZabcdefghijklmnopqrstuvwxyz0123456789+/''"

definition pg_lut :: "char \<Rightarrow> 8 word" where
  "pg_lut c =
     (if c = CHR ''='' then 0
      else case map_of (zip pg_alphabet [0..<64]) c of
             Some i \<Rightarrow> of_nat i
           | None \<Rightarrow> 0xFF)"

text \<open>The loop of \<open>pgxDecodeB64\<close>: \<open>out\<close> holds the bytes written so far to the buffer of
  \<open>cap\<close> bytes.\<close>

fun pgx_loop ::
  "nat \<Rightarrow> string \<Rightarrow> 8 word list \<Rightarrow> 32 word \<Rightarrow> nat \<Rightarrow> pg_error + 8 word list" where
  "pgx_loop cap [] out acc bits = Inr out"
| "pgx_loop cap (c # cs) out acc bits =
     (if c = CHR ''='' then Inr out
      else let v = pg_lut c in
        if v = 0xFF then Inl InvalidBase64Character
        else let acc1 = push_bit 6 acc OR ucast v; bits1 = bits + 6 in
          if bits1 \<ge> 8 then
            let bits2 = bits1 - 8 in
            if length out \<ge> cap then Inl OutputBufferTooSmall
            else pgx_loop cap cs (out @ [ucast (drop_bit bits2 acc1)]) acc1 bits2
          else pgx_loop cap cs out acc1 bits1)"

definition pgxDecodeB64 :: "nat \<Rightarrow> string \<Rightarrow> pg_error + 8 word list" where
  "pgxDecodeB64 cap src = pgx_loop cap src [] 0 0"

definition decodeStdB64 :: "nat \<Rightarrow> string \<Rightarrow> pg_error + 8 word list" where
  "decodeStdB64 cap s = pgxDecodeB64 cap s"

definition encodeBase64Std :: "nat \<Rightarrow> string \<Rightarrow> pg_error + 8 word list" where
  "encodeBase64Std cap s = decodeStdB64 cap s"

definition publicKeyBytes :: "string \<Rightarrow> pg_error + 8 word list" where
  "publicKeyBytes b64 =
     (case encodeBase64Std 32 (TrimSpace b64) of
        Inl e \<Rightarrow> Inl InvalidPublicKey
      | Inr buf \<Rightarrow> if length buf \<noteq> 32 then Inl InvalidPublicKey else Inr buf)"

text \<open>One turn of the encoder's loop: \<open>rem\<close> bytes are left, the missing ones are zero.\<close>

definition pk_quad :: "nat \<Rightarrow> 8 word \<Rightarrow> 8 word \<Rightarrow> 8 word \<Rightarrow> string" where
  "pk_quad rem b0 b1 b2 =
     [pg_alphabet ! unat (drop_bit 2 b0),
      pg_alphabet ! unat (push_bit 4 (b0 AND 0x3) OR drop_bit 4 b1),
      (if rem > 1 then pg_alphabet ! unat (push_bit 2 (b1 AND 0xF) OR drop_bit 6 b2)
       else CHR ''=''),
      (if rem > 2 then pg_alphabet ! unat (b2 AND 0x3F) else CHR ''='')]"

fun pkBytesToB64 :: "8 word list \<Rightarrow> string" where
  "pkBytesToB64 [] = []"
| "pkBytesToB64 [b0] = pk_quad 1 b0 0 0"
| "pkBytesToB64 [b0, b1] = pk_quad 2 b0 b1 0"
| "pkBytesToB64 (b0 # b1 # b2 # b) = pk_quad (3 + length b) b0 b1 b2 @ pkBytesToB64 b"

section \<open>The lookup table\<close>

lemma pg_alphabet_std: "pg_alphabet = alphabet_std"
  by (simp add: pg_alphabet_def alphabet_std_def)

lemma pg_alphabet_ok: "alphabet_ok pg_alphabet"
  by (simp add: pg_alphabet_std alphabet_std_ok)

lemma pg_lut_nth:
  assumes "n < 64"
  shows "pg_lut (pg_alphabet ! n) = of_nat n"
proof -
  have "map_of (zip pg_alphabet [0..<64]) (pg_alphabet ! n) = Some n"
    using b64_value_nth[OF pg_alphabet_ok assms] pg_alphabet_ok
    by (simp add: b64_value_def alphabet_ok_def)
  then show ?thesis
    using alphabet_nth_not_pad[OF pg_alphabet_ok assms] by (simp add: pg_lut_def)
qed

lemma pg_lut_word:
  assumes "unat (w :: 8 word) < 64"
  shows "pg_lut (pg_alphabet ! unat w) = w"
  using pg_lut_nth[OF assms] by simp

section \<open>The sextets of three bytes\<close>

lemma word8_eqI:
  fixes u v :: "8 word"
  assumes "\<forall>n \<in> {0, 1, 2, 3, 4, 5, 6, 7}. bit u n = bit v n"
  shows "u = v"
proof (rule bit_word_eqI)
  fix n assume "n < LENGTH(8)"
  then have "n \<in> {0, 1, 2, 3, 4, 5, 6, 7}" by auto
  with assms show "bit u n = bit v n" by blast
qed

lemma word8_no_bit: "8 \<le> n \<Longrightarrow> \<not> bit (w :: 8 word) n"
  using bit_imp_le_length[of w n] by auto

lemma sextet_lt:
  assumes "(w :: 8 word) = w AND 0x3F"
  shows "unat w < 64"
proof -
  have "take_bit 6 w = w AND 0x3F"
    by (simp add: take_bit_eq_mask mask_eq_exp_minus_1)
  with assms have "unat w = take_bit 6 (unat w)"
    by (metis unsigned_take_bit_eq)
  also have "\<dots> < 2 ^ 6"
    by (rule take_bit_nat_less_exp)
  finally show ?thesis by simp
qed

lemmas word8_bits = word8_eqI bit_simps word8_no_bit

lemma sextets_lt:
  fixes x y z :: "8 word"
  shows "unat (drop_bit 2 x) < 64"
    "unat (push_bit 4 (x AND 0x3) OR drop_bit 4 y) < 64"
    "unat (push_bit 2 (y AND 0xF) OR drop_bit 6 z) < 64"
    "unat (z AND 0x3F) < 64"
  by (rule sextet_lt, rule word8_eqI, simp add: bit_simps word8_no_bit)+

text \<open>What the decoder shifts out of its accumulator, whatever the older bits \<open>acc\<close> are.\<close>

definition shift_in :: "32 word \<Rightarrow> 8 word \<Rightarrow> 32 word" where
  "shift_in acc v = push_bit 6 acc OR ucast v"

lemma shift_out:
  fixes x y z :: "8 word" and acc :: "32 word"
  defines "s0 \<equiv> drop_bit 2 x" and "s1 \<equiv> push_bit 4 (x AND 0x3) OR drop_bit 4 y"
    and "s2 \<equiv> push_bit 2 (y AND 0xF) OR drop_bit 6 z" and "s3 \<equiv> z AND 0x3F"
  shows "ucast (drop_bit 4 (shift_in (shift_in acc s0) s1)) = x"
    "ucast (drop_bit 2 (shift_in (shift_in (shift_in acc s0) s1) s2)) = y"
    "ucast (drop_bit 0 (shift_in (shift_in (shift_in (shift_in acc s0) s1) s2) s3)) = z"
  unfolding s0_def s1_def s2_def s3_def shift_in_def
  by (rule word8_eqI, simp add: bit_simps word8_no_bit,
      (simp add: numeral_2_eq_2 numeral_3_eq_3)?)+

section \<open>Decoding undoes encoding\<close>

lemma pgx_loop_digit:
  assumes "unat s < 64"
  shows "pgx_loop cap (pg_alphabet ! unat s # cs) out acc bits =
    (if bits \<ge> 2 then
       if length out \<ge> cap then Inl OutputBufferTooSmall
       else pgx_loop cap cs (out @ [ucast (drop_bit (bits - 2) (shift_in acc s))])
              (shift_in acc s) (bits - 2)
     else pgx_loop cap cs out (shift_in acc s) (bits + 6))"
proof -
  have "s \<noteq> 0xFF" using assms by auto
  moreover have "pg_alphabet ! unat s \<noteq> CHR ''=''"
    using alphabet_nth_not_pad[OF pg_alphabet_ok assms] .
  ultimately show ?thesis
    using assms by (simp add: pg_lut_word Let_def shift_in_def)
qed

lemma pgx_loop_pad [simp]: "pgx_loop cap (CHR ''='' # cs) out acc bits = Inr out"
  by simp

lemma pgx_loop_encode:
  "length out + length bs \<le> cap \<Longrightarrow> pgx_loop cap (pkBytesToB64 bs) out acc 0 = Inr (out @ bs)"
proof (induction bs arbitrary: out acc rule: pkBytesToB64.induct)
  case 1
  then show ?case by simp
next
  case (2 b0)
  then show ?case
    using shift_out(1)[where y = 0 and x = b0 and acc = acc]
      sextets_lt(1)[of b0] sextets_lt(2)[of b0 0]
    by (simp add: pk_quad_def pgx_loop_digit del: pgx_loop.simps(2))
next
  case (3 b0 b1)
  then show ?case
    using shift_out(1)[where x = b0 and y = b1 and acc = acc]
      shift_out(2)[where x = b0 and y = b1 and z = 0 and acc = acc]
      sextets_lt(1)[of b0] sextets_lt(2)[of b0 b1] sextets_lt(3)[of b1 0]
    by (simp add: pk_quad_def pgx_loop_digit del: pgx_loop.simps(2))
next
  case (4 b0 b1 b2 b)
  then show ?case
    using shift_out(1)[where x = b0 and y = b1 and acc = acc]
      shift_out(2)[where x = b0 and y = b1 and z = b2 and acc = acc]
      shift_out(3)[where x = b0 and y = b1 and z = b2 and acc = acc]
      sextets_lt(1)[of b0] sextets_lt(2)[of b0 b1] sextets_lt(3)[of b1 b2] sextets_lt(4)[of b2]
    by (simp add: pk_quad_def pgx_loop_digit del: pgx_loop.simps(2))
qed

section \<open>Agreement with the standard library's encoder\<close>

definition byte_chars :: "8 word list \<Rightarrow> string" where
  "byte_chars bs = map (\<lambda>b. char_of (unat b)) bs"

lemma unat_byte_lt: "unat (b :: 8 word) < 256"
  using unsigned_less[of b, where 'a = nat] by simp

lemma unat_byte_mod [simp]: "unat (b :: 8 word) mod 256 = unat b"
  using unat_byte_lt[of b] by simp

lemma or_plus:
  fixes u v :: "8 word"
  assumes "u AND v = 0"
  shows "unat (u OR v) = unat u + unat v"
proof -
  have "unat u AND unat v = unat (u AND v)"
    by (simp add: unsigned_and_eq)
  with assms have "unat u + unat v = unat u OR unat v"
    by (intro disjunctive_add_eq_or) simp
  then show ?thesis by (simp add: unsigned_or_eq)
qed

lemma nat_low_bits:
  fixes n :: nat
  shows "n AND 3 = n mod 4" "n AND 15 = n mod 16" "n AND 63 = n mod 64"
  using take_bit_eq_mask[of 2 n] take_bit_eq_mask[of 4 n] take_bit_eq_mask[of 6 n]
  by (simp_all add: take_bit_eq_mod mask_eq_exp_minus_1)

lemma unat_low_bits:
  fixes b :: "8 word"
  shows "unat (b AND 0x3) = unat b mod 4" "unat (b AND 0xF) = unat b mod 16"
    "unat (b AND 0x3F) = unat b mod 64"
  by (simp_all add: unsigned_and_eq nat_low_bits)

lemma unat_shifted:
  fixes b :: "8 word"
  shows "unat (push_bit 4 (b AND 0x3)) = unat b mod 4 * 16"
    "unat (push_bit 2 (b AND 0xF)) = unat b mod 16 * 4"
  unfolding unsigned_push_bit_eq unat_low_bits
  by (simp_all add: push_bit_eq_mult take_bit_eq_mod)

lemma unat_drops:
  fixes b :: "8 word"
  shows "unat (drop_bit 2 b) = unat b div 4" "unat (drop_bit 4 b) = unat b div 16"
    "unat (drop_bit 6 b) = unat b div 64"
  unfolding unat_drop_bit_eq by (simp_all add: drop_bit_eq_div)

lemma unat_sextets:
  fixes b0 b1 :: "8 word"
  shows "unat (push_bit 4 (b0 AND 0x3) OR drop_bit 4 b1) = unat b0 mod 4 * 16 + unat b1 div 16"
    "unat (push_bit 2 (b0 AND 0xF) OR drop_bit 6 b1) = unat b0 mod 16 * 4 + unat b1 div 64"
proof -
  have "push_bit 4 (b0 AND 0x3) AND drop_bit 4 b1 = 0"
    by (rule word8_eqI) (simp add: bit_simps word8_no_bit)
  then show "unat (push_bit 4 (b0 AND 0x3) OR drop_bit 4 b1) = unat b0 mod 4 * 16 + unat b1 div 16"
    by (simp only: or_plus unat_shifted unat_drops)
  have "push_bit 2 (b0 AND 0xF) AND drop_bit 6 b1 = 0"
    by (rule word8_eqI) (simp add: bit_simps word8_no_bit)
  then show "unat (push_bit 2 (b0 AND 0xF) OR drop_bit 6 b1) = unat b0 mod 16 * 4 + unat b1 div 64"
    by (simp only: or_plus unat_shifted unat_drops)
qed

lemmas pk_unat = pkBytesToB64.simps pk_quad_def unat_sextets unat_drops unat_low_bits
lemmas std_chars = StdEncode_def byte_chars_def pg_alphabet_std

lemma pkBytesToB64_StdEncode: "pkBytesToB64 bs = StdEncode (byte_chars bs)"
proof (induction bs rule: pkBytesToB64.induct)
  case (2 b0)
  then show ?case
    by (simp only: pk_unat) (simp add: std_chars Let_def)
next
  case (3 b0 b1)
  then show ?case
    by (simp only: pk_unat) (simp add: std_chars Let_def)
next
  case (4 b0 b1 b2 b)
  then show ?case
    by (simp only: pk_unat) (simp add: std_chars Let_def)
qed (simp add: std_chars)

lemma pkBytesToB64_trim: "TrimSpace (pkBytesToB64 bs) = pkBytesToB64 bs"
proof (rule TrimSpace_id)
  have "set (pkBytesToB64 bs) \<subseteq> set alphabet_std \<union> {CHR ''=''}"
    using b64_encode_set[OF alphabet_std_ok, of True "byte_chars bs"]
    by (simp add: pkBytesToB64_StdEncode StdEncode_def)
  moreover have "(set alphabet_std \<union> {CHR ''=''}) \<inter> set (concat space_runes) = {}"
    by (simp add: alphabet_std_def space_runes_def)
  ultimately show "set (pkBytesToB64 bs) \<inter> set (concat space_runes) = {}"
    by blast
qed

section \<open>Agreement with the standard library's decoder\<close>

lemma small_word_bits:
  fixes u :: "8 word"
  assumes "unat u < 64"
  shows "\<not> bit u 6" "\<not> bit u 7"
proof -
  from assms have "take_bit 6 (unat u) = unat u"
    by (simp add: take_bit_nat_eq_self_iff)
  then have *: "take_bit 6 u = u"
    by (metis unsigned_take_bit_eq unsigned_word_eqI)
  show "\<not> bit u 6" by (subst *[symmetric]) (simp add: bit_take_bit_iff)
  show "\<not> bit u 7" by (subst *[symmetric]) (simp add: bit_take_bit_iff)
qed

lemma shift_out_sextets:
  fixes u v :: "8 word"
  assumes "unat u < 64" and "unat v < 64"
  shows "ucast (drop_bit 4 (shift_in (shift_in acc u) v)) = push_bit 2 u OR drop_bit 4 v"
    and "ucast (drop_bit 2 (shift_in (shift_in acc u) v)) = push_bit 4 u OR drop_bit 2 v"
    and "ucast (shift_in (shift_in acc u) v) = push_bit 6 u OR v"
  using small_word_bits[OF assms(1)] small_word_bits[OF assms(2)] unfolding shift_in_def
  by (intro word8_eqI, simp add: bit_simps word8_no_bit,
      (simp add: numeral_2_eq_2 numeral_3_eq_3)?)+

definition char_bytes :: "string \<Rightarrow> 8 word list" where
  "char_bytes s = map (\<lambda>c. of_nat (of_char c)) s"

lemma b64_value_SomeD:
  assumes "alphabet_ok A" and "b64_value A c = Some n"
  shows "n < 64" and "c = A ! n"
  using assms map_of_SomeD[of "zip A [0..<length A]" c n]
  by (auto simp: b64_value_def alphabet_ok_def set_zip)

lemma unat_of_nat_small: "n < 256 \<Longrightarrow> unat (of_nat n :: 8 word) = n"
  by (simp add: unat_of_nat)

lemma sextet_words:
  fixes w x :: nat
  assumes "w < 64" and "x < 64"
  defines "u \<equiv> of_nat w :: 8 word" and "v \<equiv> of_nat x :: 8 word"
  shows "push_bit 2 u OR drop_bit 4 v = of_nat (of_char (byte1 w x))"
    and "push_bit 4 u OR drop_bit 2 v = of_nat (of_char (byte2 w x))"
    and "push_bit 6 u OR v = of_nat (of_char (byte3 w x))"
proof -
  have n: "unat u = w" "unat v = x"
    using assms by (simp_all add: unat_of_nat_small)
  with assms(1,2) have s: "\<not> bit u 6" "\<not> bit u 7" "\<not> bit v 6" "\<not> bit v 7"
    by (simp_all add: small_word_bits)
  have d: "unat (drop_bit 4 v) = x div 16" "unat (drop_bit 2 v) = x div 4"
    unfolding unat_drop_bit_eq n by (simp_all add: drop_bit_eq_div)
  have p: "unat (push_bit 2 u) = w * 4" "unat (push_bit 4 u) = w mod 16 * 16"
    "unat (push_bit 6 u) = w mod 4 * 64"
    unfolding unsigned_push_bit_eq n using assms(1)
    by (simp_all add: push_bit_eq_mult take_bit_eq_mod mod_mult_mult2[of _ 16 16, simplified]
        mod_mult_mult2[of _ 64 4, simplified])
  have "push_bit 2 u AND drop_bit 4 v = 0"
    by (rule word8_eqI) (simp add: bit_simps word8_no_bit s)
  then have "unat (push_bit 2 u OR drop_bit 4 v) = w * 4 + x div 16"
    by (simp only: or_plus p d)
  moreover have "w * 4 + x div 16 < 256" using assms(1,2) by linarith
  ultimately show "push_bit 2 u OR drop_bit 4 v = of_nat (of_char (byte1 w x))"
    by (metis byte1_def mod_less of_char_of of_nat_unat ucast_id)
  have "push_bit 4 u AND drop_bit 2 v = 0"
    by (rule word8_eqI) (simp add: bit_simps word8_no_bit s)
  then have "unat (push_bit 4 u OR drop_bit 2 v) = w mod 16 * 16 + x div 4"
    by (simp only: or_plus p d)
  moreover have "w mod 16 * 16 + x div 4 < 256" using assms(1,2) by linarith
  ultimately show "push_bit 4 u OR drop_bit 2 v = of_nat (of_char (byte2 w x))"
    by (metis byte2_def mod_less of_char_of of_nat_unat ucast_id)
  have "push_bit 6 u AND v = 0"
    by (rule word8_eqI) (simp add: bit_simps word8_no_bit s)
  then have "unat (push_bit 6 u OR v) = w mod 4 * 64 + x"
    by (simp only: or_plus p n)
  moreover have "w mod 4 * 64 + x < 256" using assms(1,2) by linarith
  ultimately show "push_bit 6 u OR v = of_nat (of_char (byte3 w x))"
    by (metis byte3_def mod_less of_char_of of_nat_unat ucast_id)
qed

lemma pgx_loop_nth:
  assumes "w < 64"
  shows "pgx_loop cap (pg_alphabet ! w # cs) out acc bits =
    (if bits \<ge> 2 then
       if length out \<ge> cap then Inl OutputBufferTooSmall
       else pgx_loop cap cs (out @ [ucast (drop_bit (bits - 2) (shift_in acc (of_nat w)))])
              (shift_in acc (of_nat w)) (bits - 2)
     else pgx_loop cap cs out (shift_in acc (of_nat w)) (bits + 6))"
  using pgx_loop_digit[of "of_nat w"] assms by (simp add: unat_of_nat_small)

lemma shift_bytes:
  assumes "w < 64" and "x < 64"
  shows "ucast (drop_bit 4 (shift_in (shift_in acc (of_nat w)) (of_nat x))) =
      (of_nat (of_char (byte1 w x)) :: 8 word)"
    and "ucast (drop_bit 2 (shift_in (shift_in acc (of_nat w)) (of_nat x))) =
      (of_nat (of_char (byte2 w x)) :: 8 word)"
    and "ucast (shift_in (shift_in acc (of_nat w)) (of_nat x)) =
      (of_nat (of_char (byte3 w x)) :: 8 word)"
  using shift_out_sextets[of "of_nat w" "of_nat x" acc] sextet_words[OF assms] assms
  by (simp_all add: unat_of_nat_small)

lemmas pgx_step = pgx_loop_nth shift_bytes char_bytes_def

lemma pgx_loop_quanta:
  assumes "b64_quanta pg_alphabet True s = Some t" and "length out + length t \<le> cap"
  shows "pgx_loop cap s out acc 0 = Inr (out @ char_bytes t)"
  using assms
proof (induction "pg_alphabet" True s arbitrary: t out acc rule: b64_quanta.induct)
  case (5 p q r t' s)
  consider (two) "r = CHR ''=''" | (three) "r \<noteq> CHR ''=''" "t' = CHR ''=''"
    | (four) "r \<noteq> CHR ''=''" "t' \<noteq> CHR ''=''" by blast
  then show ?case
  proof cases
    case two
    with 5(2) obtain w x where "b64_value pg_alphabet p = Some w" "b64_value pg_alphabet q = Some x"
      and t: "t = [byte1 w x]"
      by (auto simp: b64_group2_def split: if_splits option.splits)
    note v = this(1,2)[THEN b64_value_SomeD(1)[OF pg_alphabet_ok]]
      this(1,2)[THEN b64_value_SomeD(2)[OF pg_alphabet_ok]]
    from 5(3) v two t show ?thesis
      by (simp add: pgx_step del: pgx_loop.simps(2))
  next
    case three
    with 5(2) obtain w x y where "b64_value pg_alphabet p = Some w"
      "b64_value pg_alphabet q = Some x" "b64_value pg_alphabet r = Some y"
      and t: "t = [byte1 w x, byte2 x y]"
      by (auto simp: b64_group3_def split: if_splits option.splits)
    note v = this(1-3)[THEN b64_value_SomeD(1)[OF pg_alphabet_ok]]
      this(1-3)[THEN b64_value_SomeD(2)[OF pg_alphabet_ok]]
    from 5(3) v three t show ?thesis
      by (simp add: pgx_step del: pgx_loop.simps(2))
  next
    case four
    with 5(2) obtain w x y z t'' where "b64_value pg_alphabet p = Some w"
      "b64_value pg_alphabet q = Some x" "b64_value pg_alphabet r = Some y"
      "b64_value pg_alphabet t' = Some z"
      and t: "t = [byte1 w x, byte2 x y, byte3 y z] @ t''"
      and g: "b64_group4 pg_alphabet p q r t' = Some [byte1 w x, byte2 x y, byte3 y z]"
      and s: "b64_quanta pg_alphabet True s = Some t''"
      by (auto simp: b64_group4_def split: if_splits option.splits)
    note v = this(1-4)[THEN b64_value_SomeD(1)[OF pg_alphabet_ok]]
      this(1-4)[THEN b64_value_SomeD(2)[OF pg_alphabet_ok]]
    have IH: "pgx_loop cap s out' acc' 0 = Inr (out' @ char_bytes t'')"
      if "length out' + length t'' \<le> cap" for out' acc'
      using 5(1)[OF _ _ g s that] four by simp
    from 5(3) v t show ?thesis
      by (simp add: pgx_step IH del: pgx_loop.simps(2))
  qed
qed (simp_all add: char_bytes_def)

lemma b64_quanta_set:
  assumes "b64_quanta A pad s = Some t" and "alphabet_ok A"
  shows "set s \<subseteq> set A \<union> {CHR ''=''}"
proof -
  have mem: "b64_value A c = Some n \<Longrightarrow> c \<in> set A" for c n
    using b64_value_SomeD[OF assms(2)] alphabet_nth_in[OF assms(2)] by blast
  show ?thesis
    using assms(1)
    by (induction A pad s arbitrary: t rule: b64_quanta.induct)
       (auto simp: b64_groups b64_value_def split: if_splits option.splits
         dest!: map_of_SomeD in_set_zipE set_zip_leftD)
qed

section \<open>Public keys of the devices table\<close>

lemma publicKeyBytes_stored:
  "length bs = 32 \<Longrightarrow> publicKeyBytes (pkBytesToB64 bs) = Inr bs"
  using pgx_loop_encode[of "[]" bs 32 0]
  by (simp add: publicKeyBytes_def encodeBase64Std_def decodeStdB64_def pgxDecodeB64_def
      pkBytesToB64_trim)

text \<open>The hand-written base-64 pair of the Postgres store is lossless on the 32-byte keys of
  the \<open>devices\<close> table: the text that \<open>pkBytesToB64\<close> produces for a stored key is read back
  by \<open>publicKeyBytes\<close> as the same 32 bytes.\<close>

theorem publicKeyBytes_roundtrip:
  assumes "length bs = 32"
  shows "publicKeyBytes (pkBytesToB64 bs) = Inr bs"
  using assms by (rule publicKeyBytes_stored)

theorem publicKeyBytes_roundtrip_witness:
  "publicKeyBytes (pkBytesToB64 (replicate 32 0xA7)) = Inr (replicate 32 0xA7)"
  by (rule publicKeyBytes_roundtrip) simp

text \<open>C38: a public key that the library decoder of \<open>security.VerifyDevice\<close> accepts, on one
  line and 32 bytes long, is accepted by the Postgres store's own decoder, and both read the same
  bytes.\<close>

theorem publicKeyBytes_agrees_with_StdDecode:
  assumes "StdDecode s = Some t" and "length t = 32" and "no_breaks s = s"
  shows "publicKeyBytes s = Inr (char_bytes t)"
proof -
  from assms have q: "b64_quanta pg_alphabet True s = Some t"
    by (simp add: StdDecode_def pg_alphabet_std)
  have "set s \<subseteq> set alphabet_std \<union> {CHR ''=''}"
    using b64_quanta_set[OF q pg_alphabet_ok] by (simp add: pg_alphabet_std)
  moreover have "(set alphabet_std \<union> {CHR ''=''}) \<inter> set (concat space_runes) = {}"
    by (simp add: alphabet_std_def space_runes_def)
  ultimately have "TrimSpace s = s"
    by (intro TrimSpace_id) blast
  moreover have "pgx_loop 32 s [] 0 0 = Inr (char_bytes t)"
    using pgx_loop_quanta[OF q, of "[]" 32 0] assms(2) by simp
  ultimately show ?thesis
    using assms(2)
    by (simp add: publicKeyBytes_def encodeBase64Std_def decodeStdB64_def pgxDecodeB64_def
        char_bytes_def)
qed

theorem publicKeyBytes_agrees_with_StdDecode_witness:
  "publicKeyBytes (StdEncode (replicate 32 CHR ''k'')) = Inr (char_bytes (replicate 32 CHR ''k''))"
  by (rule publicKeyBytes_agrees_with_StdDecode)
     (simp_all add: StdEncode_def no_breaks_encode alphabet_std_ok
       StdDecode_StdEncode[unfolded StdEncode_def])

end
