(* ===== verification/Pg_Store.thy ===== *)
theory Pg_Store
  imports Pg_Tables Pg_Codec "HOL-Library.List_Lexorder" "HOL-Library.Char_ord"
begin

text \<open>
  \<open>internal/store/postgres.go\<close>: one definition per method of \<open>PostgresStore\<close>, on the tables of
  \<open>Pg_Tables\<close>. Beside its arguments a method takes the outcomes of its round trips and, where the
  code or a column default reads the clock, the instant. A driver or server error that is not one
  of the sentinels of \<open>store.go\<close> is \<open>ErrBackend\<close>.
\<close>

section \<open>Helpers\<close>

definition isUnique :: "sql_error \<Rightarrow> bool" where
  "isUnique err \<longleftrightarrow> err = UniqueViolation"

type_synonym pg_result = "pg_tables \<times> store_error option"

text \<open>What the methods make of the outcome of an \<open>Exec\<close>: creations tell conflicts from other errors,
  updates report that no row was there, the rest pass the error on.\<close>

definition create_reply :: "'w \<times> (sql_error + nat) \<Rightarrow> 'w \<times> store_error option" where
  "create_reply r =
     (fst r, case snd r of
        Inl err \<Rightarrow> Some (if isUnique err then ErrConflict else ErrBackend)
      | Inr n \<Rightarrow> None)"

definition update_reply :: "'w \<times> (sql_error + nat) \<Rightarrow> 'w \<times> store_error option" where
  "update_reply r =
     (fst r, case snd r of
        Inl err \<Rightarrow> Some ErrBackend
      | Inr n \<Rightarrow> if n = 0 then Some ErrNotFound else None)"

definition plain_reply :: "'w \<times> (sql_error + nat) \<Rightarrow> 'w \<times> store_error option" where
  "plain_reply r = (fst r, case snd r of Inl err \<Rightarrow> Some ErrBackend | Inr n \<Rightarrow> None)"

text \<open>\<open>QueryRow\<close> with its \<open>Scan\<close> and \<open>mapNotFound\<close>, and the collecting loops.\<close>

definition mapNotFound :: "sql_error + 'r list \<Rightarrow> store_error + 'r" where
  "mapNotFound r =
     (case r of
        Inl err \<Rightarrow> Inl ErrBackend
      | Inr rows \<Rightarrow> (case rows of [] \<Rightarrow> Inl ErrNotFound | row # rest \<Rightarrow> Inr row))"

definition scanned :: "store_error + 'r \<Rightarrow> ('r \<Rightarrow> 'v) \<Rightarrow> store_error + 'v" where
  "scanned r f = (case r of Inl err \<Rightarrow> Inl err | Inr row \<Rightarrow> Inr (f row))"

definition collect :: "sql_error + 'r list \<Rightarrow> ('r list \<Rightarrow> 'v list) \<Rightarrow> store_error + 'v list" where
  "collect r f = (case r of Inl err \<Rightarrow> Inl ErrBackend | Inr rows \<Rightarrow> Inr (f rows))"

text \<open>\<open>withTx\<close>: attempts are numbered from 1, \<open>left\<close> of them remain. A commit whose answer is lost
  may be repeated, on tables that already hold its effect.\<close>

type_synonym tx_body = "(nat \<Rightarrow> round_trip) \<Rightarrow> pg_tables option \<Rightarrow> pg_tables option \<times> store_error option"

fun withTx_from :: "(nat \<Rightarrow> tx_net) \<Rightarrow> tx_body \<Rightarrow> nat \<Rightarrow> nat \<Rightarrow> pg_tables \<Rightarrow> pg_result" where
  "withTx_from nets fn attempt 0 t = (t, Some ErrBackend)"
| "withTx_from nets fn attempt (Suc left) t =
     (let n = nets attempt in
      if \<not> tx_begun n then (t, Some ErrBackend)
      else case fn (tx_stmt n) (Some t) of
        (w, Some err) \<Rightarrow> (t, Some err)
      | (w, None) \<Rightarrow>
          let t' = (case w of Some u \<Rightarrow> if tx_commit n = NotSent then t else u | None \<Rightarrow> t) in
          if tx_commit n = Answered \<and> w \<noteq> None then (t', None)
          else if 0 < left then withTx_from nets fn (Suc attempt) left t'
          else (t', Some ErrBackend))"

definition withTx :: "(nat \<Rightarrow> tx_net) \<Rightarrow> tx_body \<Rightarrow> pg_tables \<Rightarrow> pg_result" where
  "withTx nets fn t = withTx_from nets fn 1 3 t"

section \<open>Accounts\<close>

definition pg_CreateAccount ::
  "pg_env \<Rightarrow> round_trip \<Rightarrow> time \<Rightarrow> pg_tables \<Rightarrow> string \<Rightarrow> string \<Rightarrow> string \<Rightarrow> string \<Rightarrow> pg_result" where
  "pg_CreateAccount e net now t ident email name passwordHash =
     create_reply (pool_exec net (texts e [ident, email, name])
       (insert_into (users e)
          \<lparr>ur_id = ident, ur_email = email, ur_display_name = name,
           ur_password_hash = hex_encode passwordHash, ur_token_version = 0,
           ur_email_verified_at = None, ur_created_at = pg_time now\<rparr>) t)"

text \<open>\<open>hex.DecodeString\<close>.\<close>

definition hex_value :: "char \<Rightarrow> nat option" where
  "hex_value c =
     (let n = of_char c :: nat in
      if 48 \<le> n \<and> n \<le> 57 then Some (n - 48)
      else if 97 \<le> n \<and> n \<le> 102 then Some (n - 87)
      else if 65 \<le> n \<and> n \<le> 70 then Some (n - 55)
      else None)"

fun hex_decode :: "string \<Rightarrow> string option" where
  "hex_decode [] = Some []"
| "hex_decode [c] = None"
| "hex_decode (c # d # s) =
     (case (hex_value c, hex_value d, hex_decode s) of
        (Some i, Some j, Some r) \<Rightarrow> Some (char_of (16 * i + j) # r)
      | _ \<Rightarrow> None)"

definition scanAccount :: "sql_error + user_row list \<Rightarrow> store_error + Account" where
  "scanAccount r =
     (case mapNotFound r of
        Inl err \<Rightarrow> Inl err
      | Inr u \<Rightarrow>
          (case hex_decode (ur_password_hash u) of
             None \<Rightarrow> Inl ErrBackend
           | Some raw \<Rightarrow>
               Inr \<lparr>ac_ID = ur_id u, ac_Email = ur_email u, ac_Name = ur_display_name u,
                    ac_PasswordHash = raw, ac_TokenVersion = of_int (ur_token_version u),
                    ac_EmailVerifiedAt = ur_email_verified_at u, ac_CreatedAt = ur_created_at u\<rparr>))"

definition pg_GetAccountByID ::
  "pg_env \<Rightarrow> round_trip \<Rightarrow> pg_tables \<Rightarrow> string \<Rightarrow> store_error + Account" where
  "pg_GetAccountByID e net t ident =
     scanAccount (pool_query net (texts e [ident])
       (select_where e (users e) (\<lambda>u. ur_id u = ident) t))"

definition pg_GetAccountByEmail ::
  "pg_env \<Rightarrow> round_trip \<Rightarrow> pg_tables \<Rightarrow> string \<Rightarrow> store_error + Account" where
  "pg_GetAccountByEmail e net t email =
     scanAccount (pool_query net (texts e [email])
       (select_where e (users e) (\<lambda>u. ur_email u = email) t))"

text \<open>\<open>token_version + 1\<close> is an error at the upper bound of \<open>bigint\<close>.\<close>

definition bump_version :: "pg_env \<Rightarrow> string \<Rightarrow> (user_row \<Rightarrow> user_row) \<Rightarrow> sql" where
  "bump_version e userID f t =
     (if list_ex (\<lambda>u. ur_id u = userID \<and> ur_token_version u \<ge> 2 ^ 63 - 1) (tb_users t)
      then Inl OutOfRange
      else update_where (users e) (\<lambda>u. ur_id u = userID)
        (\<lambda>u. (f u)\<lparr>ur_token_version := ur_token_version u + 1\<rparr>) t)"

definition pg_UpdateAccountVersion :: "pg_env \<Rightarrow> round_trip \<Rightarrow> pg_tables \<Rightarrow> string \<Rightarrow> pg_result" where
  "pg_UpdateAccountVersion e net t userID =
     update_reply (pool_exec net (texts e [userID]) (bump_version e userID (\<lambda>u. u)) t)"

definition pg_SetEmailVerified ::
  "pg_env \<Rightarrow> round_trip \<Rightarrow> pg_tables \<Rightarrow> string \<Rightarrow> time \<Rightarrow> pg_result" where
  "pg_SetEmailVerified e net t userID at =
     update_reply (pool_exec net (texts e [userID])
       (update_where (users e) (\<lambda>u. ur_id u = userID)
          (\<lambda>u. u\<lparr>ur_email_verified_at := Some (pg_time at)\<rparr>)) t)"

definition pg_UpdatePassword ::
  "pg_env \<Rightarrow> round_trip \<Rightarrow> pg_tables \<Rightarrow> string \<Rightarrow> string \<Rightarrow> pg_result" where
  "pg_UpdatePassword e net t userID passwordHash =
     update_reply (pool_exec net (texts e [userID])
       (bump_version e userID (\<lambda>u. u\<lparr>ur_password_hash := hex_encode passwordHash\<rparr>)) t)"

section \<open>Refresh tokens\<close>

definition pg_CreateRefreshToken ::
  "pg_env \<Rightarrow> round_trip \<Rightarrow> pg_tables \<Rightarrow> string \<Rightarrow> string \<Rightarrow> string \<Rightarrow> time \<Rightarrow> pg_result" where
  "pg_CreateRefreshToken e net t hash userID familyID expires =
     create_reply (pool_exec net (texts e [userID, familyID])
       (insert_into refresh_tokens
          \<lparr>rt_Hash = hash, rt_UserID = userID, rt_FamilyID = familyID,
           rt_ExpiresAt = pg_time expires, rt_UsedAt = None, rt_RevokedAt = None\<rparr>) t)"

definition pg_GetRefreshToken ::
  "pg_env \<Rightarrow> round_trip \<Rightarrow> pg_tables \<Rightarrow> string \<Rightarrow> store_error + RefreshToken" where
  "pg_GetRefreshToken e net t hash =
     mapNotFound (pool_query net True
       (select_where e refresh_tokens (\<lambda>r. rt_Hash r = hash) t))"

definition pg_MarkRefreshTokenUsed ::
  "pg_env \<Rightarrow> round_trip \<Rightarrow> pg_tables \<Rightarrow> string \<Rightarrow> time \<Rightarrow> pg_result" where
  "pg_MarkRefreshTokenUsed e net t hash at =
     update_reply (pool_exec net True
       (update_where refresh_tokens (\<lambda>r. rt_Hash r = hash)
          (\<lambda>r. r\<lparr>rt_UsedAt := Some (pg_time at)\<rparr>)) t)"

definition pg_RevokeFamily ::
  "pg_env \<Rightarrow> round_trip \<Rightarrow> time \<Rightarrow> pg_tables \<Rightarrow> string \<Rightarrow> pg_result" where
  "pg_RevokeFamily e net now t familyID =
     plain_reply (pool_exec net (texts e [familyID])
       (update_where refresh_tokens (\<lambda>r. rt_FamilyID r = familyID)
          (\<lambda>r. r\<lparr>rt_UsedAt := Some (pg_time now), rt_RevokedAt := Some (pg_time now)\<rparr>)) t)"

section \<open>Devices\<close>

definition pg_CreateDevice ::
  "pg_env \<Rightarrow> round_trip \<Rightarrow> time \<Rightarrow> pg_tables \<Rightarrow> StoreDevice \<Rightarrow> pg_result" where
  "pg_CreateDevice e net now t d =
     (case publicKeyBytes (sd_PublicKey d) of
        Inl err \<Rightarrow> (t, Some ErrBackend)
      | Inr pkBytes \<Rightarrow>
          create_reply (pool_exec net (texts e [sd_ID d, sd_Name d, sd_OwnerID d, sd_OS d])
            (insert_into devices
               \<lparr>dr_id = sd_ID d, dr_name = sd_Name d, dr_owner_id = sd_OwnerID d,
                dr_public_key = pkBytes, dr_os = sd_OS d, dr_revoked_at = None,
                dr_created_at = pg_time now\<rparr>) t))"

text \<open>The fields that no column feeds keep their zero values.\<close>

definition device_of_row :: "device_row \<Rightarrow> StoreDevice" where
  "device_of_row r =
     \<lparr>sd_ID = dr_id r, sd_Name = dr_name r, sd_OwnerID = dr_owner_id r, sd_OrganizationID = None,
      sd_PublicKey = pkBytesToB64 (dr_public_key r), sd_OS = dr_os r, sd_LastSeen = zero_time,
      sd_RevokedAt = dr_revoked_at r, sd_Revoked = (dr_revoked_at r \<noteq> None), sd_Online = False,
      sd_Unattended = False, sd_CreatedAt = dr_created_at r\<rparr>"

definition scanDevice :: "sql_error + device_row list \<Rightarrow> store_error + StoreDevice" where
  "scanDevice r = scanned (mapNotFound r) device_of_row"

definition pg_GetDevice ::
  "pg_env \<Rightarrow> round_trip \<Rightarrow> pg_tables \<Rightarrow> string \<Rightarrow> store_error + StoreDevice" where
  "pg_GetDevice e net t ident =
     scanDevice (pool_query net (texts e [ident])
       (select_where e devices (\<lambda>r. dr_id r = ident) t))"

definition pg_GetDeviceByPublicKey ::
  "pg_env \<Rightarrow> round_trip \<Rightarrow> pg_tables \<Rightarrow> string \<Rightarrow> store_error + StoreDevice" where
  "pg_GetDeviceByPublicKey e net t publicKey =
     (case publicKeyBytes publicKey of
        Inl err \<Rightarrow> Inl ErrBackend
      | Inr pkBytes \<Rightarrow>
          scanDevice (pool_query net True
            (select_where e devices (\<lambda>r. dr_public_key r = pkBytes) t)))"

definition collectDevices :: "device_row list \<Rightarrow> StoreDevice list" where
  "collectDevices rows = map device_of_row rows"

definition pg_ListDevicesByOwner ::
  "pg_env \<Rightarrow> round_trip \<Rightarrow> pg_tables \<Rightarrow> string \<Rightarrow> store_error + StoreDevice list" where
  "pg_ListDevicesByOwner e net t ownerID =
     collect (pool_query net (texts e [ownerID])
       (select_where e devices (\<lambda>r. dr_owner_id r = ownerID) t))
       (\<lambda>rows. collectDevices (sort_key (\<lambda>r. pe_collate e (dr_name r)) rows))"

definition pg_UpdateDevice :: "pg_env \<Rightarrow> round_trip \<Rightarrow> pg_tables \<Rightarrow> StoreDevice \<Rightarrow> pg_result" where
  "pg_UpdateDevice e net t d =
     update_reply (pool_exec net (texts e [sd_Name d, sd_OS d, sd_ID d])
       (update_where devices (\<lambda>r. dr_id r = sd_ID d)
          (\<lambda>r. r\<lparr>dr_name := sd_Name d, dr_os := sd_OS d\<rparr>)) t)"

definition pg_RevokeDevice ::
  "pg_env \<Rightarrow> round_trip \<Rightarrow> pg_tables \<Rightarrow> string \<Rightarrow> time \<Rightarrow> pg_result" where
  "pg_RevokeDevice e net t ident at =
     update_reply (pool_exec net (texts e [ident])
       (update_where devices (\<lambda>r. dr_id r = ident)
          (\<lambda>r. r\<lparr>dr_revoked_at := Some (pg_time at)\<rparr>)) t)"

section \<open>Sessions\<close>

text \<open>The statement sets every column but \<open>ended_at\<close> and \<open>notes_count\<close>; the public keys and
  \<open>EndedAt\<close> of the argument are not written.\<close>

definition pg_CreateSession :: "pg_env \<Rightarrow> round_trip \<Rightarrow> pg_tables \<Rightarrow> StoreSession \<Rightarrow> pg_result" where
  "pg_CreateSession e net t s =
     create_reply (pool_exec net
       (texts e ([ss_ID s, ss_OperatorID s, ss_SourceDeviceID s, ss_TargetDeviceID s, ss_State s] @
          ss_RequestedPerms s @ ss_GrantedPerms s) \<and> bigint (ss_Epoch s))
       (\<lambda>t. if \<not> slice_ok e (ss_RequestedPerms s) \<or> \<not> slice_ok e (ss_GrantedPerms s)
        then Inl RowViolation
        else insert_into device_sessions
          \<lparr>sr_id = ss_ID s, sr_operator_id = ss_OperatorID s,
           sr_source_device_id = ss_SourceDeviceID s, sr_target_device_id = ss_TargetDeviceID s,
           sr_state = ss_State s, sr_requested_permissions = ss_RequestedPerms s,
           sr_granted_permissions = ss_GrantedPerms s, sr_epoch = uint (ss_Epoch s),
           sr_created_at = pg_time (ss_CreatedAt s), sr_expires_at = pg_time (ss_ExpiresAt s),
           sr_ended_at = None, sr_recording_consent = ss_RecordingConsent s,
           sr_chat_enabled = ss_ChatEnabled s, sr_notes_count = 0\<rparr> t) t)"

definition session_of_row :: "session_row \<Rightarrow> StoreSession" where
  "session_of_row r =
     \<lparr>ss_ID = sr_id r, ss_OperatorID = sr_operator_id r,
      ss_SourceDeviceID = sr_source_device_id r, ss_TargetDeviceID = sr_target_device_id r,
      ss_State = sr_state r, ss_RequestedPerms = sr_requested_permissions r,
      ss_GrantedPerms = sr_granted_permissions r, ss_Epoch = of_int (sr_epoch r),
      ss_SourcePublicKey = [], ss_TargetPublicKey = [],
      ss_RecordingConsent = sr_recording_consent r, ss_ChatEnabled = sr_chat_enabled r,
      ss_NotesCount = sr_notes_count r, ss_CreatedAt = sr_created_at r,
      ss_ExpiresAt = sr_expires_at r, ss_EndedAt = sr_ended_at r\<rparr>"

definition scanSession :: "sql_error + session_row list \<Rightarrow> store_error + StoreSession" where
  "scanSession r = scanned (mapNotFound r) session_of_row"

definition pg_GetSession ::
  "pg_env \<Rightarrow> round_trip \<Rightarrow> pg_tables \<Rightarrow> string \<Rightarrow> store_error + StoreSession" where
  "pg_GetSession e net t ident =
     scanSession (pool_query net (texts e [ident])
       (select_where e device_sessions (\<lambda>r. sr_id r = ident) t))"

definition pg_UpdateSession :: "pg_env \<Rightarrow> round_trip \<Rightarrow> pg_tables \<Rightarrow> StoreSession \<Rightarrow> pg_result" where
  "pg_UpdateSession e net t s =
     update_reply (pool_exec net
       (texts e (ss_State s # ss_ID s # ss_GrantedPerms s) \<and> bigint (ss_Epoch s))
       (\<lambda>t. if \<not> slice_ok e (ss_GrantedPerms s) \<and> has_id sr_id (tb_device_sessions t) (ss_ID s)
        then Inl RowViolation
        else update_where device_sessions (\<lambda>r. sr_id r = ss_ID s)
          (\<lambda>r. r\<lparr>sr_state := ss_State s, sr_granted_permissions := ss_GrantedPerms s,
             sr_epoch := uint (ss_Epoch s), sr_expires_at := pg_time (ss_ExpiresAt s),
             sr_ended_at := map_option pg_time (ss_EndedAt s),
             sr_recording_consent := ss_RecordingConsent s,
             sr_chat_enabled := ss_ChatEnabled s\<rparr>) t) t)"

definition collectSessions :: "session_row list \<Rightarrow> StoreSession list" where
  "collectSessions rows = map session_of_row rows"

definition pg_ListActiveSessionsByDevice ::
  "pg_env \<Rightarrow> round_trip \<Rightarrow> pg_tables \<Rightarrow> string \<Rightarrow> store_error + StoreSession list" where
  "pg_ListActiveSessionsByDevice e net t deviceID =
     collect (pool_query net (texts e [deviceID])
       (select_where e device_sessions
          (\<lambda>r. (sr_source_device_id r = deviceID \<or> sr_target_device_id r = deviceID) \<and>
             sr_state r \<in> {''pending'', ''active''}) t))
       (\<lambda>rows. collectSessions (sort_key (\<lambda>r. - sr_created_at r) rows))"

definition pg_ListSessionsByOperator ::
  "pg_env \<Rightarrow> round_trip \<Rightarrow> pg_tables \<Rightarrow> string \<Rightarrow> store_error + StoreSession list" where
  "pg_ListSessionsByOperator e net t operatorID =
     collect (pool_query net (texts e [operatorID])
       (select_where e device_sessions (\<lambda>r. sr_operator_id r = operatorID) t))
       (\<lambda>rows. collectSessions (sort_key (\<lambda>r. - sr_created_at r) rows))"

section \<open>Audit\<close>

definition pg_CreateAudit :: "pg_env \<Rightarrow> round_trip \<Rightarrow> pg_tables \<Rightarrow> AuditEvent \<Rightarrow> pg_result" where
  "pg_CreateAudit e net t ev =
     plain_reply (pool_exec net
       (texts e ([ae_ID ev, ae_ActorID ev, ae_Action ev, ae_ResourceID ev] @
          (case ae_OrganizationID ev of None \<Rightarrow> [] | Some g \<Rightarrow> [g])))
       (\<lambda>t. case Option.bind (pe_marshal e (ae_Metadata ev)) (pe_jsonb e) of
          None \<Rightarrow> Inl RowViolation
        | Some meta \<Rightarrow> insert_into audit_events
            \<lparr>au_id = ae_ID ev, au_actor_id = ae_ActorID ev,
             au_organization_id = ae_OrganizationID ev, au_action = ae_Action ev,
             au_resource_id = ae_ResourceID ev, au_metadata = meta,
             au_occurred_at = pg_time (ae_OccurredAt ev)\<rparr> t) t)"

definition audit_of_row :: "pg_env \<Rightarrow> audit_row \<Rightarrow> AuditEvent" where
  "audit_of_row e r =
     \<lparr>ae_ID = au_id r, ae_ActorID = au_actor_id r, ae_OrganizationID = au_organization_id r,
      ae_Action = au_action r, ae_ResourceID = au_resource_id r,
      ae_Metadata = pe_unmarshal e (au_metadata r), ae_OccurredAt = au_occurred_at r\<rparr>"

text \<open>The server refuses a negative \<open>LIMIT\<close>.\<close>

definition pg_ListAudit ::
  "pg_env \<Rightarrow> round_trip \<Rightarrow> pg_tables \<Rightarrow> string \<Rightarrow> int \<Rightarrow> store_error + AuditEvent list" where
  "pg_ListAudit e net t actorID limit =
     collect (pool_query net (texts e [actorID])
       (if limit < 0 then Inl OutOfRange
        else select_where e audit_events (\<lambda>r. au_actor_id r = actorID) t))
       (\<lambda>rows. map (audit_of_row e) (take (nat limit) (sort_key (\<lambda>r. - au_occurred_at r) rows)))"

section \<open>Presence\<close>

definition pg_SetOnline :: "pg_tables \<Rightarrow> string \<Rightarrow> duration \<Rightarrow> pg_result" where
  "pg_SetOnline t deviceID ttl = (t, None)"

definition pg_IsOnline :: "pg_tables \<Rightarrow> string \<Rightarrow> store_error + bool" where
  "pg_IsOnline t deviceID = Inr False"

section \<open>Second factors\<close>

definition CreateSecondFactor_tx ::
  "pg_env \<Rightarrow> string \<Rightarrow> string \<Rightarrow> string \<Rightarrow> string \<Rightarrow> tx_body" where
  "CreateSecondFactor_tx e ident userID kind secret nets w =
     (let (w, ignored) = tx_exec (nets 0) (texts e [userID])
            (delete_where second_factors (\<lambda>r. sf_UserID r = userID \<and> sf_VerifiedAt r = None)) w
      in create_reply (tx_exec (nets 1) (texts e [ident, userID, kind])
           (\<lambda>t. if \<not> slice_ok e secret then Inl RowViolation
            else insert_into second_factors
              \<lparr>sf_ID = ident, sf_UserID = userID, sf_Kind = kind, sf_EncryptedSecret = secret,
               sf_VerifiedAt = None\<rparr> t) w))"

definition pg_CreateSecondFactor ::
  "pg_env \<Rightarrow> (nat \<Rightarrow> tx_net) \<Rightarrow> pg_tables \<Rightarrow> string \<Rightarrow> string \<Rightarrow> string \<Rightarrow> string \<Rightarrow> pg_result" where
  "pg_CreateSecondFactor e nets t ident userID kind secret =
     withTx nets (CreateSecondFactor_tx e ident userID kind secret) t"

definition verified_first :: "SecondFactor list \<Rightarrow> SecondFactor list" where
  "verified_first rows =
     sort_key (\<lambda>r. sf_VerifiedAt r = None)
       (sort_key (\<lambda>r. case sf_VerifiedAt r of None \<Rightarrow> 0 | Some v \<Rightarrow> v) rows)"

definition pg_GetSecondFactor ::
  "pg_env \<Rightarrow> round_trip \<Rightarrow> pg_tables \<Rightarrow> string \<Rightarrow> store_error + SecondFactor" where
  "pg_GetSecondFactor e net t userID =
     mapNotFound (pool_query net (texts e [userID])
       (map_sum (\<lambda>err. err) (\<lambda>rows. take 1 (verified_first rows))
          (select_where e second_factors (\<lambda>r. sf_UserID r = userID) t)))"

definition pg_VerifySecondFactor ::
  "pg_env \<Rightarrow> round_trip \<Rightarrow> pg_tables \<Rightarrow> string \<Rightarrow> time \<Rightarrow> pg_result" where
  "pg_VerifySecondFactor e net t ident at =
     update_reply (pool_exec net (texts e [ident])
       (update_where second_factors (\<lambda>r. sf_ID r = ident)
          (\<lambda>r. r\<lparr>sf_VerifiedAt := Some (pg_time at)\<rparr>)) t)"

definition pg_DeleteSecondFactor :: "pg_env \<Rightarrow> round_trip \<Rightarrow> pg_tables \<Rightarrow> string \<Rightarrow> pg_result" where
  "pg_DeleteSecondFactor e net t userID =
     plain_reply (pool_exec net (texts e [userID])
       (delete_where second_factors (\<lambda>r. sf_UserID r = userID)) t)"

section \<open>E-mail tokens\<close>

definition pg_CreateEmailToken ::
  "pg_env \<Rightarrow> round_trip \<Rightarrow> pg_tables \<Rightarrow> string \<Rightarrow> string \<Rightarrow> string \<Rightarrow> time \<Rightarrow> pg_result" where
  "pg_CreateEmailToken e net t tokenHash userID kind expires =
     plain_reply (pool_exec net (texts e [tokenHash, userID, kind])
       (insert_or_nothing email_verification_tokens
          \<lparr>et_TokenHash = tokenHash, et_UserID = userID, et_Kind = kind,
           et_ExpiresAt = pg_time expires\<rparr>) t)"

definition pg_GetEmailToken ::
  "pg_env \<Rightarrow> round_trip \<Rightarrow> pg_tables \<Rightarrow> string \<Rightarrow> store_error + EmailToken" where
  "pg_GetEmailToken e net t tokenHash =
     mapNotFound (pool_query net (texts e [tokenHash])
       (select_where e email_verification_tokens (\<lambda>r. et_TokenHash r = tokenHash) t))"

definition pg_DeleteEmailToken :: "pg_env \<Rightarrow> round_trip \<Rightarrow> pg_tables \<Rightarrow> string \<Rightarrow> pg_result" where
  "pg_DeleteEmailToken e net t tokenHash =
     plain_reply (pool_exec net (texts e [tokenHash])
       (delete_where email_verification_tokens (\<lambda>r. et_TokenHash r = tokenHash)) t)"

section \<open>Organisations and memberships\<close>

definition CreateOrganization_tx :: "pg_env \<Rightarrow> Organization \<Rightarrow> tx_body" where
  "CreateOrganization_tx e o' nets w =
     (case create_reply (tx_exec (nets 0) (texts e [og_ID o', og_Name o', og_OwnerID o'])
             (insert_into organizations (o'\<lparr>og_CreatedAt := pg_time (og_CreatedAt o')\<rparr>)) w) of
        (w, Some err) \<Rightarrow> (w, Some err)
      | (w, None) \<Rightarrow>
          plain_reply (tx_exec (nets 1) (texts e [og_ID o', og_OwnerID o'])
            (insert_or_nothing memberships
               \<lparr>mb_OrganizationID = og_ID o', mb_UserID = og_OwnerID o', mb_Role = ''owner'',
                mb_ExpiresAt = None\<rparr>) w))"

definition pg_CreateOrganization ::
  "pg_env \<Rightarrow> (nat \<Rightarrow> tx_net) \<Rightarrow> pg_tables \<Rightarrow> Organization \<Rightarrow> pg_result" where
  "pg_CreateOrganization e nets t o' = withTx nets (CreateOrganization_tx e o') t"

definition pg_GetOrganization ::
  "pg_env \<Rightarrow> round_trip \<Rightarrow> pg_tables \<Rightarrow> string \<Rightarrow> store_error + Organization" where
  "pg_GetOrganization e net t ident =
     mapNotFound (pool_query net (texts e [ident])
       (select_where e organizations (\<lambda>r. og_ID r = ident) t))"

definition pg_ListUserOrganizations ::
  "pg_env \<Rightarrow> round_trip \<Rightarrow> pg_tables \<Rightarrow> string \<Rightarrow> store_error + Organization list" where
  "pg_ListUserOrganizations e net t userID =
     collect (pool_query net (texts e [userID])
       (Inr (concat (map (\<lambda>o'. map (\<lambda>m. o')
          (filter (\<lambda>m. mb_OrganizationID m = og_ID o' \<and> mb_UserID m = userID)
             (scan e (tb_memberships t)))) (scan e (tb_organizations t))))))
       (\<lambda>rows. sort_key (\<lambda>o'. pe_collate e (og_Name o')) rows)"

definition pg_CreateMembership ::
  "pg_env \<Rightarrow> round_trip \<Rightarrow> pg_tables \<Rightarrow> string \<Rightarrow> string \<Rightarrow> string \<Rightarrow> time option \<Rightarrow> pg_result" where
  "pg_CreateMembership e net t orgID userID role expires =
     plain_reply (pool_exec net (texts e [orgID, userID, role])
       (insert_or_update memberships
          \<lparr>mb_OrganizationID = orgID, mb_UserID = userID, mb_Role = role,
           mb_ExpiresAt = map_option pg_time expires\<rparr>
          (\<lambda>r. r\<lparr>mb_Role := role, mb_ExpiresAt := map_option pg_time expires\<rparr>)) t)"

abbreviation member_of :: "string \<Rightarrow> string \<Rightarrow> Membership \<Rightarrow> bool" where
  "member_of orgID userID r \<equiv> mb_OrganizationID r = orgID \<and> mb_UserID r = userID"

definition pg_GetMembership ::
  "pg_env \<Rightarrow> round_trip \<Rightarrow> pg_tables \<Rightarrow> string \<Rightarrow> string \<Rightarrow> store_error + Membership" where
  "pg_GetMembership e net t orgID userID =
     mapNotFound (pool_query net (texts e [orgID, userID])
       (select_where e memberships (member_of orgID userID) t))"

definition pg_ListMembers ::
  "pg_env \<Rightarrow> round_trip \<Rightarrow> pg_tables \<Rightarrow> string \<Rightarrow> store_error + Membership list" where
  "pg_ListMembers e net t orgID =
     collect (pool_query net (texts e [orgID])
       (select_where e memberships (\<lambda>r. mb_OrganizationID r = orgID) t))
       (\<lambda>rows. sort_key (\<lambda>r. pe_collate e (mb_Role r))
          (sort_key (\<lambda>r. pe_collate e (mb_UserID r)) rows))"

definition pg_UpdateMemberRole ::
  "pg_env \<Rightarrow> round_trip \<Rightarrow> pg_tables \<Rightarrow> string \<Rightarrow> string \<Rightarrow> string \<Rightarrow> pg_result" where
  "pg_UpdateMemberRole e net t orgID userID role =
     update_reply (pool_exec net (texts e [role, orgID, userID])
       (update_where memberships (member_of orgID userID) (\<lambda>r. r\<lparr>mb_Role := role\<rparr>)) t)"

definition pg_RemoveMembership ::
  "pg_env \<Rightarrow> round_trip \<Rightarrow> pg_tables \<Rightarrow> string \<Rightarrow> string \<Rightarrow> pg_result" where
  "pg_RemoveMembership e net t orgID userID =
     update_reply (pool_exec net (texts e [orgID, userID])
       (delete_where memberships (member_of orgID userID)) t)"

section \<open>Invites\<close>

definition pg_CreateInvite :: "pg_env \<Rightarrow> round_trip \<Rightarrow> pg_tables \<Rightarrow> OrgInvite \<Rightarrow> pg_result" where
  "pg_CreateInvite e net t i =
     create_reply (pool_exec net
       (texts e [iv_ID i, iv_OrgID i, iv_Email i, iv_Role i, iv_TokenHash i])
       (insert_into org_invites
          (i\<lparr>iv_ExpiresAt := pg_time (iv_ExpiresAt i), iv_AcceptedAt := None\<rparr>)) t)"

definition pg_GetInviteByToken ::
  "pg_env \<Rightarrow> round_trip \<Rightarrow> pg_tables \<Rightarrow> string \<Rightarrow> store_error + OrgInvite" where
  "pg_GetInviteByToken e net t tokenHash =
     mapNotFound (pool_query net (texts e [tokenHash])
       (select_where e org_invites (\<lambda>r. iv_TokenHash r = tokenHash) t))"

definition pg_AcceptInvite ::
  "pg_env \<Rightarrow> round_trip \<Rightarrow> pg_tables \<Rightarrow> string \<Rightarrow> time \<Rightarrow> pg_result" where
  "pg_AcceptInvite e net t tokenHash at =
     update_reply (pool_exec net (texts e [tokenHash])
       (update_where org_invites (\<lambda>r. iv_TokenHash r = tokenHash \<and> iv_AcceptedAt r = None)
          (\<lambda>r. r\<lparr>iv_AcceptedAt := Some (pg_time at)\<rparr>)) t)"

section \<open>Workflows\<close>

definition pg_CreateWorkflow :: "pg_env \<Rightarrow> round_trip \<Rightarrow> pg_tables \<Rightarrow> Workflow \<Rightarrow> pg_result" where
  "pg_CreateWorkflow e net t w =
     create_reply (pool_exec net
       (texts e ([wf_ID w, wf_OrganizationID w, wf_Name w, wf_CreatedBy w] @ wf_RequiredPermissions w))
       (\<lambda>t. if \<not> slice_ok e (wf_RequiredPermissions w) then Inl RowViolation
        else case pe_jsonb e (wf_Definition w) of
          None \<Rightarrow> Inl RowViolation
        | Some doc \<Rightarrow> insert_into workflows (w\<lparr>wf_Definition := doc\<rparr>) t) t)"

definition pg_GetWorkflow ::
  "pg_env \<Rightarrow> round_trip \<Rightarrow> pg_tables \<Rightarrow> string \<Rightarrow> store_error + Workflow" where
  "pg_GetWorkflow e net t ident =
     mapNotFound (pool_query net (texts e [ident])
       (select_where e workflows (\<lambda>r. wf_ID r = ident) t))"

definition pg_ListWorkflows ::
  "pg_env \<Rightarrow> round_trip \<Rightarrow> pg_tables \<Rightarrow> string \<Rightarrow> store_error + Workflow list" where
  "pg_ListWorkflows e net t orgID =
     collect (pool_query net (texts e [orgID])
       (select_where e workflows (\<lambda>r. wf_OrganizationID r = orgID) t))
       (\<lambda>rows. sort_key (\<lambda>r. pe_collate e (wf_Name r)) rows)"

text \<open>A nil slice is NULL, which only the row that it would be written to refuses; a document that
  is no JSON is refused at once.\<close>

definition pg_UpdateWorkflow :: "pg_env \<Rightarrow> round_trip \<Rightarrow> pg_tables \<Rightarrow> Workflow \<Rightarrow> pg_result" where
  "pg_UpdateWorkflow e net t w =
     update_reply (pool_exec net
       (texts e ([wf_Name w, wf_ID w] @ wf_RequiredPermissions w) \<and>
        (slice_ok e (wf_Definition w) \<longrightarrow> pe_jsonb e (wf_Definition w) \<noteq> None))
       (\<lambda>t. if \<not> slice_ok e (wf_RequiredPermissions w) \<or> \<not> slice_ok e (wf_Definition w)
        then (if has_id wf_ID (tb_workflows t) (wf_ID w) then Inl RowViolation else Inr (0, t))
        else update_where workflows (\<lambda>r. wf_ID r = wf_ID w)
          (\<lambda>r. r\<lparr>wf_Name := wf_Name w,
             wf_Definition := the (pe_jsonb e (wf_Definition w)),
             wf_RequiredPermissions := wf_RequiredPermissions w,
             wf_Enabled := wf_Enabled w\<rparr>) t) t)"

definition opt_text :: "string option \<Rightarrow> string list" where
  "opt_text x = (case x of None \<Rightarrow> [] | Some s \<Rightarrow> [s])"

definition pg_CreateWorkflowRun :: "pg_env \<Rightarrow> round_trip \<Rightarrow> pg_tables \<Rightarrow> WorkflowRun \<Rightarrow> pg_result" where
  "pg_CreateWorkflowRun e net t run =
     create_reply (pool_exec net
       (texts e ([wr_ID run, wr_WorkflowID run, wr_SessionID run, wr_State run] @
          opt_text (wr_ApprovedBy run)))
       (insert_into workflow_runs
          (run\<lparr>wr_StartedAt := map_option pg_time (wr_StartedAt run), wr_FinishedAt := None\<rparr>)) t)"

definition pg_GetWorkflowRun ::
  "pg_env \<Rightarrow> round_trip \<Rightarrow> pg_tables \<Rightarrow> string \<Rightarrow> store_error + WorkflowRun" where
  "pg_GetWorkflowRun e net t ident =
     mapNotFound (pool_query net (texts e [ident])
       (select_where e workflow_runs (\<lambda>r. wr_ID r = ident) t))"

definition pg_UpdateWorkflowRun :: "pg_env \<Rightarrow> round_trip \<Rightarrow> pg_tables \<Rightarrow> WorkflowRun \<Rightarrow> pg_result" where
  "pg_UpdateWorkflowRun e net t run =
     update_reply (pool_exec net
       (texts e ([wr_State run, wr_ID run] @ opt_text (wr_ApprovedBy run)))
       (update_where workflow_runs (\<lambda>r. wr_ID r = wr_ID run)
          (\<lambda>r. r\<lparr>wr_State := wr_State run, wr_ApprovedBy := wr_ApprovedBy run,
             wr_StartedAt := map_option pg_time (wr_StartedAt run),
             wr_FinishedAt := map_option pg_time (wr_FinishedAt run)\<rparr>)) t)"

section \<open>Transfers\<close>

text \<open>\<open>CreateTransferRecord\<close> does not look for a conflict: it returns the driver's error.\<close>

definition pg_CreateTransferRecord ::
  "pg_env \<Rightarrow> round_trip \<Rightarrow> pg_tables \<Rightarrow> TransferRecord \<Rightarrow> pg_result" where
  "pg_CreateTransferRecord e net t tr =
     plain_reply (pool_exec net (texts e [tr_ID tr, tr_SessionID tr, tr_Basename tr, tr_State tr])
       (insert_into transfer_metadata (tr\<lparr>tr_CreatedAt := pg_time (tr_CreatedAt tr)\<rparr>)) t)"

definition pg_UpdateTransferRecord ::
  "pg_env \<Rightarrow> round_trip \<Rightarrow> pg_tables \<Rightarrow> TransferRecord \<Rightarrow> pg_result" where
  "pg_UpdateTransferRecord e net t tr =
     update_reply (pool_exec net (texts e [tr_State tr, tr_ID tr])
       (update_where transfer_metadata (\<lambda>r. tr_ID r = tr_ID tr)
          (\<lambda>r. r\<lparr>tr_State := tr_State tr\<rparr>)) t)"

section \<open>The expiry loop\<close>

text \<open>Errors are logged and do not keep the next statement from running.\<close>

definition expire_sessions :: "time \<Rightarrow> sql" where
  "expire_sessions now =
     update_where device_sessions
       (\<lambda>r. sr_state r \<in> {''pending'', ''active''} \<and> sr_expires_at r \<le> pg_time now)
       (\<lambda>r. r\<lparr>sr_state := ''expired'', sr_ended_at := Some (pg_time now)\<rparr>)"

definition runExpiry :: "(nat \<Rightarrow> round_trip) \<Rightarrow> time \<Rightarrow> pg_tables \<Rightarrow> pg_tables" where
  "runExpiry nets now t =
     (let t = fst (pool_exec (nets 0) True (expire_sessions now) t);
          t = fst (pool_exec (nets 1) True
            (delete_where refresh_tokens (\<lambda>r. rt_ExpiresAt r < pg_time (now - 24 * hour))) t);
          t = fst (pool_exec (nets 2) True
            (delete_where email_verification_tokens (\<lambda>r. et_ExpiresAt r < pg_time now)) t)
      in fst (pool_exec (nets 3) True
            (delete_where org_invites
               (\<lambda>r. iv_ExpiresAt r < pg_time now \<and> iv_AcceptedAt r = None)) t))"

text \<open>The loop as a function of the cases its \<open>select\<close> chooses.\<close>

datatype loop_case = Ticked time "nat \<Rightarrow> round_trip" | Cancelled

fun ExpireLoop :: "loop_case list \<Rightarrow> pg_tables \<Rightarrow> pg_tables" where
  "ExpireLoop [] t = t"
| "ExpireLoop (Cancelled # cs) t = t"
| "ExpireLoop (Ticked now nets # cs) t = ExpireLoop cs (runExpiry nets now t)"

section \<open>Opening the store\<close>

text \<open>\<open>NewPostgresStore\<close> gives a store only when the configuration parses, the pool opens and the
  server answers a ping; the outcomes of the three calls are its arguments.\<close>

record pool_config =
  pc_MaxConns :: int
  pc_MinConns :: int
  pc_MaxConnLifetime :: duration
  pc_MaxConnIdleTime :: duration

definition pool_limits :: "pool_config \<Rightarrow> pool_config" where
  "pool_limits cfg =
     cfg\<lparr>pc_MaxConns := 20, pc_MinConns := 2, pc_MaxConnLifetime := 30 * minute,
         pc_MaxConnIdleTime := 5 * minute\<rparr>"

definition NewPostgresStore ::
  "(string \<Rightarrow> pool_config option) \<Rightarrow> (pool_config \<Rightarrow> bool) \<Rightarrow> bool \<Rightarrow> string \<Rightarrow>
   store_error + pool_config" where
  "NewPostgresStore ParseConfig opens ping dsn =
     (case ParseConfig dsn of
        None \<Rightarrow> Inl ErrBackend
      | Some cfg \<Rightarrow>
          if opens (pool_limits cfg) \<and> ping then Inr (pool_limits cfg) else Inl ErrBackend)"

end
