(* ===== verification/Pg_Schema.thy ===== *)
theory Pg_Schema
  imports Pg_Store
begin

text \<open>
  What the statements keep of the schema. The locale \<open>schema_table\<close> states what the proofs need of
  a table (its rows are where it stores them, conflicts are symmetric, references survive as long as
  no identifier disappears); it is interpreted on each of the thirteen tables. \<open>pg_ok\<close> says that
  every table satisfies its constraints, \<open>keeps\<close> that a statement preserves that.
\<close>

section \<open>Tables that satisfy their constraints\<close>

definition table_ok :: "'r table \<Rightarrow> pg_tables \<Rightarrow> bool" where
  "table_ok T t \<longleftrightarrow>
     list_all (t_check T) (t_rows T t) \<and> sorted_wrt (\<lambda>a b. \<not> t_clash T a b) (t_rows T t) \<and>
     list_all (t_refs T t) (t_rows T t)"

text \<open>No identifier that a row may refer to disappears.\<close>

definition ids :: "('r \<Rightarrow> string) \<Rightarrow> 'r list \<Rightarrow> string set" where
  "ids key rows = key ` set rows"

lemma has_id_ids: "has_id key rows i \<longleftrightarrow> i \<in> ids key rows"
  by (auto simp: has_id_def ids_def list_ex_iff)

lemma ids_append: "ids key (xs @ ys) = ids key xs \<union> ids key ys"
  by (auto simp: ids_def)

lemma ids_map: "(\<And>r. key (f r) = key r) \<Longrightarrow> ids key (map f rows) = ids key rows"
  by (simp add: ids_def image_image)

definition grows :: "pg_tables \<Rightarrow> pg_tables \<Rightarrow> bool" where
  "grows t t' \<longleftrightarrow>
     ids ur_id (tb_users t) \<subseteq> ids ur_id (tb_users t') \<and>
     ids og_ID (tb_organizations t) \<subseteq> ids og_ID (tb_organizations t') \<and>
     ids dr_id (tb_devices t) \<subseteq> ids dr_id (tb_devices t') \<and>
     ids sr_id (tb_device_sessions t) \<subseteq> ids sr_id (tb_device_sessions t') \<and>
     ids wf_ID (tb_workflows t) \<subseteq> ids wf_ID (tb_workflows t')"

lemmas ref_defs = grows_def has_id_ids member_refs_def session_refs_def audit_refs_def
  workflow_refs_def run_refs_def

lemma sorted_wrt_snoc:
  "sorted_wrt P (xs @ [x]) \<longleftrightarrow> sorted_wrt P xs \<and> (\<forall>y \<in> set xs. P y x)"
  by (auto simp: sorted_wrt_append)

locale schema_table =
  fixes T :: "'r table" and row_key :: "'r \<Rightarrow> string"
  assumes rows_store: "t_rows T (t_store T rs t) = rs"
    and refs_grow: "grows t t' \<Longrightarrow> t_refs T t r \<Longrightarrow> t_refs T t' r"
    and append_grows: "grows t (t_store T (t_rows T t @ [r]) t)"
    and map_grows: "(\<And>r. row_key (f r) = row_key r) \<Longrightarrow> grows t (t_store T (map f (t_rows T t)) t)"
begin

lemma insert_ok:
  assumes "table_ok T t" and "insert_into T r t = Inr (n, t')"
  shows "table_ok T t' \<and> grows t t' \<and> t' = t_store T (t_rows T t @ [r]) t"
proof -
  from assms(2) have t': "t' = t_store T (t_rows T t @ [r]) t" and c: "t_check T r"
    and f: "\<forall>x \<in> set (t_rows T t). \<not> t_clash T x r" and refs: "t_refs T t r"
    by (auto simp: insert_into_def list_ex_iff split: if_splits)
  have g: "grows t t'" using append_grows by (simp add: t')
  have "t_refs T t' x" if "x \<in> set (t_rows T t @ [r])" for x
    using that assms(1) refs refs_grow[OF g] by (auto simp: table_ok_def list_all_iff)
  then show ?thesis
    using assms(1) c f g unfolding table_ok_def
    by (auto simp: t' rows_store sorted_wrt_snoc list_all_iff)
qed

lemma update_ok:
  assumes ok: "table_ok T t" and upd: "update_where T P f t = Inr (n, t')"
    and key: "\<And>r. row_key (f r) = row_key r"
  shows "table_ok T t' \<and> grows t t' \<and> t' = t_store T (map (\<lambda>r. if P r then f r else r) (t_rows T t)) t"
proof -
  let ?m = "\<lambda>r. if P r then f r else r"
  from upd have t': "t' = t_store T (map ?m (t_rows T t)) t"
    and c: "\<forall>r \<in> set (t_rows T t). P r \<longrightarrow> t_check T (f r)"
    and u: "sorted_wrt (\<lambda>a b. \<not> t_clash T a b) (map ?m (t_rows T t))"
    and refs: "\<forall>r \<in> set (t_rows T t). P r \<longrightarrow> t_refs T t (f r)"
    by (auto simp: update_where_def Let_def list_all_iff split: if_splits)
  have g: "grows t t'" unfolding t' by (rule map_grows) (simp add: key)
  have "list_all (t_refs T t') (map ?m (t_rows T t))"
    using ok refs refs_grow[OF g] by (auto simp: table_ok_def list_all_iff)
  moreover have "list_all (t_check T) (map ?m (t_rows T t))"
    using ok c by (auto simp: table_ok_def list_all_iff)
  moreover have "t_rows T t' = map ?m (t_rows T t)" by (simp add: t' rows_store)
  ultimately show ?thesis using u g t' by (simp only: table_ok_def simp_thms)
qed

lemma other_ok: "table_ok T t \<Longrightarrow> grows t t' \<Longrightarrow> t_rows T t' = t_rows T t \<Longrightarrow> table_ok T t'"
  by (auto simp: table_ok_def list_all_iff refs_grow)

text \<open>At most one row of a table that satisfies its keys conflicts with itself in a key, whatever
  the order of the rows.\<close>

lemma one_row:
  assumes "table_ok T t" and "r \<in> set (t_rows T t)" and "\<And>x. x \<in> set (t_rows T t) \<Longrightarrow> P x \<Longrightarrow> t_clash T x r \<and> t_clash T r x"
    and "P r"
  shows "filter P (t_rows T t) = [r]"
proof -
  from assms(2) obtain xs ys where rows: "t_rows T t = xs @ r # ys" by (meson split_list)
  have "\<forall>x \<in> set xs. \<not> t_clash T x r" "\<forall>x \<in> set ys. \<not> t_clash T r x"
    using assms(1) by (auto simp: table_ok_def rows sorted_wrt_append)
  then have "filter P xs = []" "filter P ys = []"
    using assms(3) by (auto simp: rows filter_empty_conv)
  then show ?thesis using assms(4) by (simp add: rows)
qed

end

text \<open>A table that no other table refers to: its rows can also be deleted.\<close>

locale leaf_table =
  fixes T :: "'r table"
  assumes leaf_rows: "t_rows T (t_store T rs t) = rs"
    and leaf_refs: "grows t t' \<Longrightarrow> t_refs T t r \<Longrightarrow> t_refs T t' r"
    and leaf_grows: "grows t (t_store T rs t)"

sublocale leaf_table \<subseteq> schema_table T "\<lambda>r. []"
  by unfold_locales (auto intro: leaf_rows leaf_refs leaf_grows)

context leaf_table begin

lemma delete_ok:
  assumes "table_ok T t" and "delete_where T P t = Inr (n, t')"
  shows "table_ok T t' \<and> grows t t' \<and> t' = t_store T (filter (\<lambda>r. \<not> P r) (t_rows T t)) t"
proof -
  from assms(2) have t': "t' = t_store T (filter (\<lambda>r. \<not> P r) (t_rows T t)) t"
    by (auto simp: delete_where_def split: if_splits)
  have g: "grows t t'" unfolding t' by (rule leaf_grows)
  show ?thesis
    using assms(1) leaf_refs[OF g] g
    by (auto simp: table_ok_def t' leaf_rows list_all_iff sorted_wrt_filter)
qed

end

section \<open>The thirteen tables\<close>

interpretation users: schema_table "users e" ur_id for e
  by unfold_locales (auto simp: users_def ref_defs ids_append ids_map)

interpretation orgs: schema_table organizations og_ID
  by unfold_locales (auto simp: organizations_def ref_defs ids_append ids_map)

interpretation members: leaf_table memberships
  by unfold_locales (auto simp: memberships_def ref_defs)

interpretation devs: schema_table devices dr_id
  by unfold_locales (auto simp: devices_def ref_defs ids_append ids_map)

interpretation refreshes: leaf_table refresh_tokens
  by unfold_locales (auto simp: refresh_tokens_def ref_defs)

interpretation sessions: schema_table device_sessions sr_id
  by unfold_locales (auto simp: device_sessions_def ref_defs ids_append ids_map)

interpretation audits: leaf_table audit_events
  by unfold_locales (auto simp: audit_events_def ref_defs split: option.splits)

interpretation transfers: leaf_table transfer_metadata
  by unfold_locales (auto simp: transfer_metadata_def ref_defs)

interpretation wfs: schema_table workflows wf_ID
  by unfold_locales (auto simp: workflows_def ref_defs ids_append ids_map)

interpretation runs: leaf_table workflow_runs
  by unfold_locales (auto simp: workflow_runs_def ref_defs split: option.splits)

interpretation factors: leaf_table second_factors
  by unfold_locales (auto simp: second_factors_def ref_defs)

interpretation invites: leaf_table org_invites
  by unfold_locales (auto simp: org_invites_def ref_defs)

interpretation etokens: leaf_table email_verification_tokens
  by unfold_locales (auto simp: email_verification_tokens_def ref_defs)

end
