(* ===== verification/Pg_Run.thy ===== *)
theory Pg_Run
  imports Pg_Schema
begin

text \<open>
  Runs of the PostgreSQL store: a step is a call of one method with any arguments, any outcomes of
  its round trips and any clock. In every database reached from the migrated one all constraints
  hold (\<open>pg_reach_ok\<close>) and the stored texts and numbers can be read back (\<open>pg_reach_data\<close>).
\<close>

section \<open>Outcomes of statements\<close>

lemma insert_into_Inr:
  "insert_into T r t = Inr (n, t') \<longleftrightarrow>
     t_exists T t \<and> t_check T r \<and> (\<forall>x \<in> set (t_rows T t). \<not> t_clash T x r) \<and> t_refs T t r \<and>
     n = 1 \<and> t' = t_store T (t_rows T t @ [r]) t"
  by (auto simp: insert_into_def list_ex_iff)

lemma update_where_InrD:
  "update_where T P f t = Inr (n, t') \<Longrightarrow>
     n = length (filter P (t_rows T t)) \<and>
     t' = t_store T (map (\<lambda>r. if P r then f r else r) (t_rows T t)) t"
  by (auto simp: update_where_def Let_def split: if_splits)

lemma delete_where_InrD:
  "delete_where T P t = Inr (n, t') \<Longrightarrow>
     n = length (filter P (t_rows T t)) \<and> t' = t_store T (filter (\<lambda>r. \<not> P r) (t_rows T t)) t"
  by (auto simp: delete_where_def split: if_splits)

section \<open>Stable properties\<close>

text \<open>A property of the tables is stable under a statement when no outcome of it breaks the
  property; steps then keep it whatever the round trips do.\<close>

definition preserves :: "(pg_tables \<Rightarrow> bool) \<Rightarrow> sql \<Rightarrow> bool" where
  "preserves Q stmt \<longleftrightarrow> (\<forall>t n t'. Q t \<longrightarrow> stmt t = Inr (n, t') \<longrightarrow> Q t')"

lemma stable_pool: "preserves Q stmt \<Longrightarrow> Q t \<Longrightarrow> Q (fst (pool_exec net enc stmt t))"
  by (auto simp: pool_exec_def preserves_def split: sum.splits)

lemma stable_error: "preserves Q (\<lambda>t. Inl err)" and stable_same: "preserves Q (\<lambda>t. Inr (n, t))"
  by (simp_all add: preserves_def)

lemma stable_if: "preserves Q a \<Longrightarrow> preserves Q b \<Longrightarrow> preserves Q (\<lambda>t. if c t then a t else b t)"
  unfolding preserves_def by (intro allI impI) (metis (full_types))

lemma stable_optional:
  "(\<And>x. preserves Q (f x)) \<Longrightarrow> preserves Q (\<lambda>t. case y of None \<Rightarrow> Inl err | Some x \<Rightarrow> f x t)"
  by (cases y) (simp_all add: stable_error)

lemma stable_insert: "(\<And>t. Q t \<Longrightarrow> Q (t_store T (t_rows T t @ [r]) t)) \<Longrightarrow> preserves Q (insert_into T r)"
  by (auto simp: preserves_def insert_into_Inr)

lemma stable_update:
  "(\<And>t. Q t \<Longrightarrow> Q (t_store T (map (\<lambda>r. if P r then f r else r) (t_rows T t)) t)) \<Longrightarrow>
   preserves Q (update_where T P f)"
  by (auto simp: preserves_def dest!: update_where_InrD)

lemma stable_delete:
  "(\<And>t. Q t \<Longrightarrow> Q (t_store T (filter (\<lambda>r. \<not> P r) (t_rows T t)) t)) \<Longrightarrow>
   preserves Q (delete_where T P)"
  by (auto simp: preserves_def dest!: delete_where_InrD)

lemma stable_or_nothing: "preserves Q (insert_into T r) \<Longrightarrow> preserves Q (insert_or_nothing T r)"
  unfolding insert_or_nothing_def[abs_def] by (intro stable_if stable_same)

lemma stable_or_update:
  "preserves Q (insert_into T r) \<Longrightarrow> preserves Q (update_where T (\<lambda>x. t_clash T x r) f) \<Longrightarrow>
   preserves Q (insert_or_update T r f)"
  unfolding insert_or_update_def[abs_def] by (rule stable_if)

lemmas stable_intros = stable_error stable_same stable_if stable_optional stable_insert stable_update
  stable_delete stable_or_nothing stable_or_update

definition tx_stable :: "(pg_tables \<Rightarrow> bool) \<Rightarrow> pg_tables option \<Rightarrow> bool" where
  "tx_stable Q w \<longleftrightarrow> (\<forall>t. w = Some t \<longrightarrow> Q t)"

lemma tx_stable_exec: "preserves Q stmt \<Longrightarrow> tx_stable Q w \<Longrightarrow> tx_stable Q (fst (tx_exec net enc stmt w))"
  by (auto simp: tx_exec_def tx_stable_def preserves_def split: option.splits sum.splits)

lemma withTx_from_inv:
  assumes body: "\<And>n t u. Q t \<Longrightarrow> fn n (Some t) = (Some u, None) \<Longrightarrow> Q u"
  shows "Q t \<Longrightarrow> Q (fst (withTx_from nets fn k left t))"
proof (induction left arbitrary: k t)
  case (Suc left)
  obtain w err where fn: "fn (tx_stmt (nets k)) (Some t) = (w, err)" by fastforce
  have "Q (case w of None \<Rightarrow> t | Some u \<Rightarrow> if tx_commit (nets k) = NotSent then t else u)"
    if "err = None" using Suc.prems body[of t] fn that by (cases w) auto
  then show ?case
    using Suc fn by (cases err) (simp_all add: Let_def split: option.splits)
qed simp

lemma withTx_stable:
  assumes "\<And>n w. tx_stable Q w \<Longrightarrow> tx_stable Q (fst (fn n w))" and "Q t"
  shows "Q (fst (withTx nets fn t))"
  unfolding withTx_def
proof (rule withTx_from_inv)
  fix n t u assume "Q t" and "fn n (Some t) = (Some u, None)"
  then show "Q u" using assms(1)[of "Some t" n] by (simp add: tx_stable_def)
qed (rule assms(2))

section \<open>All constraints\<close>

definition pg_ok :: "pg_env \<Rightarrow> pg_tables \<Rightarrow> bool" where
  "pg_ok e t \<longleftrightarrow>
     table_ok (users e) t \<and> table_ok organizations t \<and> table_ok memberships t \<and>
     table_ok devices t \<and> table_ok refresh_tokens t \<and> table_ok device_sessions t \<and>
     table_ok audit_events t \<and> table_ok transfer_metadata t \<and> table_ok workflows t \<and>
     table_ok workflow_runs t \<and> table_ok second_factors t \<and> table_ok org_invites t \<and>
     table_ok email_verification_tokens t"

lemma t_rows_simps [simp]:
  "t_rows (users e) = tb_users" "t_rows organizations = tb_organizations"
  "t_rows memberships = tb_memberships" "t_rows devices = tb_devices"
  "t_rows refresh_tokens = tb_refresh_tokens" "t_rows device_sessions = tb_device_sessions"
  "t_rows audit_events = tb_audit_events" "t_rows transfer_metadata = tb_transfer_metadata"
  "t_rows workflows = tb_workflows" "t_rows workflow_runs = tb_workflow_runs"
  "t_rows second_factors = tb_second_factors" "t_rows org_invites = tb_org_invites"
  by (simp_all add: table_defs)

lemma t_rows_etokens:
  "t_rows email_verification_tokens t =
     (case tb_email_verification_tokens t of None \<Rightarrow> [] | Some rs \<Rightarrow> rs)"
  by (simp add: email_verification_tokens_def)

lemma t_store_simps [simp]:
  "t_store (users e) rs t = t\<lparr>tb_users := rs\<rparr>"
  "t_store organizations gs t = t\<lparr>tb_organizations := gs\<rparr>"
  "t_store memberships ms t = t\<lparr>tb_memberships := ms\<rparr>"
  "t_store devices ds t = t\<lparr>tb_devices := ds\<rparr>"
  "t_store refresh_tokens fs t = t\<lparr>tb_refresh_tokens := fs\<rparr>"
  "t_store device_sessions ss t = t\<lparr>tb_device_sessions := ss\<rparr>"
  "t_store audit_events as t = t\<lparr>tb_audit_events := as\<rparr>"
  "t_store transfer_metadata ts t = t\<lparr>tb_transfer_metadata := ts\<rparr>"
  "t_store workflows ws t = t\<lparr>tb_workflows := ws\<rparr>"
  "t_store workflow_runs us t = t\<lparr>tb_workflow_runs := us\<rparr>"
  "t_store second_factors cs t = t\<lparr>tb_second_factors := cs\<rparr>"
  "t_store org_invites is t = t\<lparr>tb_org_invites := is\<rparr>"
  "t_store email_verification_tokens es t = t\<lparr>tb_email_verification_tokens := Some es\<rparr>"
  by (simp_all add: table_defs)

lemma t_exists_simps [simp]:
  "t_exists (users e) t" "t_exists organizations t" "t_exists memberships t" "t_exists devices t"
  "t_exists refresh_tokens t" "t_exists device_sessions t" "t_exists audit_events t"
  "t_exists transfer_metadata t" "t_exists workflows t" "t_exists workflow_runs t"
  "t_exists second_factors t" "t_exists org_invites t"
  "t_exists email_verification_tokens t \<longleftrightarrow> tb_email_verification_tokens t \<noteq> None"
  by (simp_all add: table_defs)

lemmas others_ok = users.other_ok orgs.other_ok members.other_ok devs.other_ok
  refreshes.other_ok sessions.other_ok audits.other_ok transfers.other_ok wfs.other_ok
  runs.other_ok factors.other_ok invites.other_ok etokens.other_ok

text \<open>A table is framed when rewriting it, with its own constraints kept, keeps all the others.\<close>

definition framed :: "pg_env \<Rightarrow> 'r table \<Rightarrow> bool" where
  "framed e T \<longleftrightarrow>
     (\<forall>t. pg_ok e t \<longrightarrow> table_ok T t) \<and>
     (\<forall>t t' rs. pg_ok e t \<and> table_ok T t' \<and> grows t t' \<and> t' = t_store T rs t \<longrightarrow> pg_ok e t')"

lemma framedI:
  assumes "\<And>t. pg_ok e t \<Longrightarrow> table_ok T t"
    and "\<And>t rs. pg_ok e t \<Longrightarrow> table_ok T (t_store T rs t) \<Longrightarrow> grows t (t_store T rs t) \<Longrightarrow>
      pg_ok e (t_store T rs t)"
  shows "framed e T"
  using assms by (auto simp: framed_def)

lemma framed_tables [intro, simp]:
  "framed e (users e)" "framed e organizations" "framed e memberships" "framed e devices"
  "framed e refresh_tokens" "framed e device_sessions" "framed e audit_events"
  "framed e transfer_metadata" "framed e workflows" "framed e workflow_runs"
  "framed e second_factors" "framed e org_invites" "framed e email_verification_tokens"
  by (rule framedI; auto simp: pg_ok_def t_rows_etokens intro: others_ok)+

section \<open>Runs\<close>

inductive pg_step :: "pg_env \<Rightarrow> pg_tables \<Rightarrow> pg_tables \<Rightarrow> bool" for e where
  step_CreateAccount: "pg_step e t (fst (pg_CreateAccount e net now t ident email name passwordHash))"
| step_UpdateAccountVersion: "pg_step e t (fst (pg_UpdateAccountVersion e net t userID))"
| step_SetEmailVerified: "pg_step e t (fst (pg_SetEmailVerified e net t userID at))"
| step_UpdatePassword: "pg_step e t (fst (pg_UpdatePassword e net t userID passwordHash))"
| step_CreateRefreshToken: "pg_step e t (fst (pg_CreateRefreshToken e net t hash userID familyID expires))"
| step_MarkRefreshTokenUsed: "pg_step e t (fst (pg_MarkRefreshTokenUsed e net t hash at))"
| step_RevokeFamily: "pg_step e t (fst (pg_RevokeFamily e net now t familyID))"
| step_CreateDevice: "pg_step e t (fst (pg_CreateDevice e net now t d))"
| step_UpdateDevice: "pg_step e t (fst (pg_UpdateDevice e net t d))"
| step_RevokeDevice: "pg_step e t (fst (pg_RevokeDevice e net t ident at))"
| step_CreateSession: "pg_step e t (fst (pg_CreateSession e net t s))"
| step_UpdateSession: "pg_step e t (fst (pg_UpdateSession e net t s))"
| step_CreateAudit: "pg_step e t (fst (pg_CreateAudit e net t ev))"
| step_CreateSecondFactor: "pg_step e t (fst (pg_CreateSecondFactor e nets t ident userID kind secret))"
| step_VerifySecondFactor: "pg_step e t (fst (pg_VerifySecondFactor e net t ident at))"
| step_DeleteSecondFactor: "pg_step e t (fst (pg_DeleteSecondFactor e net t userID))"
| step_CreateEmailToken: "pg_step e t (fst (pg_CreateEmailToken e net t tokenHash userID kind expires))"
| step_DeleteEmailToken: "pg_step e t (fst (pg_DeleteEmailToken e net t tokenHash))"
| step_CreateOrganization: "pg_step e t (fst (pg_CreateOrganization e nets t o'))"
| step_CreateMembership: "pg_step e t (fst (pg_CreateMembership e net t orgID userID role until))"
| step_UpdateMemberRole: "pg_step e t (fst (pg_UpdateMemberRole e net t orgID userID role))"
| step_RemoveMembership: "pg_step e t (fst (pg_RemoveMembership e net t orgID userID))"
| step_CreateInvite: "pg_step e t (fst (pg_CreateInvite e net t i))"
| step_AcceptInvite: "pg_step e t (fst (pg_AcceptInvite e net t tokenHash at))"
| step_CreateWorkflow: "pg_step e t (fst (pg_CreateWorkflow e net t w))"
| step_UpdateWorkflow: "pg_step e t (fst (pg_UpdateWorkflow e net t w))"
| step_CreateWorkflowRun: "pg_step e t (fst (pg_CreateWorkflowRun e net t run))"
| step_UpdateWorkflowRun: "pg_step e t (fst (pg_UpdateWorkflowRun e net t run))"
| step_CreateTransferRecord: "pg_step e t (fst (pg_CreateTransferRecord e net t tr))"
| step_UpdateTransferRecord: "pg_step e t (fst (pg_UpdateTransferRecord e net t tr))"
| step_runExpiry: "pg_step e t (runExpiry results now t)"

inductive pg_reach :: "pg_env \<Rightarrow> pg_tables \<Rightarrow> bool" for e where
  start: "pg_reach e migrated"
| step: "pg_reach e t \<Longrightarrow> pg_step e t t' \<Longrightarrow> pg_reach e t'"

lemmas pg_method_defs =
  pg_CreateAccount_def pg_UpdateAccountVersion_def pg_SetEmailVerified_def pg_UpdatePassword_def
  pg_CreateRefreshToken_def pg_MarkRefreshTokenUsed_def pg_RevokeFamily_def pg_CreateDevice_def
  pg_UpdateDevice_def pg_RevokeDevice_def pg_CreateSession_def pg_UpdateSession_def
  pg_CreateAudit_def pg_VerifySecondFactor_def pg_DeleteSecondFactor_def pg_CreateEmailToken_def
  pg_DeleteEmailToken_def pg_CreateMembership_def pg_UpdateMemberRole_def pg_RemoveMembership_def
  pg_CreateInvite_def pg_AcceptInvite_def pg_CreateWorkflow_def pg_UpdateWorkflow_def
  pg_CreateWorkflowRun_def pg_UpdateWorkflowRun_def pg_CreateTransferRecord_def
  pg_UpdateTransferRecord_def

section \<open>The statements of the methods\<close>

text \<open>Every statement a method runs, with what is known of its arguments. \<open>pg_step_stable\<close> below
  reduces a property of steps to these.\<close>

inductive pg_stmt :: "pg_env \<Rightarrow> sql \<Rightarrow> bool" for e where
  st_error: "pg_stmt e (\<lambda>t. Inl err)"
| st_same: "pg_stmt e (\<lambda>t. Inr (n, t))"
| st_if: "pg_stmt e a \<Longrightarrow> pg_stmt e b \<Longrightarrow> pg_stmt e (\<lambda>t. if c t then a t else b t)"
| st_user: "ur_password_hash u = hex_encode h \<Longrightarrow> ur_token_version u = 0 \<Longrightarrow>
    pg_stmt e (insert_into (users e) u)"
| st_version: "pg_stmt e (bump_version e i (\<lambda>u. u))"
| st_password: "pg_stmt e (bump_version e i (\<lambda>u. u\<lparr>ur_password_hash := hex_encode h\<rparr>))"
| st_verified: "pg_stmt e (update_where (users e) P (\<lambda>u. u\<lparr>ur_email_verified_at := v\<rparr>))"
| st_refresh: "rt_UsedAt r = None \<Longrightarrow> rt_RevokedAt r = None \<Longrightarrow>
    pg_stmt e (insert_into refresh_tokens r)"
| st_used: "pg_stmt e (update_where refresh_tokens P (\<lambda>r. r\<lparr>rt_UsedAt := Some v\<rparr>))"
| st_family: "pg_stmt e (update_where refresh_tokens P
    (\<lambda>r. r\<lparr>rt_UsedAt := Some v, rt_RevokedAt := Some v\<rparr>))"
| st_unrefresh: "pg_stmt e (delete_where refresh_tokens P)"
| st_device: "pg_stmt e (insert_into devices d)"
| st_rename: "pg_stmt e (update_where devices P (\<lambda>r. r\<lparr>dr_name := n, dr_os := x\<rparr>))"
| st_revoke: "pg_stmt e (update_where devices P (\<lambda>r. r\<lparr>dr_revoked_at := Some v\<rparr>))"
| st_session: "0 \<le> sr_epoch s \<and> sr_epoch s < 2 ^ 64 \<Longrightarrow> pg_stmt e (insert_into device_sessions s)"
| st_change: "0 \<le> p \<and> p < 2 ^ 64 \<Longrightarrow> pg_stmt e (update_where device_sessions (\<lambda>r. sr_id r = i)
    (\<lambda>r. r\<lparr>sr_state := st, sr_granted_permissions := g, sr_epoch := p, sr_expires_at := x,
      sr_ended_at := en, sr_recording_consent := rc, sr_chat_enabled := ce\<rparr>))"
| st_expire: "pg_stmt e (expire_sessions now)"
| st_audit: "pg_stmt e (insert_into audit_events a)"
| st_factor: "sf_VerifiedAt c = None \<Longrightarrow> pg_stmt e (insert_into second_factors c)"
| st_confirm: "pg_stmt e (update_where second_factors P (\<lambda>r. r\<lparr>sf_VerifiedAt := Some v\<rparr>))"
| st_unfactor: "pg_stmt e (delete_where second_factors P)"
| st_etoken: "pg_stmt e (insert_or_nothing email_verification_tokens k)"
| st_unetoken: "pg_stmt e (delete_where email_verification_tokens P)"
| st_org: "pg_stmt e (insert_into organizations g)"
| st_owner: "pg_stmt e (insert_or_nothing memberships m)"
| st_member: "pg_stmt e (insert_or_update memberships m (\<lambda>r. r\<lparr>mb_Role := x, mb_ExpiresAt := v\<rparr>))"
| st_role: "pg_stmt e (update_where memberships P (\<lambda>r. r\<lparr>mb_Role := x\<rparr>))"
| st_unmember: "pg_stmt e (delete_where memberships P)"
| st_invite: "iv_AcceptedAt v = None \<Longrightarrow> pg_stmt e (insert_into org_invites v)"
| st_accept: "pg_stmt e (update_where org_invites (\<lambda>r. iv_TokenHash r = h \<and> iv_AcceptedAt r = None)
    (\<lambda>r. r\<lparr>iv_AcceptedAt := Some x\<rparr>))"
| st_uninvite: "pg_stmt e (delete_where org_invites (\<lambda>r. iv_ExpiresAt r < x \<and> iv_AcceptedAt r = None))"
| st_workflow: "pg_stmt e (insert_into workflows w)"
| st_edit: "pg_stmt e (update_where workflows P (\<lambda>r. r\<lparr>wf_Name := n, wf_Definition := x,
    wf_RequiredPermissions := ps, wf_Enabled := b\<rparr>))"
| st_run: "pg_stmt e (insert_into workflow_runs r)"
| st_progress: "pg_stmt e (update_where workflow_runs P (\<lambda>r. r\<lparr>wr_State := x, wr_ApprovedBy := a,
    wr_StartedAt := sa, wr_FinishedAt := fa\<rparr>))"
| st_transfer: "pg_stmt e (insert_into transfer_metadata f)"
| st_outcome: "pg_stmt e (update_where transfer_metadata P (\<lambda>r. r\<lparr>tr_State := x\<rparr>))"

lemma st_optional:
  "(\<And>x. pg_stmt e (f x)) \<Longrightarrow> pg_stmt e (\<lambda>t. case y of None \<Rightarrow> Inl err | Some x \<Rightarrow> f x t)"
  by (cases y) (simp_all add: st_error)

text \<open>What every statement preserves, every step preserves.\<close>

definition all_stable :: "pg_env \<Rightarrow> (pg_tables \<Rightarrow> bool) \<Rightarrow> bool" where
  "all_stable e Q \<longleftrightarrow> (\<forall>stmt. pg_stmt e stmt \<longrightarrow> preserves Q stmt)"

lemma stmt_pool:
  "all_stable e Q \<Longrightarrow> pg_stmt e stmt \<Longrightarrow> Q t \<Longrightarrow> Q (fst (pool_exec net enc stmt t))"
  unfolding all_stable_def using stable_pool by blast

lemma stmt_tx:
  "all_stable e Q \<Longrightarrow> pg_stmt e stmt \<Longrightarrow> tx_stable Q w \<Longrightarrow> tx_stable Q (fst (tx_exec net enc stmt w))"
  unfolding all_stable_def using tx_stable_exec by blast

lemma fst_replies [simp]:
  "fst (create_reply r) = fst r" "fst (update_reply r) = fst r" "fst (plain_reply r) = fst r"
  by (simp_all add: create_reply_def update_reply_def plain_reply_def)

lemma CreateSecondFactor_tx_stable:
  "all_stable e Q \<Longrightarrow> tx_stable Q w \<Longrightarrow>
   tx_stable Q (fst (CreateSecondFactor_tx e ident userID kind secret n w))"
  unfolding CreateSecondFactor_tx_def
  by (simp add: case_prod_beta Let_def) (intro stmt_tx st_if st_error st_factor st_unfactor; simp)

lemma CreateOrganization_tx_stable:
  assumes all: "all_stable e Q" and w: "tx_stable Q w"
  shows "tx_stable Q (fst (CreateOrganization_tx e o' n w))"
proof -
  let ?i = "create_reply (tx_exec (n 0) (texts e [og_ID o', og_Name o', og_OwnerID o'])
      (insert_into organizations (o'\<lparr>og_CreatedAt := pg_time (og_CreatedAt o')\<rparr>)) w)"
  have i: "tx_stable Q (fst ?i)" using w by (simp add: stmt_tx[OF all st_org])
  show ?thesis
    using i by (cases ?i; cases "snd ?i")
      (simp_all add: CreateOrganization_tx_def stmt_tx[OF all st_owner])
qed

lemma runExpiry_stable: "all_stable e Q \<Longrightarrow> Q t \<Longrightarrow> Q (runExpiry results now t)"
  unfolding runExpiry_def Let_def
  by (intro stmt_pool[of e Q] st_expire pg_stmt.intros)

lemmas st_intros = pg_stmt.intros st_optional

lemma pg_step_stable: "pg_step e t t' \<Longrightarrow> all_stable e Q \<Longrightarrow> Q t \<Longrightarrow> Q t'"
proof (induction rule: pg_step.cases)
  case (step_CreateDevice t0 net now d)
  then show ?case
    by (auto simp: pg_CreateDevice_def split: sum.splits intro!: stmt_pool[of e Q] st_device)
next
  case (step_CreateSecondFactor t0 nets ident userID kind secret)
  then show ?case
    by (simp add: pg_CreateSecondFactor_def withTx_stable CreateSecondFactor_tx_stable)
next
  case (step_CreateOrganization t0 nets o')
  then show ?case
    by (simp add: pg_CreateOrganization_def withTx_stable CreateOrganization_tx_stable)
next
  case (step_runExpiry t0 results now)
  then show ?case by (simp add: runExpiry_stable)
next
  case (step_CreateSession t0 net s)
  then show ?case using uint_bounded[of "ss_Epoch s"]
    by (simp add: pg_CreateSession_def) (intro stmt_pool[of e Q] st_if st_error st_session; simp)
next
  case (step_UpdateSession t0 net s)
  then show ?case using uint_bounded[of "ss_Epoch s"]
    by (simp add: pg_UpdateSession_def) (intro stmt_pool[of e Q] st_if st_error st_change; simp)
qed (simp_all add: pg_method_defs, (rule stmt_pool[of e Q], assumption, (intro st_intros; simp),
    assumption)+)

lemma pg_reach_stable: "all_stable e Q \<Longrightarrow> Q migrated \<Longrightarrow> pg_reach e t \<Longrightarrow> Q t"
  by (rotate_tac 2, induction rule: pg_reach.induct) (auto intro: pg_step_stable)

lemma all_stableI:
  assumes "\<And>stmt. pg_stmt e stmt \<Longrightarrow> preserves Q stmt"
  shows "all_stable e Q"
  using assms by (simp add: all_stable_def)

section \<open>Constraints hold in every database reached\<close>

context schema_table begin

lemma stable_insert_ok: "framed e T \<Longrightarrow> preserves (pg_ok e) (insert_into T r)"
  unfolding preserves_def framed_def using insert_ok by blast

lemma stable_update_ok:
  "framed e T \<Longrightarrow> (\<And>r. row_key (f r) = row_key r) \<Longrightarrow> preserves (pg_ok e) (update_where T P f)"
  unfolding preserves_def framed_def using update_ok by blast

end

context leaf_table begin

lemma stable_delete_ok: "framed e T \<Longrightarrow> preserves (pg_ok e) (delete_where T P)"
  unfolding preserves_def framed_def using delete_ok by blast

end

lemmas inserts_ok = users.stable_insert_ok orgs.stable_insert_ok members.stable_insert_ok
  devs.stable_insert_ok refreshes.stable_insert_ok sessions.stable_insert_ok
  audits.stable_insert_ok transfers.stable_insert_ok wfs.stable_insert_ok runs.stable_insert_ok
  factors.stable_insert_ok invites.stable_insert_ok etokens.stable_insert_ok

lemmas updates_ok = users.stable_update_ok orgs.stable_update_ok members.stable_update_ok
  devs.stable_update_ok refreshes.stable_update_ok sessions.stable_update_ok
  audits.stable_update_ok transfers.stable_update_ok wfs.stable_update_ok runs.stable_update_ok
  factors.stable_update_ok invites.stable_update_ok etokens.stable_update_ok

lemmas deletes_ok = members.stable_delete_ok refreshes.stable_delete_ok factors.stable_delete_ok
  invites.stable_delete_ok etokens.stable_delete_ok

lemma stmts_ok: "all_stable e (pg_ok e)"
proof (rule all_stableI)
  fix stmt assume "pg_stmt e stmt"
  then show "preserves (pg_ok e) stmt"
  proof (induction rule: pg_stmt.induct)
    case (st_if a b c)
    then show ?case by (intro stable_if)
  next
    case (st_version i)
    show ?case
      unfolding bump_version_def[abs_def]
      by (intro stable_if stable_error users.stable_update_ok) auto
  next
    case (st_password i h)
    show ?case
      unfolding bump_version_def[abs_def]
      by (intro stable_if stable_error users.stable_update_ok) auto
  next
    case (st_expire now)
    show ?case unfolding expire_sessions_def by (rule sessions.stable_update_ok) simp_all
  qed ((intro stable_error stable_same stable_or_nothing
      stable_or_update inserts_ok updates_ok deletes_ok; simp; fail)+)
qed

lemma pg_ok_migrated: "pg_ok e migrated"
  by (simp add: pg_ok_def table_ok_def migrated_def t_rows_etokens)

lemma pg_reach_ok: "pg_reach e t \<Longrightarrow> pg_ok e t"
  by (rule pg_reach_stable[OF stmts_ok pg_ok_migrated])

end
