(* ===== verification/Pg_Safety.thy ===== *)
theory Pg_Safety
  imports Pg_Run "HOL-Library.Multiset"
begin

text \<open>
  Lemmas on the PostgreSQL store for its properties: what a lookup by a key finds, the stored data
  that the methods read back, and facts that no later step undoes.
\<close>

section \<open>Lookups\<close>

text \<open>The scan of a table meets each row once.\<close>

definition scan_ok :: "pg_env \<Rightarrow> bool" where
  "scan_ok e \<longleftrightarrow> (\<forall>n. mset (pe_scan e n) = mset [0..<n])"

lemma mset_scan:
  assumes "scan_ok e"
  shows "mset (scan e rows) = mset rows"
proof -
  have m: "mset (pe_scan e (length rows)) = mset [0..<length rows]"
    using assms by (simp add: scan_ok_def)
  then have "set (pe_scan e (length rows)) = {0..<length rows}"
    by (metis set_mset_mset set_upt)
  then have "filter (\<lambda>i. i < length rows) (pe_scan e (length rows)) = pe_scan e (length rows)"
    by (simp add: filter_id_conv)
  then have "mset (scan e rows) = image_mset (nth rows) (mset [0..<length rows])"
    by (simp only: scan_def m mset_map)
  also have "\<dots> = mset rows" by (metis map_nth mset_map)
  finally show ?thesis .
qed

lemma set_scan: "scan_ok e \<Longrightarrow> set (scan e rows) = set rows"
  by (metis mset_scan set_mset_mset)

lemma select_none:
  "t_exists T t \<Longrightarrow> scan_ok e \<Longrightarrow> (\<And>x. x \<in> set (t_rows T t) \<Longrightarrow> \<not> P x) \<Longrightarrow>
   select_where e T P t = Inr []"
  by (simp add: select_where_def filter_empty_conv set_scan)

context schema_table begin

lemma select_one:
  assumes "table_ok T t" and "t_exists T t" and "scan_ok e" and "r \<in> set (t_rows T t)" and "P r"
    and "\<And>x. x \<in> set (t_rows T t) \<Longrightarrow> P x \<Longrightarrow> t_clash T x r \<and> t_clash T r x"
  shows "select_where e T P t = Inr [r]"
proof -
  have "mset (filter P (scan e (t_rows T t))) = mset (filter P (t_rows T t))"
    by (simp add: mset_filter mset_scan[OF assms(3)])
  also have "filter P (t_rows T t) = [r]" by (rule one_row[OF assms(1,4) assms(6), of P]; simp add: assms(5))
  finally have "mset (filter P (scan e (t_rows T t))) = {#r#}" by (simp only: mset.simps)
  then have "filter P (scan e (t_rows T t)) = [r]" by (rule mset_single_iff[THEN iffD1])
  then show ?thesis using assms(2) by (simp add: select_where_def)
qed

end

context schema_table begin

lemma update_none:
  assumes "table_ok T t" and "t_exists T t" and "\<And>x. x \<in> set (t_rows T t) \<Longrightarrow> \<not> P x"
  shows "update_where T P f t = Inr (0, t_store T (t_rows T t) t)"
proof -
  have "map (\<lambda>r. if P r then f r else r) (t_rows T t) = t_rows T t"
    using assms(3) by (intro map_idI) auto
  then show ?thesis
    using assms by (auto simp: update_where_def Let_def table_ok_def list_all_iff filter_empty_conv)
qed

end

lemma pool_answered [simp]:
  "pool_query Answered True r = r"
  "pool_exec Answered True stmt t = (case stmt t of Inl err \<Rightarrow> (t, Inl err) | Inr (n, t') \<Rightarrow> (t', Inr n))"
  by (simp_all add: pool_query_def pool_exec_def split: sum.splits)

lemma mapNotFound_simps [simp]:
  "mapNotFound (Inl err) = Inl ErrBackend" "mapNotFound (Inr []) = Inl ErrNotFound"
  "mapNotFound (Inr (r # rs)) = Inr r"
  by (simp_all add: mapNotFound_def)

lemma scanned_simps [simp]: "scanned (Inl err) f = Inl err" "scanned (Inr r) f = Inr (f r)"
  by (simp_all add: scanned_def)

text \<open>What a successful or refused \<open>INSERT\<close> and a key lookup reply.\<close>

lemma create_reply_simps [simp]:
  "create_reply (w, Inl UniqueViolation) = (w, Some ErrConflict)" "create_reply (w, Inr n) = (w, None)"
  by (simp_all add: create_reply_def isUnique_def)

lemma snd_create_NoneD: "snd (create_reply r) = None \<Longrightarrow> \<exists>n. snd r = Inr n"
  by (cases "snd r") (auto simp: create_reply_def)

lemma snd_update_NoneD: "snd (update_reply r) = None \<Longrightarrow> \<exists>n. snd r = Inr n \<and> 0 < n"
  by (cases "snd r") (auto simp: update_reply_def split: if_splits)

lemma pool_exec_InrD:
  "snd (pool_exec net enc stmt t) = Inr n \<Longrightarrow>
   net = Answered \<and> enc \<and> stmt t = Inr (n, fst (pool_exec net enc stmt t))"
  by (cases net) (auto simp: pool_exec_def split: if_splits sum.splits)

text \<open>The tables after a call that reported success.\<close>

lemma create_success:
  assumes "create_reply (pool_exec net enc (insert_into T r) t) = (t', None)"
  shows "t' = t_store T (t_rows T t @ [r]) t"
proof -
  from assms obtain n where "snd (pool_exec net enc (insert_into T r) t) = Inr n"
    by (metis snd_conv snd_create_NoneD)
  moreover have "fst (pool_exec net enc (insert_into T r) t) = t'"
    using assms by (metis fst_conv fst_replies(1))
  ultimately have "insert_into T r t = Inr (n, t')" by (auto dest: pool_exec_InrD)
  then show ?thesis by (simp add: insert_into_Inr)
qed

lemma update_success:
  assumes "update_reply (pool_exec net enc (update_where T P f) t) = (t', None)"
  shows "t' = t_store T (map (\<lambda>r. if P r then f r else r) (t_rows T t)) t"
    and "\<exists>r \<in> set (t_rows T t). P r"
proof -
  from assms obtain n where n: "snd (pool_exec net enc (update_where T P f) t) = Inr n" "0 < n"
    by (metis snd_conv snd_update_NoneD)
  moreover have "fst (pool_exec net enc (update_where T P f) t) = t'"
    using assms by (metis fst_conv fst_replies(2))
  ultimately have "update_where T P f t = Inr (n, t')" by (auto dest: pool_exec_InrD)
  from update_where_InrD[OF this] n(2)
  show "t' = t_store T (map (\<lambda>r. if P r then f r else r) (t_rows T t)) t"
    "\<exists>r \<in> set (t_rows T t). P r"
    by (auto simp: filter_empty_conv)
qed

section \<open>What is read back\<close>

lemma hex_value_digit: "i < 16 \<Longrightarrow> hex_value (hex_digits ! i) = Some i"
  by (auto simp: less_Suc_eq numeral_eq_Suc hex_digits_def hex_value_def)

lemma hex_decode_encode [simp]: "hex_decode (hex_encode s) = Some s"
proof (induction s)
  case (Cons c s)
  have "(of_char c :: nat) < 256" by (rule of_char_lt_256)
  then have "(of_char c :: nat) div 16 < 16" by linarith
  then show ?case
    using Cons by (simp add: hex_byte_def Let_def hex_value_digit)
qed simp

definition user_data :: "user_row \<Rightarrow> bool" where
  "user_data u \<longleftrightarrow>
     0 \<le> ur_token_version u \<and> ur_token_version u < 2 ^ 63 \<and>
     (\<exists>h. ur_password_hash u = hex_encode h)"

lemma bump_version_InrD:
  "bump_version e userID f t = Inr (n, t') \<Longrightarrow>
     (\<forall>u \<in> set (tb_users t). ur_id u = userID \<longrightarrow> ur_token_version u < 2 ^ 63 - 1) \<and>
     n = length (filter (\<lambda>u. ur_id u = userID) (tb_users t)) \<and>
     t' = t\<lparr>tb_users := map (\<lambda>u. if ur_id u = userID
       then (f u)\<lparr>ur_token_version := ur_token_version u + 1\<rparr> else u) (tb_users t)\<rparr>"
  by (auto simp: bump_version_def list_ex_iff not_le dest!: update_where_InrD split: if_split_asm)


text \<open>The stored numbers fit the Go types and the stored hashes decode.\<close>

definition pg_data :: "pg_tables \<Rightarrow> bool" where
  "pg_data t \<longleftrightarrow>
     (\<forall>u \<in> set (tb_users t). user_data u) \<and>
     (\<forall>r \<in> set (tb_device_sessions t). 0 \<le> sr_epoch r \<and> sr_epoch r < 2 ^ 64)"

text \<open>The statements that are not plain insertions, updates and deletions.\<close>

lemma stable_bump:
  assumes "\<And>t. Q t \<Longrightarrow> \<forall>u \<in> set (tb_users t). ur_id u = i \<longrightarrow> ur_token_version u < 2 ^ 63 - 1 \<Longrightarrow>
    Q (t\<lparr>tb_users := map (\<lambda>u. if ur_id u = i
      then (f u)\<lparr>ur_token_version := ur_token_version u + 1\<rparr> else u) (tb_users t)\<rparr>)"
  shows "preserves Q (bump_version e i f)"
  using assms by (auto simp: preserves_def dest!: bump_version_InrD)

lemma stable_expire:
  assumes "\<And>t P. Q t \<Longrightarrow> Q (t\<lparr>tb_device_sessions := map (\<lambda>r. if P r
    then r\<lparr>sr_state := ''expired'', sr_ended_at := Some (pg_time now)\<rparr> else r)
    (tb_device_sessions t)\<rparr>)"
  shows "preserves Q (expire_sessions now)"
  unfolding expire_sessions_def by (rule stable_update) (simp add: assms)

lemmas stable_rules = stable_intros stable_bump stable_expire

lemma hex_encoded: "\<exists>h'. hex_encode h = hex_encode h'"
  by blast

lemma stmts_data: "all_stable e pg_data"
  by (rule all_stableI, erule pg_stmt.induct; intro stable_rules;
      (assumption | auto simp: pg_data_def user_data_def hex_encoded))

lemma pg_reach_data: "pg_reach e t \<Longrightarrow> pg_data t"
  by (rule pg_reach_stable[OF stmts_data]) (simp_all add: pg_data_def migrated_def)

section \<open>What no step undoes\<close>

inductive pg_later :: "pg_env \<Rightarrow> pg_tables \<Rightarrow> pg_tables \<Rightarrow> bool" for e where
  now: "pg_later e t t"
| then_step: "pg_later e t t' \<Longrightarrow> pg_step e t' t'' \<Longrightarrow> pg_later e t t''"

lemma pg_later_stable: "pg_later e t t' \<Longrightarrow> all_stable e Q \<Longrightarrow> Q t \<Longrightarrow> Q t'"
  by (induction rule: pg_later.induct) (auto intro: pg_step_stable)

lemma pg_later_reach: "pg_later e t t' \<Longrightarrow> pg_reach e t \<Longrightarrow> pg_reach e t'"
  by (induction rule: pg_later.induct) (auto intro: pg_reach.step)

text \<open>Some row has a property that its updates keep.\<close>

definition some_row :: "('r \<Rightarrow> bool) \<Rightarrow> 'r list \<Rightarrow> bool" where
  "some_row R rows \<longleftrightarrow> (\<exists>r \<in> set rows. R r)"

lemma some_row_append: "some_row R rows \<Longrightarrow> some_row R (rows @ [r])"
  and some_row_map: "some_row R rows \<Longrightarrow> (\<And>x. R x \<Longrightarrow> R (g x)) \<Longrightarrow> some_row R (map g rows)"
  and some_row_filter: "some_row R rows \<Longrightarrow> (\<And>x. R x \<Longrightarrow> P x) \<Longrightarrow> some_row R (filter P rows)"
  by (auto simp: some_row_def)

lemma some_row_updated:
  "\<exists>r \<in> set rows. P r \<Longrightarrow> (\<And>r. P r \<Longrightarrow> R (f r)) \<Longrightarrow>
   some_row R (map (\<lambda>r. if P r then f r else r) rows)"
  by (auto simp: some_row_def)

lemmas some_row_intros = some_row_append some_row_map some_row_filter

definition accepted :: "string \<Rightarrow> pg_tables \<Rightarrow> bool" where
  "accepted h t \<longleftrightarrow> some_row (\<lambda>r. iv_TokenHash r = h \<and> iv_AcceptedAt r \<noteq> None) (tb_org_invites t)"

lemma stmts_accepted: "all_stable e (accepted h)"
  by (rule all_stableI, erule pg_stmt.induct; intro stable_rules;
      (assumption | auto simp: accepted_def intro!: some_row_intros))

definition device_revoked :: "string \<Rightarrow> pg_tables \<Rightarrow> bool" where
  "device_revoked i t \<longleftrightarrow> some_row (\<lambda>r. dr_id r = i \<and> dr_revoked_at r \<noteq> None) (tb_devices t)"

lemma stmts_device_revoked: "all_stable e (device_revoked i)"
  by (rule all_stableI, erule pg_stmt.induct; intro stable_rules;
      (assumption | auto simp: device_revoked_def intro!: some_row_intros))

definition version_from :: "string \<Rightarrow> int \<Rightarrow> pg_tables \<Rightarrow> bool" where
  "version_from i v t \<longleftrightarrow> some_row (\<lambda>u. ur_id u = i \<and> v \<le> ur_token_version u) (tb_users t)"

lemma stmts_version_from: "all_stable e (version_from i v)"
  by (rule all_stableI, erule pg_stmt.induct; intro stable_rules;
      (assumption | auto simp: version_from_def intro!: some_row_intros))

text \<open>No statement creates the table of the e-mail tokens.\<close>

lemma stmts_no_etokens: "all_stable e (\<lambda>t. tb_email_verification_tokens t = None)"
proof (rule all_stableI)
  fix stmt assume "pg_stmt e stmt"
  then show "preserves (\<lambda>t. tb_email_verification_tokens t = None) stmt"
  proof (induction rule: pg_stmt.induct)
    case (st_etoken k)
    show ?case
      by (auto simp: preserves_def insert_or_nothing_def insert_into_def split: if_splits)
  next
    case (st_unetoken P)
    show ?case by (auto simp: preserves_def delete_where_def)
  qed (intro stable_rules; simp)+
qed

end
