(* ===== verification/Pg_Claims.thy ===== *)
theory Pg_Claims
  imports Pg_Safety Memory_Store
begin

text \<open>
  The properties of the PostgreSQL store: the databases it can reach, round trips through rows,
  atomicity of the transactional methods, effects that last, and agreement with the in-memory store.
  Their witnesses run on a small database that the methods themselves build.
\<close>

section \<open>A small database\<close>

text \<open>A server that accepts every text, compares bytewise, scans in insertion order and answers.\<close>

definition demo_pg :: pg_env where
  "demo_pg = \<lparr>pe_text_ok = (\<lambda>s. True), pe_lower = (\<lambda>s. s), pe_collate = (\<lambda>s. s), pe_jsonb = Some,
     pe_marshal = (\<lambda>m. Some ''{}''), pe_unmarshal = (\<lambda>s. []), pe_nil = False,
     pe_scan = (\<lambda>n. [0..<n])\<rparr>"

definition demo_ann :: pg_tables where
  "demo_ann = fst (pg_CreateAccount demo_pg Answered 4000 migrated ''u1'' ''a@x'' ''Ann'' ''p'')"

definition demo_users :: pg_tables where
  "demo_users = fst (pg_CreateAccount demo_pg Answered 5000 demo_ann ''u2'' ''b@x'' ''Bob'' ''q'')"

lemma demo_hex: "hex_byte (CHR ''p'') = ''70''" "hex_byte (CHR ''q'') = ''71''"
  by code_simp+

lemmas demo_pg_simps = demo_pg_def demo_hex pg_time_def texts_def insert_into_def users_def
  user_check_def user_clash_def create_reply_def

lemma demo_scan_ok: "scan_ok demo_pg"
  by (simp add: scan_ok_def demo_pg_def)

lemma demo_users_reach: "pg_reach demo_pg demo_users"
  unfolding demo_users_def demo_ann_def by (rule pg_reach.step[OF pg_reach.step[OF pg_reach.start step_CreateAccount] step_CreateAccount])

lemma demo_ann_tables:
  "demo_ann = migrated\<lparr>tb_users :=
     [\<lparr>ur_id = ''u1'', ur_email = ''a@x'', ur_display_name = ''Ann'', ur_password_hash = ''70'',
       ur_token_version = 0, ur_email_verified_at = None, ur_created_at = 4000\<rparr>]\<rparr>"
  by (simp add: demo_ann_def pg_CreateAccount_def pool_exec_def migrated_def demo_pg_simps)

lemma demo_users_tables:
  "demo_users = migrated\<lparr>tb_users :=
     [\<lparr>ur_id = ''u1'', ur_email = ''a@x'', ur_display_name = ''Ann'', ur_password_hash = ''70'',
       ur_token_version = 0, ur_email_verified_at = None, ur_created_at = 4000\<rparr>,
      \<lparr>ur_id = ''u2'', ur_email = ''b@x'', ur_display_name = ''Bob'', ur_password_hash = ''71'',
       ur_token_version = 0, ur_email_verified_at = None, ur_created_at = 5000\<rparr>]\<rparr>"
  by (simp add: demo_users_def demo_ann_tables pg_CreateAccount_def pool_exec_def demo_pg_simps)

section \<open>Reachable databases\<close>

lemma sorted_wrt_distinct: "sorted_wrt (\<lambda>a b. f a \<noteq> f b) xs \<longleftrightarrow> distinct (map f xs)"
  by (induction xs) auto

lemma sorted_wrt_unique:
  assumes "sorted_wrt (\<lambda>a b. \<not> C a b) xs" and "a \<in> set xs" and "b \<in> set xs" and "C a b" and "C b a"
  shows "a = b"
proof -
  from assms(2,3) obtain i j where "i < length xs" "a = xs ! i" "j < length xs" "b = xs ! j"
    by (metis in_set_conv_nth)
  then show ?thesis
    using assms(1,4,5) unfolding sorted_wrt_iff_nth_less by (metis nat_neq_iff)
qed

lemma pg_okD:
  assumes "pg_ok e t"
  shows "distinct (map ur_id (tb_users t))" and "distinct (map ur_email (tb_users t))"
    and "distinct (map dr_public_key (tb_devices t))"
    and "u \<in> set (tb_users t) \<Longrightarrow> user_check e u"
    and "s \<in> set (tb_device_sessions t) \<Longrightarrow> session_check s \<and> session_refs t s"
    and "s \<in> set (tb_device_sessions t) \<Longrightarrow> s' \<in> set (tb_device_sessions t) \<Longrightarrow>
      session_clash s s' \<Longrightarrow> s = s'"
proof -
  from assms have u: "table_ok (users e) t" and d: "table_ok devices t"
    and s: "table_ok device_sessions t"
    by (simp_all add: pg_ok_def)
  show "distinct (map ur_id (tb_users t))" "distinct (map ur_email (tb_users t))"
    using u unfolding sorted_wrt_distinct[symmetric]
    by (auto simp: table_ok_def users_def user_clash_def elim!: sorted_wrt_mono_rel[rotated])
  show "distinct (map dr_public_key (tb_devices t))"
    using d unfolding sorted_wrt_distinct[symmetric]
    by (auto simp: table_ok_def devices_def device_clash_def elim!: sorted_wrt_mono_rel[rotated])
  show "u \<in> set (tb_users t) \<Longrightarrow> user_check e u"
    using u by (simp add: table_ok_def users_def list_all_iff)
  show "s \<in> set (tb_device_sessions t) \<Longrightarrow> session_check s \<and> session_refs t s"
    using s by (simp add: table_ok_def device_sessions_def list_all_iff)
  assume "s \<in> set (tb_device_sessions t)" "s' \<in> set (tb_device_sessions t)" "session_clash s s'"
  then show "s = s'"
    using s by (intro sorted_wrt_unique[of session_clash "tb_device_sessions t" s s'])
      (auto simp: table_ok_def device_sessions_def session_clash_def)
qed

text \<open>C15: in every database that calls of the methods reach from the migrated one, with any
  arguments, clocks and lost or failed round trips, account identifiers and addresses are unique,
  the version of an account fits its Go type and its password hash decodes, no two devices have the
  same key, a session grants only what was requested and names an existing operator and two
  different existing devices, and a device has at most one active session that controls its mouse
  or keyboard.\<close>

theorem pg_reachable_consistent:
  assumes "pg_reach e t"
  shows "distinct (map ur_id (tb_users t)) \<and> distinct (map ur_email (tb_users t)) \<and>
    (\<forall>u \<in> set (tb_users t). 0 \<le> ur_token_version u \<and> ur_token_version u < 2 ^ 63 \<and>
       hex_decode (ur_password_hash u) \<noteq> None) \<and>
    distinct (map dr_public_key (tb_devices t)) \<and>
    (\<forall>s \<in> set (tb_device_sessions t).
       set (sr_granted_permissions s) \<subseteq> set (sr_requested_permissions s) \<and>
       has_id ur_id (tb_users t) (sr_operator_id s) \<and>
       has_id dr_id (tb_devices t) (sr_source_device_id s) \<and>
       has_id dr_id (tb_devices t) (sr_target_device_id s) \<and>
       sr_source_device_id s \<noteq> sr_target_device_id s) \<and>
    (\<forall>s \<in> set (tb_device_sessions t). \<forall>s' \<in> set (tb_device_sessions t).
       row_controls s \<and> row_controls s' \<and> sr_target_device_id s = sr_target_device_id s' \<longrightarrow> s = s')"
proof -
  note ok = pg_okD[OF pg_reach_ok[OF assms]]
  have "0 \<le> ur_token_version u \<and> ur_token_version u < 2 ^ 63 \<and>
      hex_decode (ur_password_hash u) \<noteq> None" if "u \<in> set (tb_users t)" for u
    using pg_reach_data[OF assms] that by (auto simp: pg_data_def user_data_def)
  moreover have "set (sr_granted_permissions s) \<subseteq> set (sr_requested_permissions s) \<and>
      has_id ur_id (tb_users t) (sr_operator_id s) \<and>
      has_id dr_id (tb_devices t) (sr_source_device_id s) \<and>
      has_id dr_id (tb_devices t) (sr_target_device_id s) \<and>
      sr_source_device_id s \<noteq> sr_target_device_id s" if "s \<in> set (tb_device_sessions t)" for s
    using ok(5)[OF that] by (simp add: session_check_def session_refs_def)
  moreover have "s = s'" if "s \<in> set (tb_device_sessions t)" "s' \<in> set (tb_device_sessions t)"
    "row_controls s" "row_controls s'" "sr_target_device_id s = sr_target_device_id s'" for s s'
    using ok(6)[OF that(1,2)] that(3-5) by (simp add: session_clash_def)
  ultimately show ?thesis using ok(1-3) by blast
qed

theorem pg_reachable_consistent_witness:
  "distinct (map ur_email (tb_users demo_users)) \<and> length (tb_users demo_users) = 2"
  using pg_reachable_consistent[OF demo_users_reach] by (simp add: demo_users_tables)

section \<open>Accounts\<close>

abbreviation fresh_account :: "pg_tables \<Rightarrow> string \<Rightarrow> string \<Rightarrow> bool" where
  "fresh_account t ident email \<equiv>
     \<forall>u \<in> set (tb_users t). ur_id u \<noteq> ident \<and> ur_email u \<noteq> email"

lemma CreateAccount_Answered:
  assumes "texts e [ident, email, name]" and "pe_lower e email = email"
  shows "pg_CreateAccount e Answered now t ident email name h =
    (if fresh_account t ident email
     then (t\<lparr>tb_users := tb_users t @ [\<lparr>ur_id = ident, ur_email = email, ur_display_name = name,
        ur_password_hash = hex_encode h, ur_token_version = 0, ur_email_verified_at = None,
        ur_created_at = pg_time now\<rparr>]\<rparr>, None)
     else (t, Some ErrConflict))"
  using assms
  by (auto simp: pg_CreateAccount_def insert_into_def users_def user_check_def user_clash_def
      list_ex_iff)

lemma select_user:
  assumes "pg_ok e t" and "scan_ok e" and "u \<in> set (tb_users t)"
  shows "select_where e (users e) (\<lambda>x. ur_id x = ur_id u) t = Inr [u]"
    and "select_where e (users e) (\<lambda>x. ur_email x = ur_email u) t = Inr [u]"
proof -
  have ok: "table_ok (users e) t" using assms(1) by (simp add: pg_ok_def)
  show "select_where e (users e) (\<lambda>x. ur_id x = ur_id u) t = Inr [u]"
    using assms(2,3) by (intro users.select_one[OF ok]) (simp_all add: users_def user_clash_def)
  show "select_where e (users e) (\<lambda>x. ur_email x = ur_email u) t = Inr [u]"
    using assms(2,3) by (intro users.select_one[OF ok]) (simp_all add: users_def user_clash_def)
qed

text \<open>Creating an account succeeds exactly when neither its identifier nor its address is
  taken, is a conflict that changes nothing otherwise, and an account created is found by its
  identifier and by its address, with the password hash it was given, version 0, no verified
  address and the instant of its creation in microseconds.\<close>

lemma pg_account_roundtrip:
  assumes reach: "pg_reach e t" and scan: "scan_ok e"
    and valid: "texts e [ident, email, name]" "pe_lower e email = email"
    and call: "pg_CreateAccount e Answered now t ident email name h = (t', err)"
  shows "(err = None \<longleftrightarrow> (\<forall>u \<in> set (tb_users t). ur_id u \<noteq> ident \<and> ur_email u \<noteq> email)) \<and>
    (err \<noteq> None \<longrightarrow> err = Some ErrConflict \<and> t' = t) \<and>
    (err = None \<longrightarrow> (\<forall>a. a = \<lparr>ac_ID = ident, ac_Email = email, ac_Name = name,
         ac_PasswordHash = h, ac_TokenVersion = 0, ac_EmailVerifiedAt = None,
         ac_CreatedAt = now div 1000 * 1000\<rparr> \<longrightarrow>
       pg_GetAccountByID e Answered t' ident = Inr a \<and>
       pg_GetAccountByEmail e Answered t' email = Inr a))"
proof (cases "fresh_account t ident email")
  case True
  define u where "u = \<lparr>ur_id = ident, ur_email = email, ur_display_name = name,
    ur_password_hash = hex_encode h, ur_token_version = 0, ur_email_verified_at = None,
    ur_created_at = pg_time now\<rparr>"
  have t': "t' = t\<lparr>tb_users := tb_users t @ [u]\<rparr>" and err: "err = None"
    using call True by (simp_all add: CreateAccount_Answered[OF valid] u_def)
  have "pg_ok e t'"
    using pg_step_stable[OF step_CreateAccount stmts_ok pg_reach_ok[OF reach],
      of Answered now ident email name h] call by simp
  from select_user[OF this scan, of u] have "pg_GetAccountByID e Answered t' ident = Inr a"
    "pg_GetAccountByEmail e Answered t' email = Inr a"
    if "a = \<lparr>ac_ID = ident, ac_Email = email, ac_Name = name, ac_PasswordHash = h,
      ac_TokenVersion = 0, ac_EmailVerifiedAt = None, ac_CreatedAt = now div 1000 * 1000\<rparr>" for a
    using valid(1) that
    by (simp_all add: t' u_def pg_GetAccountByID_def pg_GetAccountByEmail_def scanAccount_def
        texts_def pg_time_def)
  then show ?thesis using True err by simp
next
  case False
  then have "(t', err) = (t, Some ErrConflict)"
    using call by (simp only: CreateAccount_Answered[OF valid] if_False)
  then show ?thesis using False by auto
qed

section \<open>Devices\<close>

lemma stored_device:
  assumes ok: "pg_ok e t" and scan: "scan_ok e" and r: "r \<in> set (tb_devices t)"
    and valid: "texts e [dr_id r]"
  shows "pg_GetDevice e Answered t (dr_id r) = Inr (device_of_row r)"
    and "pg_GetDeviceByPublicKey e Answered t (pkBytesToB64 (dr_public_key r)) =
      Inr (device_of_row r)"
proof -
  have d: "table_ok devices t" using ok by (simp add: pg_ok_def)
  have "length (dr_public_key r) = 32"
    using d r by (simp add: table_ok_def devices_def list_all_iff device_check_def)
  then have key: "publicKeyBytes (pkBytesToB64 (dr_public_key r)) = Inr (dr_public_key r)"
    by (rule publicKeyBytes_stored)
  have "select_where e devices (\<lambda>x. dr_id x = dr_id r) t = Inr [r]"
    using scan r by (intro devs.select_one[OF d]) (simp_all add: devices_def device_clash_def)
  then show "pg_GetDevice e Answered t (dr_id r) = Inr (device_of_row r)"
    using valid by (simp add: pg_GetDevice_def scanDevice_def)
  have "select_where e devices (\<lambda>x. dr_public_key x = dr_public_key r) t = Inr [r]"
    using scan r by (intro devs.select_one[OF d]) (simp_all add: devices_def device_clash_def)
  then show "pg_GetDeviceByPublicKey e Answered t (pkBytesToB64 (dr_public_key r)) =
      Inr (device_of_row r)"
    by (simp add: pg_GetDeviceByPublicKey_def key scanDevice_def)
qed

text \<open>C32: a device created under a 32-byte key in standard base 64 is found by its identifier and
  by that same text of its key, with its owner and not revoked.\<close>

theorem pg_device_roundtrip:
  assumes reach: "pg_reach e t" and scan: "scan_ok e" and valid: "texts e [sd_ID d]"
    and key: "sd_PublicKey d = pkBytesToB64 bs" "length bs = 32"
    and call: "pg_CreateDevice e net now t d = (t', None)"
  shows "\<exists>d'. pg_GetDevice e Answered t' (sd_ID d) = Inr d' \<and>
    pg_GetDeviceByPublicKey e Answered t' (sd_PublicKey d) = Inr d' \<and>
    sd_PublicKey d' = sd_PublicKey d \<and> sd_OwnerID d' = sd_OwnerID d \<and> sd_Name d' = sd_Name d \<and>
    \<not> sd_Revoked d'"
proof -
  define r where "r = \<lparr>dr_id = sd_ID d, dr_name = sd_Name d, dr_owner_id = sd_OwnerID d,
    dr_public_key = bs, dr_os = sd_OS d, dr_revoked_at = None, dr_created_at = pg_time now\<rparr>"
  have t': "t' = t\<lparr>tb_devices := tb_devices t @ [r]\<rparr>"
    using call create_success[of net _ devices r t t']
    by (simp add: pg_CreateDevice_def key publicKeyBytes_stored r_def)
  have "pg_ok e t'"
    using pg_step_stable[OF step_CreateDevice stmts_ok pg_reach_ok[OF reach], of net now d] call
    by simp
  moreover have "dr_id r = sd_ID d" "dr_public_key r = bs" by (simp_all add: r_def)
  ultimately show ?thesis
    using stored_device[OF _ scan, of t' r] valid key by (simp add: t' device_of_row_def r_def)
qed

text \<open>C30: a revocation lasts: once a call has revoked a device, every lookup of it, after any later
  calls of the store, finds it revoked.\<close>

theorem pg_revocation_lasts:
  assumes reach: "pg_reach e t" and scan: "scan_ok e" and valid: "texts e [i]"
    and call: "pg_RevokeDevice e net t i now = (t', None)" and later: "pg_later e t' t''"
  shows "\<exists>d. pg_GetDevice e Answered t'' i = Inr d \<and> sd_ID d = i \<and> sd_Revoked d"
proof -
  note upd = update_success[OF call[unfolded pg_RevokeDevice_def]]
  have "device_revoked i t'"
    using upd(2) by (auto simp: upd(1) device_revoked_def intro!: some_row_updated)
  then have "device_revoked i t''" by (rule pg_later_stable[OF later stmts_device_revoked])
  then obtain r where r: "r \<in> set (tb_devices t'')" "dr_id r = i" "dr_revoked_at r \<noteq> None"
    by (auto simp: device_revoked_def some_row_def)
  have "pg_step e t t'" using step_RevokeDevice[of e t net i now] call by simp
  then have "pg_ok e t''"
    by (intro pg_reach_ok pg_later_reach[OF later] pg_reach.step[OF reach])
  from stored_device(1)[OF this scan r(1)] show ?thesis using r valid by (simp add: device_of_row_def)
qed

definition pg_demo_key :: "8 word list" where
  "pg_demo_key = replicate 32 7"

definition pg_demo_device :: StoreDevice where
  "pg_demo_device = \<lparr>sd_ID = ''d1'', sd_Name = ''Desk'', sd_OwnerID = ''u1'', sd_OrganizationID = None,
     sd_PublicKey = pkBytesToB64 pg_demo_key, sd_OS = ''windows'', sd_LastSeen = 0,
     sd_RevokedAt = None, sd_Revoked = False, sd_Online = False, sd_Unattended = False,
     sd_CreatedAt = 0\<rparr>"

definition demo_devices :: pg_tables where
  "demo_devices = fst (pg_CreateDevice demo_pg Answered 6000 demo_users pg_demo_device)"

lemma pg_demo_key_length: "length pg_demo_key = 32"
  by (simp add: pg_demo_key_def)

lemma pg_demo_key_bytes: "publicKeyBytes (pkBytesToB64 pg_demo_key) = Inr pg_demo_key"
  by (rule publicKeyBytes_stored[OF pg_demo_key_length])

lemma demo_devices_call:
  "pg_CreateDevice demo_pg Answered 6000 demo_users pg_demo_device =
     (demo_users\<lparr>tb_devices := [\<lparr>dr_id = ''d1'', dr_name = ''Desk'', dr_owner_id = ''u1'',
        dr_public_key = pg_demo_key, dr_os = ''windows'', dr_revoked_at = None,
        dr_created_at = 6000\<rparr>]\<rparr>, None)"
  by (simp add: pg_CreateDevice_def pg_demo_device_def pg_demo_key_bytes demo_users_tables migrated_def
      demo_pg_def texts_def insert_into_def devices_def device_check_def device_clash_def
      has_id_def pg_demo_key_length pg_time_def)

lemma demo_devices_tables:
  "demo_devices = demo_users\<lparr>tb_devices := [\<lparr>dr_id = ''d1'', dr_name = ''Desk'',
     dr_owner_id = ''u1'', dr_public_key = pg_demo_key, dr_os = ''windows'', dr_revoked_at = None,
     dr_created_at = 6000\<rparr>]\<rparr>"
  by (simp add: demo_devices_def demo_devices_call)

lemma demo_devices_reach: "pg_reach demo_pg demo_devices"
  unfolding demo_devices_def by (rule pg_reach.step[OF demo_users_reach step_CreateDevice])

theorem pg_device_roundtrip_witness:
  "\<exists>d'. pg_GetDeviceByPublicKey demo_pg Answered demo_devices (pkBytesToB64 pg_demo_key) = Inr d' \<and>
     sd_OwnerID d' = ''u1''"
proof -
  have call: "pg_CreateDevice demo_pg Answered 6000 demo_users pg_demo_device = (demo_devices, None)"
    by (simp add: demo_devices_def demo_devices_call)
  show ?thesis
    using pg_device_roundtrip[OF demo_users_reach demo_scan_ok _ _ _ call, of pg_demo_key]
    by (auto simp: pg_demo_device_def pg_demo_key_length demo_pg_def texts_def)
qed

theorem pg_revocation_lasts_witness:
  "\<exists>d. pg_GetDevice demo_pg Answered (fst (pg_UpdateDevice demo_pg Answered
       (fst (pg_RevokeDevice demo_pg Answered demo_devices ''d1'' 7000)) pg_demo_device)) ''d1'' = Inr d \<and>
     sd_Revoked d"
proof -
  let ?t = "fst (pg_RevokeDevice demo_pg Answered demo_devices ''d1'' 7000)"
  have call: "pg_RevokeDevice demo_pg Answered demo_devices ''d1'' 7000 = (?t, None)"
    by (simp add: pg_RevokeDevice_def demo_devices_tables demo_pg_def texts_def
        update_where_def devices_def device_check_def pg_demo_key_length demo_users_tables migrated_def
        has_id_def update_reply_def)
  show ?thesis
    using pg_revocation_lasts[OF demo_devices_reach demo_scan_ok _ call
        pg_later.then_step[OF pg_later.now step_UpdateDevice]]
    by (auto simp: demo_pg_def texts_def)
qed

section \<open>Transactions and effects that last\<close>

text \<open>A transaction that takes one database to one other, and cannot run again on that, is done
  once or not at all.\<close>

lemma withTx_from_once:
  assumes body: "\<And>n w. fn n (Some t0) = (w, None) \<Longrightarrow> w = Some t1"
    and again: "\<And>n. snd (fn n (Some t1)) \<noteq> None" and t: "t = t0 \<or> t = t1"
  shows "(fst (withTx_from nets fn k left t) = t0 \<or> fst (withTx_from nets fn k left t) = t1) \<and>
    (snd (withTx_from nets fn k left t) = None \<longrightarrow> fst (withTx_from nets fn k left t) = t1)"
  using t
proof (induction left arbitrary: k t)
  case (Suc left)
  obtain w err where fn: "fn (tx_stmt (nets k)) (Some t) = (w, err)" by fastforce
  show ?case
  proof (cases err)
    case None
    then have "t = t0" and "w = Some t1"
      using fn again[of "tx_stmt (nets k)"] body[of "tx_stmt (nets k)"] Suc.prems by auto
    then show ?thesis using Suc.IH[of t0] Suc.IH[of t1] fn None by (simp add: Let_def)
  next
    case (Some x)
    then show ?thesis using fn Suc.prems by (auto simp: Let_def)
  qed
qed simp

definition with_organization :: "Organization \<Rightarrow> pg_tables \<Rightarrow> pg_tables" where
  "with_organization g t =
     t\<lparr>tb_organizations := tb_organizations t @ [g\<lparr>og_CreatedAt := pg_time (og_CreatedAt g)\<rparr>],
       tb_memberships := tb_memberships t @ [\<lparr>mb_OrganizationID = og_ID g,
         mb_UserID = og_OwnerID g, mb_Role = ''owner'', mb_ExpiresAt = None\<rparr>]\<rparr>"

lemma tx_exec_InrD:
  "tx_exec net enc stmt (Some t) = (w, Inr n) \<Longrightarrow> \<exists>t'. stmt t = Inr (n, t') \<and> w = Some t'"
  by (auto simp: tx_exec_def split: if_splits sum.splits)

lemma CreateOrganization_body:
  assumes ok: "pg_ok e t" and run: "CreateOrganization_tx e g n (Some t) = (w, None)"
  shows "w = Some (with_organization g t)"
proof -
  let ?g = "g\<lparr>og_CreatedAt := pg_time (og_CreatedAt g)\<rparr>"
  let ?t = "t\<lparr>tb_organizations := tb_organizations t @ [?g]\<rparr>"
  let ?x1 = "tx_exec (n 0) (texts e [og_ID g, og_Name g, og_OwnerID g]) (insert_into organizations ?g) (Some t)"
  obtain i where i: "snd ?x1 = Inr i" and second: "CreateOrganization_tx e g n (Some t) =
      plain_reply (tx_exec (n 1) (texts e [og_ID g, og_OwnerID g]) (insert_or_nothing memberships
        \<lparr>mb_OrganizationID = og_ID g, mb_UserID = og_OwnerID g, mb_Role = ''owner'',
         mb_ExpiresAt = None\<rparr>) (fst ?x1))"
    using run by (auto simp: CreateOrganization_tx_def create_reply_def split: sum.splits)
  from i obtain t1 where t1: "insert_into organizations ?g t = Inr (i, t1)" "fst ?x1 = Some t1"
    using tx_exec_InrD[of "n 0" _ "insert_into organizations ?g" t "fst ?x1" i] by (metis prod.collapse)
  then have new: "t1 = ?t" "\<forall>x \<in> set (tb_organizations t). og_ID x \<noteq> og_ID g"
    by (auto simp: insert_into_Inr organizations_def)
  have "list_all (member_refs t) (tb_memberships t)"
    using ok by (simp add: pg_ok_def table_ok_def memberships_def)
  then have none: "\<forall>m \<in> set (tb_memberships t). mb_OrganizationID m \<noteq> og_ID g"
    using new(2) by (fastforce simp: list_all_iff member_refs_def has_id_def list_ex_iff)
  from run second obtain j where "tx_exec (n 1) (texts e [og_ID g, og_OwnerID g])
      (insert_or_nothing memberships \<lparr>mb_OrganizationID = og_ID g, mb_UserID = og_OwnerID g,
        mb_Role = ''owner'', mb_ExpiresAt = None\<rparr>) (Some ?t) = (w, Inr j)"
    by (auto simp: plain_reply_def t1 new prod_eq_iff split: sum.splits)
  from tx_exec_InrD[OF this] show ?thesis
    using none by (auto simp: insert_or_nothing_def insert_into_Inr memberships_def member_clash_def
        list_ex_iff with_organization_def split: if_splits)
qed

lemma CreateOrganization_body_again:
  "snd (CreateOrganization_tx e g n (Some (with_organization g t))) \<noteq> None"
proof -
  have "insert_into organizations (g\<lparr>og_CreatedAt := pg_time (og_CreatedAt g)\<rparr>)
      (with_organization g t) = Inl UniqueViolation"
    by (simp add: insert_into_def organizations_def with_organization_def)
  then show ?thesis by (auto simp: CreateOrganization_tx_def tx_exec_def create_reply_def isUnique_def)
qed

text \<open>C17: whatever round trips are lost or fail, and however often the commit is retried, creating an
  organisation leaves the database either as it was or with exactly the organisation and its owner's
  membership added, never one without the other, and reports success only in the second case.\<close>

theorem CreateOrganization_atomic:
  assumes "pg_reach e t" and "pg_CreateOrganization e nets t g = (t', err)"
  shows "(t' = t \<or> t' = t\<lparr>tb_organizations := tb_organizations t @
        [g\<lparr>og_CreatedAt := og_CreatedAt g div 1000 * 1000\<rparr>],
      tb_memberships := tb_memberships t @ [\<lparr>mb_OrganizationID = og_ID g,
        mb_UserID = og_OwnerID g, mb_Role = ''owner'', mb_ExpiresAt = None\<rparr>]\<rparr>) \<and>
    (err = None \<longrightarrow> t' \<noteq> t)"
proof -
  let ?r = "withTx_from nets (CreateOrganization_tx e g) 1 3 t"
  have r: "?r = (t', err)" using assms(2) by (simp add: pg_CreateOrganization_def withTx_def)
  have "(fst ?r = t \<or> fst ?r = with_organization g t) \<and>
      (snd ?r = None \<longrightarrow> fst ?r = with_organization g t)"
  proof (rule withTx_from_once)
    show "w = Some (with_organization g t)"
      if "CreateOrganization_tx e g n (Some t) = (w, None)" for n w
      by (rule CreateOrganization_body[OF pg_reach_ok[OF assms(1)] that])
  qed (rule CreateOrganization_body_again, simp)
  then have "(t' = t \<or> t' = with_organization g t) \<and> (err = None \<longrightarrow> t' = with_organization g t)"
    unfolding r fst_conv snd_conv .
  moreover have "with_organization g t \<noteq> t"
  proof
    assume "with_organization g t = t"
    then have "tb_organizations (with_organization g t) = tb_organizations t" by (rule arg_cong)
    then show False by (simp add: with_organization_def)
  qed
  ultimately have "(t' = t \<or> t' = with_organization g t) \<and> (err = None \<longrightarrow> t' \<noteq> t)" by metis
  then show ?thesis unfolding with_organization_def pg_time_def .
qed

definition demo_team :: Organization where
  "demo_team = \<lparr>og_ID = ''g1'', og_Name = ''Team'', og_OwnerID = ''u1'', og_CreatedAt = 8000\<rparr>"

definition net_ok :: "nat \<Rightarrow> tx_net" where
  "net_ok k = \<lparr>tx_begun = True, tx_stmt = (\<lambda>i. Answered), tx_commit = Answered\<rparr>"

text \<open>The answer to the first commit is lost.\<close>

definition net_lost :: "nat \<Rightarrow> tx_net" where
  "net_lost k = (net_ok k)\<lparr>tx_commit := (if k = 1 then AnswerLost else Answered)\<rparr>"

lemma demo_org_call:
  "pg_CreateOrganization demo_pg net_ok demo_users demo_team =
     (with_organization demo_team demo_users, None)"
  by (simp add: pg_CreateOrganization_def withTx_def numeral_3_eq_3 net_ok_def
      CreateOrganization_tx_def tx_exec_def demo_team_def demo_users_tables migrated_def
      demo_pg_def texts_def insert_into_def insert_or_nothing_def table_defs has_id_def
      create_reply_def plain_reply_def member_check_def member_clash_def member_refs_def
      with_organization_def pg_time_def)

theorem CreateOrganization_atomic_witness:
  "\<exists>t'. pg_CreateOrganization demo_pg net_ok demo_users demo_team = (t', None) \<and> t' \<noteq> demo_users"
proof -
  have "snd (pg_CreateOrganization demo_pg net_ok demo_users demo_team) = None"
    by (simp add: demo_org_call)
  then obtain t' where "pg_CreateOrganization demo_pg net_ok demo_users demo_team = (t', None)"
    by (metis prod.collapse)
  then show ?thesis using CreateOrganization_atomic[OF demo_users_reach] by blast
qed

text \<open>The retry after a lost answer reports a conflict for an organisation that it has created.\<close>

lemma CreateOrganization_lost_answer:
  "pg_CreateOrganization demo_pg net_lost demo_users demo_team =
     (with_organization demo_team demo_users, Some ErrConflict)"
  by (simp add: pg_CreateOrganization_def withTx_def numeral_3_eq_3 net_ok_def net_lost_def
      CreateOrganization_tx_def tx_exec_def demo_team_def demo_users_tables migrated_def
      demo_pg_def texts_def insert_into_def insert_or_nothing_def table_defs has_id_def
      create_reply_def plain_reply_def member_check_def member_clash_def member_refs_def
      with_organization_def pg_time_def isUnique_def)

text \<open>C29: an invitation is accepted at most once: after a call that accepted it, every later
  \<open>AcceptInvite\<close> of its token fails, and the server's answer is that there is none to accept.\<close>

theorem pg_AcceptInvite_once:
  assumes reach: "pg_reach e t" and call: "pg_AcceptInvite e net t h now = (t', None)"
    and later: "pg_later e t' t''"
  shows "\<exists>err. snd (pg_AcceptInvite e net' t'' h now') = Some err \<and>
    (net' = Answered \<and> texts e [h] \<longrightarrow> err = ErrNotFound)"
proof -
  note upd = update_success[OF call[unfolded pg_AcceptInvite_def]]
  have "accepted h t'"
    using upd(2) by (auto simp: upd(1) accepted_def intro!: some_row_updated)
  then have "accepted h t''" by (rule pg_later_stable[OF later stmts_accepted])
  then obtain r where r: "r \<in> set (tb_org_invites t'')" "iv_TokenHash r = h" "iv_AcceptedAt r \<noteq> None"
    by (auto simp: accepted_def some_row_def)
  have "pg_step e t t'" using step_AcceptInvite[of e t net h now] call by simp
  then have "table_ok org_invites t''"
    using pg_reach_ok[OF pg_later_reach[OF later pg_reach.step[OF reach]]] by (simp add: pg_ok_def)
  then have "\<forall>x \<in> set (tb_org_invites t''). iv_TokenHash x = h \<longrightarrow> x = r"
    using r sorted_wrt_unique[of invite_clash "tb_org_invites t''"]
    by (auto simp: table_ok_def org_invites_def invite_clash_def)
  then have none: "\<forall>x \<in> set (tb_org_invites t''). \<not> (iv_TokenHash x = h \<and> iv_AcceptedAt x = None)"
    using r(3) by auto
  have upd: "update_where org_invites (\<lambda>r. iv_TokenHash r = h \<and> iv_AcceptedAt r = None) f t'' =
      Inr (0, t_store org_invites (t_rows org_invites t'') t'')" for f
    using none by (intro invites.update_none[OF \<open>table_ok org_invites t''\<close>]) auto
  show ?thesis
    by (cases net') (simp_all add: pg_AcceptInvite_def pool_exec_def update_reply_def upd)
qed

definition demo_invite :: OrgInvite where
  "demo_invite = \<lparr>iv_ID = ''i1'', iv_OrgID = ''g1'', iv_Email = ''c@x'', iv_Role = ''viewer'',
     iv_TokenHash = ''h1'', iv_ExpiresAt = 9000, iv_AcceptedAt = None\<rparr>"

definition demo_invited :: pg_tables where
  "demo_invited = fst (pg_CreateInvite demo_pg Answered
     (fst (pg_CreateOrganization demo_pg net_ok demo_users demo_team)) demo_invite)"

lemma demo_invited_tables:
  "demo_invited = (with_organization demo_team demo_users)\<lparr>tb_org_invites := [demo_invite]\<rparr>"
  unfolding demo_invited_def demo_org_call fst_conv
  by (simp add: pg_CreateInvite_def demo_invite_def demo_pg_def
      texts_def insert_into_def org_invites_def invite_check_def has_id_def with_organization_def
      demo_team_def pg_time_def demo_users_tables migrated_def)

lemma demo_invited_reach: "pg_reach demo_pg demo_invited"
  unfolding demo_invited_def
  by (rule pg_reach.step[OF pg_reach.step[OF demo_users_reach step_CreateOrganization]
      step_CreateInvite])

theorem pg_AcceptInvite_once_witness:
  "snd (pg_AcceptInvite demo_pg Answered (runExpiry (\<lambda>i. Answered) 99000
     (fst (pg_AcceptInvite demo_pg Answered demo_invited ''h1'' 8500))) ''h1'' 8600) =
   Some ErrNotFound"
proof -
  have call: "pg_AcceptInvite demo_pg Answered demo_invited ''h1'' 8500 =
      (fst (pg_AcceptInvite demo_pg Answered demo_invited ''h1'' 8500), None)"
    by (simp add: pg_AcceptInvite_def demo_invited_tables demo_invite_def demo_pg_def texts_def
        update_where_def org_invites_def invite_check_def has_id_def with_organization_def
        demo_team_def demo_users_tables migrated_def update_reply_def)
  show ?thesis
    using pg_AcceptInvite_once[OF demo_invited_reach call
        pg_later.then_step[OF pg_later.now step_runExpiry], of Answered "\<lambda>i. Answered" 99000 8600]
    by (simp add: demo_pg_def texts_def)
qed

section \<open>The expiry\<close>

definition expired_row :: "time \<Rightarrow> session_row \<Rightarrow> session_row" where
  "expired_row now r =
     (if sr_state r \<in> {''pending'', ''active''} \<and> sr_expires_at r \<le> pg_time now
      then r\<lparr>sr_state := ''expired'', sr_ended_at := Some (pg_time now)\<rparr> else r)"

lemma expire_sessions_ok:
  assumes "pg_ok e t"
  shows "\<exists>n. expire_sessions now t =
    Inr (n, t\<lparr>tb_device_sessions := map (expired_row now) (tb_device_sessions t)\<rparr>)"
proof -
  let ?P = "\<lambda>r. sr_state r \<in> {''pending'', ''active''} \<and> sr_expires_at r \<le> pg_time now"
  let ?f = "\<lambda>r. r\<lparr>sr_state := ''expired'', sr_ended_at := Some (pg_time now)\<rparr>"
  have g: "(\<lambda>r. if ?P r then ?f r else r) = expired_row now" by (simp add: expired_row_def fun_eq_iff)
  from assms have ok: "list_all session_check (tb_device_sessions t)"
    "sorted_wrt (\<lambda>a b. \<not> session_clash a b) (tb_device_sessions t)"
    "list_all (session_refs t) (tb_device_sessions t)"
    by (simp_all add: pg_ok_def table_ok_def device_sessions_def)
  have "sorted_wrt (\<lambda>a b. \<not> session_clash a b) (map (expired_row now) (tb_device_sessions t))"
    using ok(2) unfolding sorted_wrt_map
    by (rule sorted_wrt_mono_rel[rotated])
      (auto simp: session_clash_def row_controls_def expired_row_def split: if_splits)
  then show ?thesis
    using ok(1,3) unfolding expire_sessions_def update_where_def g Let_def
    by (auto simp: device_sessions_def list_all_iff session_check_def session_states_def
        session_refs_def)
qed

lemma delete_answered:
  "fst (pool_exec Answered True (delete_where T P) t) =
     (if t_exists T t then t_store T (filter (\<lambda>r. \<not> P r) (t_rows T t)) t else t)"
  by (simp add: delete_where_def)

text \<open>C31: a run of the expiry whose statements are answered ends every pending or active session
  whose deadline has passed, with the instant of the run, drops the refresh tokens expired for more
  than a day and the open invitations that have expired, and changes nothing else, even though its
  statement on the e-mail tokens fails in a migrated database; no overdue session is left.\<close>

theorem runExpiry_effect:
  assumes "pg_reach e t" and "t' = runExpiry (\<lambda>i. Answered) now t"
  shows "t' = t\<lparr>tb_device_sessions := map (\<lambda>r.
        if sr_state r \<in> {''pending'', ''active''} \<and> sr_expires_at r \<le> pg_time now
        then r\<lparr>sr_state := ''expired'', sr_ended_at := Some (pg_time now)\<rparr> else r)
        (tb_device_sessions t),
      tb_refresh_tokens := filter (\<lambda>r. pg_time (now - 24 * hour) \<le> rt_ExpiresAt r)
        (tb_refresh_tokens t),
      tb_org_invites := filter (\<lambda>r. iv_AcceptedAt r \<noteq> None \<or> pg_time now \<le> iv_ExpiresAt r)
        (tb_org_invites t)\<rparr> \<and>
    (\<forall>r \<in> set (tb_device_sessions t'). sr_state r \<in> {''pending'', ''active''} \<longrightarrow>
       pg_time now < sr_expires_at r)"
proof -
  have none: "tb_email_verification_tokens t = None"
    by (rule pg_reach_stable[OF stmts_no_etokens _ assms(1)]) (simp add: migrated_def)
  obtain n where n: "expire_sessions now t =
      Inr (n, t\<lparr>tb_device_sessions := map (expired_row now) (tb_device_sessions t)\<rparr>)"
    using expire_sessions_ok[OF pg_reach_ok[OF assms(1)]] by blast
  have t': "t' = t\<lparr>tb_device_sessions := map (expired_row now) (tb_device_sessions t),
      tb_refresh_tokens := filter (\<lambda>r. pg_time (now - 24 * hour) \<le> rt_ExpiresAt r)
        (tb_refresh_tokens t),
      tb_org_invites := filter (\<lambda>r. iv_AcceptedAt r \<noteq> None \<or> pg_time now \<le> iv_ExpiresAt r)
        (tb_org_invites t)\<rparr>"
    unfolding assms(2) runExpiry_def Let_def delete_answered
    by (simp add: n none not_less disj_commute)
  have "pg_time now < sr_expires_at r"
    if "r \<in> set (tb_device_sessions t')" "sr_state r \<in> {''pending'', ''active''}" for r
    using that by (auto simp: t' expired_row_def split: if_splits)
  then show ?thesis unfolding t' by (simp add: expired_row_def[abs_def])
qed

theorem runExpiry_effect_witness:
  "tb_org_invites (runExpiry (\<lambda>i. Answered) 99000 demo_invited) = []"
  using runExpiry_effect[OF demo_invited_reach refl, of 99000]
  by (simp add: demo_invited_tables demo_invite_def pg_time_def)

end
