(* ===== verification/Pg_Keyed.thy ===== *)
theory Pg_Keyed
  imports Pg_Safety Memory_Store
begin

text \<open>
  A Go map and a table that hold the same rows under the same keys, and what the statements do to
  both. The locale \<open>keyed_table\<close> is proved once and interpreted for the six tables whose methods
  the two stores share.
\<close>

section \<open>The same rows\<close>

text \<open>\<open>kof\<close> is the key of a row, \<open>mk\<close> the key of the Go map for it, and \<open>K\<close> the keys that are
  compared.\<close>

definition same_rows ::
  "('k \<Rightarrow> bool) \<Rightarrow> ('k \<Rightarrow> string) \<Rightarrow> ('r \<Rightarrow> 'k) \<Rightarrow> (string, 'r) gomap \<Rightarrow> 'r list \<Rightarrow> bool" where
  "same_rows K mk kof m rows \<longleftrightarrow> (\<forall>k. K k \<longrightarrow> get m (mk k) = find (\<lambda>r. kof r = k) rows)"

lemma same_rowsD: "same_rows K mk kof m rows \<Longrightarrow> K k \<Longrightarrow> get m (mk k) = find (\<lambda>r. kof r = k) rows"
  by (simp add: same_rows_def)

lemma same_rows_Nil [simp]: "same_rows K mk kof [] []"
  by (simp add: same_rows_def)

lemma find_snoc: "find P (xs @ [x]) = (case find P xs of None \<Rightarrow> if P x then Some x else None | Some y \<Rightarrow> Some y)"
  by (induction xs) auto

lemma find_map_key:
  "(\<And>r. kof (g r) = kof r) \<Longrightarrow>
   find (\<lambda>r. kof r = k) (map g rows) = map_option g (find (\<lambda>r. kof r = k) rows)"
  by (induction rows) auto

lemma find_filter_key:
  "find (\<lambda>r. kof r = k) (filter (\<lambda>r. kof r \<noteq> k') rows) =
   (if k = k' then None else find (\<lambda>r. kof r = k) rows)"
  by (induction rows) auto

lemma same_rows_update:
  assumes "same_rows K mk kof m rows" and "\<And>r. kof (f r) = kof r"
    and "\<And>k. K k \<Longrightarrow> get m' (mk k) = map_option (\<lambda>r. if P r then f r else r) (get m (mk k))"
  shows "same_rows K mk kof m' (map (\<lambda>r. if P r then f r else r) rows)"
  using assms by (auto simp: same_rows_def find_map_key)

section \<open>Statements on a keyed table\<close>

lemma update_where_cong:
  assumes "\<And>r. r \<in> set (t_rows T t) \<Longrightarrow> P r \<longleftrightarrow> Q r"
  shows "update_where T P f t = update_where T Q f t"
proof -
  have "map (\<lambda>r. if P r then f r else r) (t_rows T t) = map (\<lambda>r. if Q r then f r else r) (t_rows T t)"
    "filter P (t_rows T t) = filter Q (t_rows T t)"
    "list_all (\<lambda>r. P r \<longrightarrow> R r) (t_rows T t) = list_all (\<lambda>r. Q r \<longrightarrow> R r) (t_rows T t)" for R
    using assms by (auto simp: list_all_iff intro: filter_cong)
  then show ?thesis by (simp only: update_where_def)
qed

locale keyed_table = schema_table T row_key
  for T :: "'r table" and row_key :: "'r \<Rightarrow> string" +
  fixes K :: "'k \<Rightarrow> bool" and mk :: "'k \<Rightarrow> string" and kof :: "'r \<Rightarrow> 'k"
  assumes mk_inj: "K a \<Longrightarrow> K b \<Longrightarrow> mk a = mk b \<Longrightarrow> a = b"
    and key_clash: "kof r = kof r' \<Longrightarrow> t_clash T r r'"
    and always: "t_exists T t"
begin

abbreviation same :: "(string, 'r) gomap \<Rightarrow> pg_tables \<Rightarrow> bool" where
  "same m t \<equiv> same_rows K mk kof m (t_rows T t)"

lemma same_row: "same m t \<Longrightarrow> K k \<Longrightarrow> get m (mk k) = Some r \<Longrightarrow> r \<in> set (t_rows T t) \<and> kof r = k"
  by (auto simp: same_rows_def find_Some_iff)

lemma same_none: "same m t \<Longrightarrow> K k \<Longrightarrow> get m (mk k) = None \<Longrightarrow> r \<in> set (t_rows T t) \<Longrightarrow> kof r \<noteq> k"
  by (auto simp: same_rows_def find_None_iff)

lemma insert_same:
  assumes "same m t" and "K (kof r)" and "insert_into T r t = Inr (n, t')"
  shows "same (put m (mk (kof r)) r) t'"
proof -
  from assms(3) have t': "t' = t_store T (t_rows T t @ [r]) t"
    and no: "\<forall>x \<in> set (t_rows T t). \<not> t_clash T x r"
    by (auto simp: insert_into_def list_ex_iff split: if_splits)
  have "find (\<lambda>x. kof x = kof r) (t_rows T t) = None"
    using no key_clash by (auto simp: find_None_iff)
  then show ?thesis
    using assms(1,2) mk_inj[OF _ assms(2)]
    by (auto simp: same_rows_def t' rows_store find_snoc get_put split: option.split)
qed

lemma insert_taken:
  assumes "same m t" and "K (kof r)" and "get m (mk (kof r)) = Some x" and "t_check T r"
  shows "insert_into T r t = Inl UniqueViolation"
  using same_row[OF assms(1-3)] key_clash[of x r] assms(4) always
  by (auto simp: insert_into_def list_ex_iff)

lemma update_same:
  assumes "same m t" and "\<And>r. kof (f r) = kof r" and "update_where T P f t = Inr (n, t')"
    and "\<And>k. K k \<Longrightarrow> get m' (mk k) = map_option (\<lambda>r. if P r then f r else r) (get m (mk k))"
  shows "same m' t'"
proof -
  from assms(3) have "t' = t_store T (map (\<lambda>r. if P r then f r else r) (t_rows T t)) t"
    by (auto simp: update_where_def Let_def split: if_splits)
  then show ?thesis using same_rows_update[OF assms(1,2,4)] by (simp add: rows_store)
qed

lemma adjust_get:
  assumes "K k" and "K j"
  shows "get (adjust (mk k) f m) (mk j) = (if j = k then map_option f (get m (mk k)) else get m (mk j))"
  using mk_inj[OF assms(2,1)] by (auto simp: get_adjust)

lemma update_key_same:
  assumes "same m t" and "K k" and "\<And>r. kof (f r) = kof r"
    and "update_where T (\<lambda>r. kof r = k) f t = Inr (n, t')"
  shows "same (adjust (mk k) f m) t'" and "n = 0 \<longleftrightarrow> get m (mk k) = None"
proof -
  show "same (adjust (mk k) f m) t'"
  proof (rule update_same[OF assms(1,3,4)])
    fix j assume "K j"
    then show "get (adjust (mk k) f m) (mk j) = map_option (\<lambda>r. if kof r = k then f r else r) (get m (mk j))"
      using same_row[OF assms(1) \<open>K j\<close>] adjust_get[OF assms(2) \<open>K j\<close>, of f m]
      by (cases "get m (mk j)") auto
  qed
  have "n = length (filter (\<lambda>r. kof r = k) (t_rows T t))"
    using assms(4) by (auto simp: update_where_def Let_def split: if_splits)
  moreover have "get m (mk k) = find (\<lambda>r. kof r = k) (t_rows T t)"
    using assms(1,2) by (rule same_rowsD)
  ultimately show "n = 0 \<longleftrightarrow> get m (mk k) = None"
    by (auto simp: find_None_iff filter_empty_conv)
qed

lemma delete_key_same:
  assumes "same m t" and "K k" and "delete_where T (\<lambda>r. kof r = k) t = Inr (n, t')"
    and store: "t_rows T t' = filter (\<lambda>r. kof r \<noteq> k) (t_rows T t)"
  shows "same (del m (mk k)) t'" and "n = 0 \<longleftrightarrow> get m (mk k) = None"
proof -
  show "same (del m (mk k)) t'"
    using assms(1) mk_inj[OF _ assms(2)]
    by (auto simp: same_rows_def store find_filter_key get_del assms(2))
  have "n = length (filter (\<lambda>r. kof r = k) (t_rows T t))"
    using assms(3) by (auto simp: delete_where_def split: if_splits)
  moreover have "get m (mk k) = find (\<lambda>r. kof r = k) (t_rows T t)"
    using assms(1,2) by (rule same_rowsD)
  ultimately show "n = 0 \<longleftrightarrow> get m (mk k) = None"
    by (auto simp: find_None_iff filter_empty_conv)
qed

text \<open>An update that leaves the keys alone and gives rows that satisfy the constraints succeeds.\<close>

lemma update_succeeds:
  assumes "table_ok T t" and "\<And>a b. t_clash T (f a) b = t_clash T a b"
    and "\<And>a b. t_clash T a (f b) = t_clash T a b"
    and "\<And>r. r \<in> set (t_rows T t) \<Longrightarrow> P r \<Longrightarrow> t_check T (f r) \<and> t_refs T t (f r)"
  shows "\<exists>n. update_where T P f t = Inr (n, t_store T (map (\<lambda>r. if P r then f r else r) (t_rows T t)) t)"
proof -
  have "sorted_wrt (\<lambda>a b. \<not> t_clash T a b) (map (\<lambda>r. if P r then f r else r) (t_rows T t))"
    using assms(1-3) by (auto simp: table_ok_def sorted_wrt_map if_distrib[of "\<lambda>x. t_clash T x _"]
        if_distrib[of "t_clash T _"] cong: if_cong)
  then show ?thesis
    using assms(4) always by (auto simp: update_where_def Let_def list_all_iff)
qed

lemma lookup_same:
  assumes "table_ok T t" and "scan_ok e" and "same m t" and "K k"
    and "\<And>a b. t_clash T a b \<Longrightarrow> t_clash T b a"
  shows "mapNotFound (pool_query Answered True (select_where e T (\<lambda>r. kof r = k) t)) =
    (case get m (mk k) of None \<Rightarrow> Inl ErrNotFound | Some r \<Rightarrow> Inr r)"
proof (cases "get m (mk k)")
  case None
  then have "select_where e T (\<lambda>r. kof r = k) t = Inr []"
    using same_none[OF assms(3,4) None] assms(2) by (intro select_none always) auto
  with None show ?thesis by (simp add: pool_query_def mapNotFound_def)
next
  case (Some r)
  note r = same_row[OF assms(3,4) Some]
  have "select_where e T (\<lambda>x. kof x = k) t = Inr [r]"
  proof (rule select_one[OF assms(1) always assms(2)])
    show "r \<in> set (t_rows T t)" "kof r = k" using r by simp_all
    fix x assume "kof x = k"
    then show "t_clash T x r \<and> t_clash T r x" using r key_clash assms(5) by metis
  qed
  with Some show ?thesis by (simp add: pool_query_def mapNotFound_def)
qed

text \<open>The replies of the methods, with an answered round trip and accepted parameters.\<close>

lemma insert_new:
  assumes "same m t" and "K (kof r)" and "t_check T r" and "t_refs T t r"
    and "\<forall>x \<in> set (t_rows T t). t_clash T x r \<longrightarrow> kof x = kof r"
    and "get m (mk (kof r)) = None"
  shows "insert_into T r t = Inr (1, t_store T (t_rows T t @ [r]) t)"
  using same_none[OF assms(1,2,6)] assms(3-5) always
  by (auto simp: insert_into_def list_ex_iff)

lemma create_same:
  assumes "same m t" and "K (kof r)" and "t_check T r" and "t_refs T t r"
    and "\<forall>x \<in> set (t_rows T t). t_clash T x r \<longrightarrow> kof x = kof r"
  shows "create_reply (pool_exec Answered True (insert_into T r) t) =
      (if get m (mk (kof r)) = None then (t_store T (t_rows T t @ [r]) t, None)
       else (t, Some ErrConflict))"
    and "get m (mk (kof r)) = None \<Longrightarrow> same (put m (mk (kof r)) r) (t_store T (t_rows T t @ [r]) t)"
proof -
  note ins = insert_new[OF assms]
  then show "same (put m (mk (kof r)) r) (t_store T (t_rows T t @ [r]) t)"
    if "get m (mk (kof r)) = None"
    using that insert_same[OF assms(1,2)] by blast
  show "create_reply (pool_exec Answered True (insert_into T r) t) =
      (if get m (mk (kof r)) = None then (t_store T (t_rows T t @ [r]) t, None)
       else (t, Some ErrConflict))"
    using ins insert_taken[OF assms(1,2) _ assms(3)] by auto
qed

lemma update_reply_same:
  assumes "table_ok T t" and "same m t" and "K k" and "\<And>r. kof (f r) = kof r"
    and "\<And>a b. t_clash T (f a) b = t_clash T a b" and "\<And>a b. t_clash T a (f b) = t_clash T a b"
    and "\<forall>r \<in> set (t_rows T t). kof r = k \<longrightarrow> t_check T (f r) \<and> t_refs T t (f r)"
  shows "update_reply (pool_exec Answered True (update_where T (\<lambda>r. kof r = k) f) t) =
      (t_store T (map (\<lambda>r. if kof r = k then f r else r) (t_rows T t)) t,
       if get m (mk k) = None then Some ErrNotFound else None)"
    and "same (adjust (mk k) f m) (t_store T (map (\<lambda>r. if kof r = k then f r else r) (t_rows T t)) t)"
proof -
  obtain n where n: "update_where T (\<lambda>r. kof r = k) f t =
      Inr (n, t_store T (map (\<lambda>r. if kof r = k then f r else r) (t_rows T t)) t)"
    using update_succeeds[OF assms(1,5,6), of "\<lambda>r. kof r = k"] assms(7) by blast
  note s = update_key_same[OF assms(2-4) n]
  from s(1) show "same (adjust (mk k) f m)
      (t_store T (map (\<lambda>r. if kof r = k then f r else r) (t_rows T t)) t)" .
  show "update_reply (pool_exec Answered True (update_where T (\<lambda>r. kof r = k) f) t) =
      (t_store T (map (\<lambda>r. if kof r = k then f r else r) (t_rows T t)) t,
       if get m (mk k) = None then Some ErrNotFound else None)"
    using s(2) by (simp add: n update_reply_def)
qed

lemma delete_reply_same:
  assumes "same m t" and "K k"
  shows "update_reply (pool_exec Answered True (delete_where T (\<lambda>r. kof r = k)) t) =
      (t_store T (filter (\<lambda>r. kof r \<noteq> k) (t_rows T t)) t,
       if get m (mk k) = None then Some ErrNotFound else None)"
    and "same (del m (mk k)) (t_store T (filter (\<lambda>r. kof r \<noteq> k) (t_rows T t)) t)"
proof -
  have d: "delete_where T (\<lambda>r. kof r = k) t = Inr (length (filter (\<lambda>r. kof r = k) (t_rows T t)),
      t_store T (filter (\<lambda>r. kof r \<noteq> k) (t_rows T t)) t)"
    using always by (simp add: delete_where_def)
  note s = delete_key_same[OF assms d]
  from s(1) show "same (del m (mk k)) (t_store T (filter (\<lambda>r. kof r \<noteq> k) (t_rows T t)) t)"
    by (simp add: rows_store)
  show "update_reply (pool_exec Answered True (delete_where T (\<lambda>r. kof r = k)) t) =
      (t_store T (filter (\<lambda>r. kof r \<noteq> k) (t_rows T t)) t,
       if get m (mk k) = None then Some ErrNotFound else None)"
    using s(2) by (simp add: d update_reply_def rows_store)
qed

lemma same_cong: "same m1 t \<Longrightarrow> (\<And>j. get m2 j = get m1 j) \<Longrightarrow> same m2 t"
  by (simp add: same_rows_def)

lemma absent_same: "same (adjust (mk k) f m) t \<Longrightarrow> get m (mk k) = None \<Longrightarrow> same m t"
  by (erule same_cong) (simp add: get_adjust)

lemma put_same: "same (adjust (mk k) f m) t \<Longrightarrow> get m (mk k) = Some r \<Longrightarrow> same (put m (mk k) (f r)) t"
  by (erule same_cong) (simp add: get_adjust get_put)

lemma gone_same: "same (del m (mk k)) t \<Longrightarrow> get m (mk k) = None \<Longrightarrow> same m t"
  by (erule same_cong) (simp add: get_del)

end

section \<open>Six tables\<close>

definition any_key :: "string \<Rightarrow> bool" where
  "any_key k \<longleftrightarrow> True"

definition own_key :: "string \<Rightarrow> string" where
  "own_key k = k"

lemmas plain_keys [simp] = any_key_def own_key_def

interpretation token_rows: keyed_table refresh_tokens "\<lambda>r. []" any_key own_key rt_Hash
  by unfold_locales (auto simp: refresh_tokens_def ref_defs)

interpretation org_rows: keyed_table organizations og_ID any_key own_key og_ID
  by unfold_locales (auto simp: organizations_def ref_defs)

interpretation workflow_rows: keyed_table workflows wf_ID any_key own_key wf_ID
  by unfold_locales (auto simp: workflows_def ref_defs)

interpretation run_rows: keyed_table workflow_runs "\<lambda>r. []" any_key own_key wr_ID
  by unfold_locales (auto simp: workflow_runs_def ref_defs)

interpretation invite_rows: keyed_table org_invites "\<lambda>r. []" any_key own_key iv_TokenHash
  by unfold_locales (auto simp: org_invites_def invite_clash_def)

text \<open>Memberships are compared under the organisations whose identifier has no colon.\<close>

definition plain_org :: "string \<times> string \<Rightarrow> bool" where
  "plain_org k \<longleftrightarrow> CHR '':'' \<notin> set (fst k)"

definition member_key :: "string \<times> string \<Rightarrow> string" where
  "member_key k = memberKey (fst k) (snd k)"

definition member_pair :: "Membership \<Rightarrow> string \<times> string" where
  "member_pair r = (mb_OrganizationID r, mb_UserID r)"

interpretation member_rows: keyed_table memberships "\<lambda>r. []" plain_org member_key member_pair
  by unfold_locales
    (auto simp: memberships_def member_clash_def plain_org_def member_key_def member_pair_def
      memberKey_inj)

end
