(* ===== verification/Pg_Refines.thy ===== *)
theory Pg_Refines
  imports Pg_Claims Pg_Keyed
begin

text \<open>
  The two implementations of the \<open>Store\<close> interface side by side: on the calls that the service makes
  on refresh tokens, organisations, members, invitations, workflows and their runs, the PostgreSQL
  store and the in-memory store give the same replies and hold the same records.
\<close>

section \<open>Calls and runs\<close>

text \<open>\<open>NewOrg\<close> is the pair of calls that \<open>createOrganization\<close> of \<open>teams.go\<close> makes: the organisation, and
  when it was created its owner's membership.\<close>

datatype store_call =
    NewToken string string string time
  | UseToken string time
  | KillFamily string time
  | NewOrg Organization
  | AddMember string string string "time option"
  | SetRole string string string
  | DropMember string string
  | NewInvite OrgInvite
  | TakeInvite string time
  | NewWorkflow Workflow
  | SetWorkflow Workflow
  | NewRun WorkflowRun
  | SetRun WorkflowRun

definition mem_new_org :: "Organization \<Rightarrow> MemoryStore \<Rightarrow> mem_result" where
  "mem_new_org g m =
     (case CreateOrganization m g of
        (m, Some err) \<Rightarrow> (m, Some err)
      | (m, None) \<Rightarrow> (fst (CreateMembership m (og_ID g) (og_OwnerID g) ''owner'' None), None))"

definition pg_new_org :: "pg_env \<Rightarrow> Organization \<Rightarrow> pg_tables \<Rightarrow> pg_result" where
  "pg_new_org e g t =
     (case pg_CreateOrganization e net_ok t g of
        (t, Some err) \<Rightarrow> (t, Some err)
      | (t, None) \<Rightarrow>
          (fst (pg_CreateMembership e Answered t (og_ID g) (og_OwnerID g) ''owner'' None), None))"

primrec mem_call :: "store_call \<Rightarrow> MemoryStore \<Rightarrow> mem_result" where
  "mem_call (NewToken h u f x) m = CreateRefreshToken m h u f x"
| "mem_call (UseToken h now) m = MarkRefreshTokenUsed m h now"
| "mem_call (KillFamily f now) m = RevokeFamily now m f"
| "mem_call (NewOrg g) m = mem_new_org g m"
| "mem_call (AddMember g u r x) m = CreateMembership m g u r x"
| "mem_call (SetRole g u r) m = UpdateMemberRole m g u r"
| "mem_call (DropMember g u) m = RemoveMembership m g u"
| "mem_call (NewInvite i) m = CreateInvite m i"
| "mem_call (TakeInvite h now) m = AcceptInvite m h now"
| "mem_call (NewWorkflow w) m = CreateWorkflow m w"
| "mem_call (SetWorkflow w) m = UpdateWorkflow m w"
| "mem_call (NewRun r) m = CreateWorkflowRun m r"
| "mem_call (SetRun r) m = UpdateWorkflowRun m r"

primrec pg_call :: "pg_env \<Rightarrow> store_call \<Rightarrow> pg_tables \<Rightarrow> pg_result" where
  "pg_call e (NewToken h u f x) t = pg_CreateRefreshToken e Answered t h u f x"
| "pg_call e (UseToken h now) t = pg_MarkRefreshTokenUsed e Answered t h now"
| "pg_call e (KillFamily f now) t = pg_RevokeFamily e Answered now t f"
| "pg_call e (NewOrg g) t = pg_new_org e g t"
| "pg_call e (AddMember g u r x) t = pg_CreateMembership e Answered t g u r x"
| "pg_call e (SetRole g u r) t = pg_UpdateMemberRole e Answered t g u r"
| "pg_call e (DropMember g u) t = pg_RemoveMembership e Answered t g u"
| "pg_call e (NewInvite i) t = pg_CreateInvite e Answered t i"
| "pg_call e (TakeInvite h now) t = pg_AcceptInvite e Answered t h now"
| "pg_call e (NewWorkflow w) t = pg_CreateWorkflow e Answered t w"
| "pg_call e (SetWorkflow w) t = pg_UpdateWorkflow e Answered t w"
| "pg_call e (NewRun r) t = pg_CreateWorkflowRun e Answered t r"
| "pg_call e (SetRun r) t = pg_UpdateWorkflowRun e Answered t r"

text \<open>The calls on which the stores agree: texts the database accepts, instants in microseconds,
  values that the constraints of the migrations allow, references to records that exist, identifiers
  of organisations without a colon, a document that the database keeps as it is, and of an update
  only the columns that it writes. The tokens of refresh tokens and invitations are new, and an
  invitation is taken once.\<close>

definition exact :: "time option \<Rightarrow> bool" where
  "exact x \<longleftrightarrow> (case x of None \<Rightarrow> True | Some v \<Rightarrow> v mod 1000 = 0)"

definition plain_id :: "string \<Rightarrow> bool" where
  "plain_id g \<longleftrightarrow> CHR '':'' \<notin> set g"

definition member_row :: "string \<Rightarrow> string \<Rightarrow> string \<Rightarrow> time option \<Rightarrow> Membership" where
  "member_row g u r x =
     \<lparr>mb_OrganizationID = g, mb_UserID = u, mb_Role = r, mb_ExpiresAt = x\<rparr>"

primrec regular :: "pg_env \<Rightarrow> pg_tables \<Rightarrow> store_call \<Rightarrow> bool" where
  "regular e t (NewToken h u f x) \<longleftrightarrow> texts e [u, f] \<and> x mod 1000 = 0 \<and> user_exists t u \<and>
     \<not> has_id rt_Hash (tb_refresh_tokens t) h"
| "regular e t (UseToken h now) \<longleftrightarrow> now mod 1000 = 0"
| "regular e t (KillFamily f now) \<longleftrightarrow> texts e [f] \<and> now mod 1000 = 0"
| "regular e t (NewOrg g) \<longleftrightarrow> texts e [og_ID g, og_Name g, og_OwnerID g, ''owner''] \<and>
     og_CreatedAt g mod 1000 = 0 \<and> plain_id (og_ID g) \<and> user_exists t (og_OwnerID g)"
| "regular e t (AddMember g u r x) \<longleftrightarrow> texts e [g, u, r] \<and> exact x \<and> plain_id g \<and>
     member_check (member_row g u r x) \<and> member_refs t (member_row g u r x)"
| "regular e t (SetRole g u r) \<longleftrightarrow> texts e [r, g, u] \<and> plain_id g \<and>
     member_check (member_row g u r None)"
| "regular e t (DropMember g u) \<longleftrightarrow> texts e [g, u] \<and> plain_id g"
| "regular e t (NewInvite i) \<longleftrightarrow>
     texts e [iv_ID i, iv_OrgID i, iv_Email i, iv_Role i, iv_TokenHash i] \<and>
     iv_ExpiresAt i mod 1000 = 0 \<and> iv_AcceptedAt i = None \<and> invite_check i \<and>
     org_exists t (iv_OrgID i) \<and> list_all (\<lambda>x. \<not> invite_clash x i) (tb_org_invites t)"
| "regular e t (TakeInvite h now) \<longleftrightarrow> texts e [h] \<and> now mod 1000 = 0 \<and>
     list_all (\<lambda>x. iv_TokenHash x = h \<longrightarrow> iv_AcceptedAt x = None) (tb_org_invites t)"
| "regular e t (NewWorkflow w) \<longleftrightarrow>
     texts e ([wf_ID w, wf_OrganizationID w, wf_Name w, wf_CreatedBy w] @ wf_RequiredPermissions w) \<and>
     slice_ok e (wf_RequiredPermissions w) \<and> pe_jsonb e (wf_Definition w) = Some (wf_Definition w) \<and>
     workflow_refs t w"
| "regular e t (SetWorkflow w) \<longleftrightarrow>
     texts e ([wf_Name w, wf_ID w] @ wf_RequiredPermissions w) \<and>
     slice_ok e (wf_RequiredPermissions w) \<and> slice_ok e (wf_Definition w) \<and>
     pe_jsonb e (wf_Definition w) = Some (wf_Definition w) \<and>
     list_all (\<lambda>x. wf_ID x = wf_ID w \<longrightarrow> wf_OrganizationID x = wf_OrganizationID w \<and>
       wf_CreatedBy x = wf_CreatedBy w) (tb_workflows t)"
| "regular e t (NewRun r) \<longleftrightarrow>
     texts e ([wr_ID r, wr_WorkflowID r, wr_SessionID r, wr_State r] @ opt_text (wr_ApprovedBy r)) \<and>
     exact (wr_StartedAt r) \<and> wr_FinishedAt r = None \<and> run_refs t r"
| "regular e t (SetRun r) \<longleftrightarrow>
     texts e ([wr_State r, wr_ID r] @ opt_text (wr_ApprovedBy r)) \<and>
     exact (wr_StartedAt r) \<and> exact (wr_FinishedAt r) \<and>
     (case wr_ApprovedBy r of None \<Rightarrow> True | Some u \<Rightarrow> user_exists t u) \<and>
     list_all (\<lambda>x. wr_ID x = wr_ID r \<longrightarrow> wr_WorkflowID x = wr_WorkflowID r \<and>
       wr_SessionID x = wr_SessionID r) (tb_workflow_runs t)"

primrec regular_run :: "pg_env \<Rightarrow> store_call list \<Rightarrow> pg_tables \<Rightarrow> bool" where
  "regular_run e [] t \<longleftrightarrow> True"
| "regular_run e (a # as) t \<longleftrightarrow> regular e t a \<and> regular_run e as (fst (pg_call e a t))"

primrec replies :: "('op \<Rightarrow> 's \<Rightarrow> 's \<times> 'r) \<Rightarrow> 'op list \<Rightarrow> 's \<Rightarrow> 'r list" where
  "replies f [] s = []"
| "replies f (a # as) s = snd (f a s) # replies f as (fst (f a s))"

definition final :: "('op \<Rightarrow> 's \<Rightarrow> 's \<times> 'r) \<Rightarrow> 'op list \<Rightarrow> 's \<Rightarrow> 's" where
  "final f as s = fold (\<lambda>a s. fst (f a s)) as s"

section \<open>The simulation\<close>

definition same_store :: "MemoryStore \<Rightarrow> pg_tables \<Rightarrow> bool" where
  "same_store m t \<longleftrightarrow>
     same_rows any_key own_key rt_Hash (ms_refresh m) (tb_refresh_tokens t) \<and>
     same_rows any_key own_key og_ID (ms_orgs m) (tb_organizations t) \<and>
     same_rows plain_org member_key member_pair (ms_memberships m) (tb_memberships t) \<and>
     same_rows any_key own_key iv_TokenHash (ms_invites m) (tb_org_invites t) \<and>
     same_rows any_key own_key wf_ID (ms_workflows m) (tb_workflows t) \<and>
     same_rows any_key own_key wr_ID (ms_wfRuns m) (tb_workflow_runs t)"

lemma same_storeD:
  assumes "same_store m t"
  shows "token_rows.same (ms_refresh m) t" "org_rows.same (ms_orgs m) t"
    "member_rows.same (ms_memberships m) t" "invite_rows.same (ms_invites m) t"
    "workflow_rows.same (ms_workflows m) t" "run_rows.same (ms_wfRuns m) t"
  using assms by (simp_all add: same_store_def)

lemma tables_okD:
  assumes "pg_ok e t"
  shows "table_ok refresh_tokens t" "table_ok organizations t" "table_ok memberships t"
    "table_ok org_invites t" "table_ok workflows t" "table_ok workflow_runs t"
  using assms by (simp_all add: pg_ok_def)

lemma pg_time_exact: "x mod 1000 = 0 \<Longrightarrow> pg_time x = x"
  by (simp add: pg_time_def) (metis mult_div_mod_eq mult.commute add.right_neutral)

lemma exact_time: "exact x \<Longrightarrow> map_option pg_time x = x"
  by (cases x) (simp_all add: exact_def pg_time_exact)

text \<open>What one call owes: the same reply, and the same records afterwards.\<close>

definition simulates :: "pg_env \<Rightarrow> store_call \<Rightarrow> MemoryStore \<Rightarrow> pg_tables \<Rightarrow> bool" where
  "simulates e a m t \<longleftrightarrow> snd (pg_call e a t) = snd (mem_call a m) \<and>
     same_store (fst (mem_call a m)) (fst (pg_call e a t))"

lemma simulatesI:
  assumes "pg_call e a t = (t', r)" and "mem_call a m = (m', r)" and "same_store m' t'"
  shows "simulates e a m t"
  using assms by (simp add: simulates_def)


text \<open>One call changes one of the six.\<close>

lemma same_store_update:
  assumes "same_store m t"
  shows "token_rows.same k1 (t_store refresh_tokens rs1 t) \<Longrightarrow>
      same_store (m\<lparr>ms_refresh := k1\<rparr>) (t_store refresh_tokens rs1 t)"
    and "org_rows.same k2 (t_store organizations rs2 t) \<Longrightarrow>
      same_store (m\<lparr>ms_orgs := k2\<rparr>) (t_store organizations rs2 t)"
    and "member_rows.same k3 (t_store memberships rs3 t) \<Longrightarrow>
      same_store (m\<lparr>ms_memberships := k3\<rparr>) (t_store memberships rs3 t)"
    and "invite_rows.same k4 (t_store org_invites rs4 t) \<Longrightarrow>
      same_store (m\<lparr>ms_invites := k4\<rparr>) (t_store org_invites rs4 t)"
    and "workflow_rows.same k5 (t_store workflows rs5 t) \<Longrightarrow>
      same_store (m\<lparr>ms_workflows := k5\<rparr>) (t_store workflows rs5 t)"
    and "run_rows.same k6 (t_store workflow_runs rs6 t) \<Longrightarrow>
      same_store (m\<lparr>ms_wfRuns := k6\<rparr>) (t_store workflow_runs rs6 t)"
  using assms by (simp_all add: same_store_def refresh_tokens_def organizations_def memberships_def
      org_invites_def workflows_def workflow_runs_def)

lemma same_store_absent:
  assumes "same_store m t"
  shows "member_rows.same (ms_memberships m) (t_store memberships rs3 t) \<Longrightarrow>
      same_store m (t_store memberships rs3 t)"
    and "token_rows.same (ms_refresh m) (t_store refresh_tokens rs1 t) \<Longrightarrow>
      same_store m (t_store refresh_tokens rs1 t)"
    and "invite_rows.same (ms_invites m) (t_store org_invites rs4 t) \<Longrightarrow>
      same_store m (t_store org_invites rs4 t)"
    and "workflow_rows.same (ms_workflows m) (t_store workflows rs5 t) \<Longrightarrow>
      same_store m (t_store workflows rs5 t)"
    and "run_rows.same (ms_wfRuns m) (t_store workflow_runs rs6 t) \<Longrightarrow>
      same_store m (t_store workflow_runs rs6 t)"
  using assms by (simp_all add: same_store_def refresh_tokens_def memberships_def org_invites_def
      workflows_def workflow_runs_def)

section \<open>Refresh tokens\<close>

lemma token_simps:
  "t_check refresh_tokens r" "t_refs refresh_tokens t r = user_exists t (rt_UserID r)"
  "t_clash refresh_tokens a b \<longleftrightarrow> rt_Hash a = rt_Hash b" "t_rows refresh_tokens t = tb_refresh_tokens t"
  by (simp_all add: refresh_tokens_def)

lemma NewToken_simulates:
  assumes "same_store m t" and "regular e t (NewToken h u f x)"
  shows "simulates e (NewToken h u f x) m t"
proof -
  let ?r = "\<lparr>rt_Hash = h, rt_UserID = u, rt_FamilyID = f, rt_ExpiresAt = x, rt_UsedAt = None,
    rt_RevokedAt = None\<rparr>"
  from assms(2) have reg: "texts e [u, f]" "pg_time x = x" "user_exists t u"
    and new: "\<not> has_id rt_Hash (tb_refresh_tokens t) h" by (simp_all add: pg_time_exact)
  have "find (\<lambda>r. rt_Hash r = h) (tb_refresh_tokens t) = None"
    using new by (auto simp: find_None_iff has_id_def list_ex_iff)
  then have none: "get (ms_refresh m) (own_key (rt_Hash ?r)) = None"
    using same_rowsD[OF same_storeD(1)[OF assms(1)], of h] by (simp add: token_simps)
  have c: "any_key (rt_Hash ?r)" "t_check refresh_tokens ?r" "t_refs refresh_tokens t ?r"
    "\<forall>x \<in> set (t_rows refresh_tokens t). t_clash refresh_tokens x ?r \<longrightarrow> rt_Hash x = rt_Hash ?r"
    using reg by (simp_all add: token_simps)
  note s = token_rows.create_same[OF same_storeD(1)[OF assms(1)] c]
  show ?thesis
    using s(1) same_store_update(1)[OF assms(1) s(2)[OF none]] none reg(1,2)
    by (intro simulatesI) (simp_all add: pg_CreateRefreshToken_def CreateRefreshToken_def)
qed

lemma UseToken_simulates:
  assumes "pg_ok e t" and "same_store m t" and "regular e t (UseToken h now)"
  shows "simulates e (UseToken h now) m t"
proof -
  let ?f = "\<lambda>r. r\<lparr>rt_UsedAt := Some now\<rparr>"
  have c: "any_key h" "\<And>r. rt_Hash (?f r) = rt_Hash r"
    "\<And>a b. t_clash refresh_tokens (?f a) b = t_clash refresh_tokens a b"
    "\<And>a b. t_clash refresh_tokens a (?f b) = t_clash refresh_tokens a b"
    "\<forall>r \<in> set (t_rows refresh_tokens t). rt_Hash r = h \<longrightarrow>
      t_check refresh_tokens (?f r) \<and> t_refs refresh_tokens t (?f r)"
    using tables_okD(1)[OF assms(1)] by (auto simp: token_simps table_ok_def list_all_iff)
  note s = token_rows.update_reply_same[OF tables_okD(1)[OF assms(1)] same_storeD(1)[OF assms(2)] c]
  have now: "pg_time now = now" using assms(3) by (simp add: pg_time_exact)
  show ?thesis
  proof (cases "get (ms_refresh m) h")
    case None
    then show ?thesis
      using s(1) same_store_absent(2)[OF assms(2) token_rows.absent_same[OF s(2)]] now
      by (intro simulatesI) (simp_all add: pg_MarkRefreshTokenUsed_def MarkRefreshTokenUsed_def)
  next
    case (Some r)
    then show ?thesis
      using s(1) same_store_update(1)[OF assms(2) s(2)] now
      by (intro simulatesI) (simp_all add: pg_MarkRefreshTokenUsed_def MarkRefreshTokenUsed_def)
  qed
qed


lemma KillFamily_simulates:
  assumes "pg_ok e t" and "same_store m t" and "regular e t (KillFamily f now)"
  shows "simulates e (KillFamily f now) m t"
proof -
  let ?f = "\<lambda>r. r\<lparr>rt_UsedAt := Some now, rt_RevokedAt := Some now\<rparr>"
  obtain n where n: "update_where refresh_tokens (\<lambda>r. rt_FamilyID r = f) ?f t =
      Inr (n, t_store refresh_tokens (map (\<lambda>r. if rt_FamilyID r = f then ?f r else r) (t_rows refresh_tokens t)) t)"
    using token_rows.update_succeeds[OF tables_okD(1)[OF assms(1)], of ?f "\<lambda>r. rt_FamilyID r = f"]
      tables_okD(1)[OF assms(1)] by (auto simp: token_simps table_ok_def list_all_iff)
  have "token_rows.same (each (\<lambda>r. if rt_FamilyID r = f then ?f r else r) (ms_refresh m))
      (t_store refresh_tokens (map (\<lambda>r. if rt_FamilyID r = f then ?f r else r) (t_rows refresh_tokens t)) t)"
    by (rule token_rows.update_same[OF same_storeD(1)[OF assms(2)] _ n]) (simp_all add: get_each)
  then show ?thesis
    using assms(3) n same_store_update(1)[OF assms(2)]
    by (intro simulatesI) (simp_all add: pg_RevokeFamily_def RevokeFamily_def pg_time_exact plain_reply_def)
qed

section \<open>Members\<close>

lemma member_simps:
  "t_check memberships r = member_check r" "t_refs memberships t r = member_refs t r"
  "t_clash memberships a b = member_clash a b" "t_rows memberships t = tb_memberships t"
  "t_exists memberships t" "member_clash a b \<longleftrightarrow> member_pair a = member_pair b"
  by (simp_all add: memberships_def member_clash_def member_pair_def)

lemma member_of_pair: "member_of g u = (\<lambda>r. member_pair r = (g, u))"
  by (simp add: member_pair_def fun_eq_iff)

lemma plain_org_pair: "plain_org (g, u) \<longleftrightarrow> plain_id g"
  by (simp add: plain_org_def plain_id_def)

lemma member_key_pair: "member_key (g, u) = memberKey g u"
  by (simp add: member_key_def)

lemma member_update:
  assumes "pg_ok e t" and "same_store m t" and "plain_id g" and "member_check (member_row g u r None)"
    and f: "\<And>x. mb_OrganizationID (f x) = mb_OrganizationID x \<and> mb_UserID (f x) = mb_UserID x \<and> mb_Role (f x) = r"
  shows "update_reply (pool_exec Answered True (update_where memberships (\<lambda>r. member_pair r = (g, u)) f) t) =
      (t_store memberships (map (\<lambda>r. if member_pair r = (g, u) then f r else r) (t_rows memberships t)) t,
       if get (ms_memberships m) (member_key (g, u)) = None then Some ErrNotFound else None)"
    and "member_rows.same (adjust (member_key (g, u)) f (ms_memberships m))
      (t_store memberships (map (\<lambda>r. if member_pair r = (g, u) then f r else r) (t_rows memberships t)) t)"
proof -
  have p: "member_pair (f x) = member_pair x" for x using f by (simp add: member_pair_def)
  have c: "t_check memberships (f x) \<and> t_refs memberships t (f x)"
    if "x \<in> set (t_rows memberships t)" "member_pair x = (g, u)" for x
    using that tables_okD(3)[OF assms(1)] f[of x] assms(4)
    by (auto simp: member_simps(1-4) table_ok_def list_all_iff member_check_def member_refs_def member_row_def)
  have k: "plain_org (g, u)" using assms(3) by (simp add: plain_org_pair)
  show "update_reply (pool_exec Answered True (update_where memberships (\<lambda>r. member_pair r = (g, u)) f) t) =
      (t_store memberships (map (\<lambda>r. if member_pair r = (g, u) then f r else r) (t_rows memberships t)) t,
       if get (ms_memberships m) (member_key (g, u)) = None then Some ErrNotFound else None)"
    by (rule member_rows.update_reply_same(1)[OF tables_okD(3)[OF assms(1)] same_storeD(3)[OF assms(2)] k])
      (simp_all add: p c member_simps(3,6))
  show "member_rows.same (adjust (member_key (g, u)) f (ms_memberships m))
      (t_store memberships (map (\<lambda>r. if member_pair r = (g, u) then f r else r) (t_rows memberships t)) t)"
    by (rule member_rows.update_reply_same(2)[OF tables_okD(3)[OF assms(1)] same_storeD(3)[OF assms(2)] k])
      (simp_all add: p c member_simps(3,6))
qed

lemma SetRole_simulates:
  assumes "pg_ok e t" and "same_store m t" and "regular e t (SetRole g u r)"
  shows "simulates e (SetRole g u r) m t"
proof -
  from assms(3) have reg: "texts e [r, g, u]" "plain_id g" "member_check (member_row g u r None)"
    by simp_all
  have f: "\<And>x. mb_OrganizationID (x\<lparr>mb_Role := r\<rparr>) = mb_OrganizationID x \<and>
      mb_UserID (x\<lparr>mb_Role := r\<rparr>) = mb_UserID x \<and> mb_Role (x\<lparr>mb_Role := r\<rparr>) = r" by simp
  note s = member_update[OF assms(1,2) reg(2,3) f]
  show ?thesis
  proof (cases "get (ms_memberships m) (memberKey g u)")
    case None
    then show ?thesis
      using s(1) same_store_absent(1)[OF assms(2) member_rows.absent_same[OF s(2)]] reg(1)
      by (intro simulatesI) (simp_all add: pg_UpdateMemberRole_def UpdateMemberRole_def member_of_pair
          member_key_pair)
  next
    case (Some x)
    then show ?thesis
      using s(1) same_store_update(3)[OF assms(2) s(2)] reg(1)
      by (intro simulatesI) (simp_all add: pg_UpdateMemberRole_def UpdateMemberRole_def member_of_pair
          member_key_pair)
  qed
qed

lemma DropMember_simulates:
  assumes "same_store m t" and "regular e t (DropMember g u)"
  shows "simulates e (DropMember g u) m t"
proof -
  from assms(2) have reg: "texts e [g, u]" "plain_org (g, u)" by (simp_all add: plain_org_pair)
  note s = member_rows.delete_reply_same[OF same_storeD(3)[OF assms(1)] reg(2)]
  show ?thesis
  proof (cases "get (ms_memberships m) (memberKey g u)")
    case None
    then show ?thesis
      using s(1) same_store_absent(1)[OF assms(1) member_rows.gone_same[OF s(2)]] reg(1)
      by (intro simulatesI) (simp_all add: pg_RemoveMembership_def RemoveMembership_def member_of_pair
          member_key_pair Let_def)
  next
    case (Some x)
    then show ?thesis
      using s(1) same_store_update(3)[OF assms(1) s(2)] reg(1)
      by (intro simulatesI) (simp_all add: pg_RemoveMembership_def RemoveMembership_def member_of_pair
          member_key_pair Let_def)
  qed
qed


lemma AddMember_simulates:
  assumes "pg_ok e t" and "same_store m t" and "regular e t (AddMember g u r x)"
  shows "simulates e (AddMember g u r x) m t"
proof -
  let ?r = "member_row g u r x" and ?f = "\<lambda>y. y\<lparr>mb_Role := r, mb_ExpiresAt := x\<rparr>"
  from assms(3) have reg: "texts e [g, u, r]" "map_option pg_time x = x" "plain_id g"
      "member_check ?r" "member_refs t ?r" "member_check (member_row g u r None)"
    by (simp_all add: exact_time member_check_def member_row_def)
  have k: "plain_org (member_pair ?r)" "member_pair ?r = (g, u)"
    using reg(3) by (simp_all add: member_pair_def member_row_def plain_org_pair)
  have pg: "pg_call e (AddMember g u r x) t =
      plain_reply (pool_exec Answered True (insert_or_update memberships ?r ?f) t)"
    using reg(1,2) by (simp add: pg_CreateMembership_def member_row_def)
  have mem: "mem_call (AddMember g u r x) m =
      (m\<lparr>ms_memberships := put (ms_memberships m) (member_key (g, u)) ?r\<rparr>, None)"
    by (simp add: CreateMembership_def member_row_def member_key_pair)
  show ?thesis
  proof (cases "get (ms_memberships m) (member_key (member_pair ?r))")
    case None
    have c: "t_check memberships ?r" "t_refs memberships t ?r"
      "\<forall>y \<in> set (t_rows memberships t). t_clash memberships y ?r \<longrightarrow> member_pair y = member_pair ?r"
      using reg(4,5) by (simp_all add: member_simps)
    note ins = member_rows.insert_new[OF same_storeD(3)[OF assms(2)] k(1) c None]
    have no: "\<not> list_ex (\<lambda>y. t_clash memberships y ?r) (t_rows memberships t)"
      using member_rows.same_none[OF same_storeD(3)[OF assms(2)] k(1) None]
      by (auto simp: list_ex_iff member_simps(3,6))
    have "pg_call e (AddMember g u r x) t =
        (t_store memberships (t_rows memberships t @ [?r]) t, None)"
      using no ins unfolding pg by (simp add: insert_or_update_def plain_reply_def)
    then show ?thesis
      using same_store_update(3)[OF assms(2) member_rows.insert_same[OF same_storeD(3)[OF assms(2)] k(1) ins]]
        mem by (intro simulatesI) (simp_all add: k(2))
  next
    case (Some y)
    have y: "y \<in> set (t_rows memberships t)" "member_pair y = (g, u)"
      using member_rows.same_row[OF same_storeD(3)[OF assms(2)] k(1) Some] k(2) by simp_all
    have f: "\<And>z. mb_OrganizationID (?f z) = mb_OrganizationID z \<and> mb_UserID (?f z) = mb_UserID z \<and>
        mb_Role (?f z) = r" by simp
    note s = member_update[OF assms(1,2) reg(3,6) f]
    have some: "get (ms_memberships m) (member_key (g, u)) = Some y" using Some k(2) by simp
    have row: "?f y = ?r" using y(2) by (simp add: member_pair_def member_row_def)
    have "list_ex (\<lambda>y. t_clash memberships y ?r) (t_rows memberships t)"
      "(\<lambda>z. t_clash memberships z ?r) = (\<lambda>z. member_pair z = (g, u))"
      using y by (auto simp: list_ex_iff member_simps(3,6) k(2))
    then have "insert_or_update memberships ?r ?f t =
        update_where memberships (\<lambda>z. member_pair z = (g, u)) ?f t"
      using reg(4) by (simp add: insert_or_update_def member_simps(1,5))
    then have "pg_call e (AddMember g u r x) t = (t_store memberships
        (map (\<lambda>z. if member_pair z = (g, u) then ?f z else z) (t_rows memberships t)) t, None)"
      using s(1) unfolding pg
      by (auto simp: some plain_reply_def update_reply_def pool_exec_def split: sum.splits if_splits)
    then show ?thesis
      using same_store_update(3)[OF assms(2) member_rows.put_same[OF s(2) some]] mem
      by (intro simulatesI) (simp_all add: row)
  qed
qed

section \<open>Invitations\<close>

lemma invite_simps:
  "t_check org_invites r = invite_check r" "t_refs org_invites t r = org_exists t (iv_OrgID r)"
  "t_clash org_invites a b = invite_clash a b" "t_rows org_invites t = tb_org_invites t"
  by (simp_all add: org_invites_def)

lemma NewInvite_simulates:
  assumes "same_store m t" and "regular e t (NewInvite i)"
  shows "simulates e (NewInvite i) m t"
proof -
  from assms(2) have reg: "texts e [iv_ID i, iv_OrgID i, iv_Email i, iv_Role i, iv_TokenHash i]"
      "i\<lparr>iv_ExpiresAt := pg_time (iv_ExpiresAt i), iv_AcceptedAt := None\<rparr> = i"
      "invite_check i" "org_exists t (iv_OrgID i)"
    and new: "\<forall>x \<in> set (tb_org_invites t). \<not> invite_clash x i"
    by (simp_all add: pg_time_exact list_all_iff)
  have "find (\<lambda>r. iv_TokenHash r = iv_TokenHash i) (tb_org_invites t) = None"
    using new by (auto simp: find_None_iff invite_clash_def)
  then have none: "get (ms_invites m) (own_key (iv_TokenHash i)) = None"
    using same_rowsD[OF same_storeD(4)[OF assms(1)], of "iv_TokenHash i"] by (simp add: invite_simps)
  have c: "any_key (iv_TokenHash i)" "t_check org_invites i" "t_refs org_invites t i"
    "\<forall>x \<in> set (t_rows org_invites t). t_clash org_invites x i \<longrightarrow> iv_TokenHash x = iv_TokenHash i"
    using reg new by (simp_all add: invite_simps)
  note s = invite_rows.create_same[OF same_storeD(4)[OF assms(1)] c]
  show ?thesis
    using s(1) same_store_update(4)[OF assms(1) s(2)[OF none]] none reg(1)
    by (intro simulatesI) (simp_all add: pg_CreateInvite_def CreateInvite_def reg(2))
qed

lemma TakeInvite_simulates:
  assumes "pg_ok e t" and "same_store m t" and "regular e t (TakeInvite h now)"
  shows "simulates e (TakeInvite h now) m t"
proof -
  let ?f = "\<lambda>r. r\<lparr>iv_AcceptedAt := Some now\<rparr>"
  from assms(3) have reg: "texts e [h]" "pg_time now = now"
    and unused: "\<forall>x \<in> set (tb_org_invites t). iv_TokenHash x = h \<longrightarrow> iv_AcceptedAt x = None"
    by (simp_all add: pg_time_exact list_all_iff)
  have c: "any_key h" "\<And>r. iv_TokenHash (?f r) = iv_TokenHash r"
    "\<And>a b. t_clash org_invites (?f a) b = t_clash org_invites a b"
    "\<And>a b. t_clash org_invites a (?f b) = t_clash org_invites a b"
    "\<forall>r \<in> set (t_rows org_invites t). iv_TokenHash r = h \<longrightarrow>
      t_check org_invites (?f r) \<and> t_refs org_invites t (?f r)"
    using tables_okD(4)[OF assms(1)]
    by (auto simp: invite_simps invite_clash_def invite_check_def table_ok_def list_all_iff)
  note s = invite_rows.update_reply_same[OF tables_okD(4)[OF assms(1)] same_storeD(4)[OF assms(2)] c]
  have "update_where org_invites (\<lambda>r. iv_TokenHash r = h \<and> iv_AcceptedAt r = None) ?f t =
      update_where org_invites (\<lambda>r. iv_TokenHash r = h) ?f t"
    using unused by (intro update_where_cong) (auto simp: invite_simps)
  then have pg: "pg_call e (TakeInvite h now) t = update_reply (pool_exec Answered True
      (update_where org_invites (\<lambda>r. iv_TokenHash r = h) ?f) t)"
    using reg by (simp add: pg_AcceptInvite_def pool_exec_def)
  show ?thesis
  proof (cases "get (ms_invites m) h")
    case None
    then show ?thesis
      using s(1) same_store_absent(3)[OF assms(2) invite_rows.absent_same[OF s(2)]] pg
      by (intro simulatesI) (simp_all add: AcceptInvite_def)
  next
    case (Some r)
    then show ?thesis
      using s(1) same_store_update(4)[OF assms(2) s(2)] pg
      by (intro simulatesI) (simp_all add: AcceptInvite_def)
  qed
qed


section \<open>Workflows and runs\<close>

lemma workflow_simps:
  "t_check workflows r" "t_refs workflows t r = workflow_refs t r"
  "t_clash workflows a b \<longleftrightarrow> wf_ID a = wf_ID b" "t_rows workflows t = tb_workflows t"
  by (simp_all add: workflows_def)

lemma run_simps:
  "t_check workflow_runs r" "t_refs workflow_runs t r = run_refs t r"
  "t_clash workflow_runs a b \<longleftrightarrow> wr_ID a = wr_ID b" "t_rows workflow_runs t = tb_workflow_runs t"
  by (simp_all add: workflow_runs_def)

lemma NewWorkflow_simulates:
  assumes "same_store m t" and "regular e t (NewWorkflow w)"
  shows "simulates e (NewWorkflow w) m t"
proof -
  from assms(2) have reg: "texts e ([wf_ID w, wf_OrganizationID w, wf_Name w, wf_CreatedBy w] @
        wf_RequiredPermissions w)" "slice_ok e (wf_RequiredPermissions w)"
      "pe_jsonb e (wf_Definition w) = Some (wf_Definition w)" "workflow_refs t w"
    by (simp_all only: regular.simps)
  have c: "any_key (wf_ID w)" "t_check workflows w" "t_refs workflows t w"
    "\<forall>x \<in> set (t_rows workflows t). t_clash workflows x w \<longrightarrow> wf_ID x = wf_ID w"
    using reg(4) by (simp_all add: workflow_simps)
  note s = workflow_rows.create_same[OF same_storeD(5)[OF assms(1)] c]
  have pg: "pg_call e (NewWorkflow w) t =
      create_reply (pool_exec Answered True (insert_into workflows w) t)"
    using reg(1-3) by (simp add: pg_CreateWorkflow_def pool_exec_def)
  show ?thesis
  proof (cases "get (ms_workflows m) (own_key (wf_ID w))")
    case None
    then show ?thesis
      using s(1) same_store_update(5)[OF assms(1) s(2)[OF None]] pg
      by (intro simulatesI) (simp_all add: CreateWorkflow_def)
  next
    case (Some x)
    then show ?thesis
      using s(1) assms(1) pg by (intro simulatesI) (simp_all add: CreateWorkflow_def)
  qed
qed

lemma SetWorkflow_simulates:
  assumes "pg_ok e t" and "same_store m t" and "regular e t (SetWorkflow w)"
  shows "simulates e (SetWorkflow w) m t"
proof -
  let ?f = "\<lambda>r. r\<lparr>wf_Name := wf_Name w, wf_Definition := wf_Definition w,
    wf_RequiredPermissions := wf_RequiredPermissions w, wf_Enabled := wf_Enabled w\<rparr>"
  from assms(3) have reg: "texts e ([wf_Name w, wf_ID w] @ wf_RequiredPermissions w)"
      "slice_ok e (wf_RequiredPermissions w)" "slice_ok e (wf_Definition w)"
      "pe_jsonb e (wf_Definition w) = Some (wf_Definition w)"
    and fixed: "\<forall>x \<in> set (tb_workflows t). wf_ID x = wf_ID w \<longrightarrow>
      wf_OrganizationID x = wf_OrganizationID w \<and> wf_CreatedBy x = wf_CreatedBy w"
    by (simp_all add: list_all_iff)
  have c: "any_key (wf_ID w)" "\<And>r. wf_ID (?f r) = wf_ID r"
    "\<And>a b. t_clash workflows (?f a) b = t_clash workflows a b"
    "\<And>a b. t_clash workflows a (?f b) = t_clash workflows a b"
    "\<forall>r \<in> set (t_rows workflows t). wf_ID r = wf_ID w \<longrightarrow>
      t_check workflows (?f r) \<and> t_refs workflows t (?f r)"
    using tables_okD(5)[OF assms(1)]
    by (auto simp: workflow_simps workflow_refs_def table_ok_def list_all_iff)
  note s = workflow_rows.update_reply_same[OF tables_okD(5)[OF assms(1)] same_storeD(5)[OF assms(2)] c]
  have pg: "pg_call e (SetWorkflow w) t = update_reply (pool_exec Answered True
      (update_where workflows (\<lambda>r. wf_ID r = wf_ID w) ?f) t)"
    using reg by (simp add: pg_UpdateWorkflow_def pool_exec_def)
  show ?thesis
  proof (cases "get (ms_workflows m) (own_key (wf_ID w))")
    case None
    then show ?thesis
      using s(1) same_store_absent(4)[OF assms(2) workflow_rows.absent_same[OF s(2)]] pg
      by (intro simulatesI) (simp_all add: UpdateWorkflow_def)
  next
    case (Some r)
    have "?f r = w"
      using workflow_rows.same_row[OF same_storeD(5)[OF assms(2)] c(1) Some] fixed
      by (auto simp: workflow_simps)
    then show ?thesis
      using s(1) same_store_update(5)[OF assms(2) workflow_rows.put_same[OF s(2) Some]] pg Some
      by (intro simulatesI) (simp_all add: UpdateWorkflow_def)
  qed
qed

lemma NewRun_simulates:
  assumes "same_store m t" and "regular e t (NewRun r)"
  shows "simulates e (NewRun r) m t"
proof -
  from assms(2) have reg: "texts e ([wr_ID r, wr_WorkflowID r, wr_SessionID r, wr_State r] @
        opt_text (wr_ApprovedBy r))" "run_refs t r"
    and row: "r\<lparr>wr_StartedAt := map_option pg_time (wr_StartedAt r), wr_FinishedAt := None\<rparr> = r"
    by (simp_all add: exact_time)
  have c: "any_key (wr_ID r)" "t_check workflow_runs r" "t_refs workflow_runs t r"
    "\<forall>x \<in> set (t_rows workflow_runs t). t_clash workflow_runs x r \<longrightarrow> wr_ID x = wr_ID r"
    using reg(2) by (simp_all add: run_simps)
  note s = run_rows.create_same[OF same_storeD(6)[OF assms(1)] c]
  have pg: "pg_call e (NewRun r) t =
      create_reply (pool_exec Answered True (insert_into workflow_runs r) t)"
    using reg(1) by (simp add: pg_CreateWorkflowRun_def row)
  show ?thesis
  proof (cases "get (ms_wfRuns m) (own_key (wr_ID r))")
    case None
    then show ?thesis
      using s(1) same_store_update(6)[OF assms(1) s(2)[OF None]] pg
      by (intro simulatesI) (simp_all add: CreateWorkflowRun_def)
  next
    case (Some x)
    then show ?thesis
      using s(1) assms(1) pg by (intro simulatesI) (simp_all add: CreateWorkflowRun_def)
  qed
qed

lemma SetRun_simulates:
  assumes "pg_ok e t" and "same_store m t" and "regular e t (SetRun w)"
  shows "simulates e (SetRun w) m t"
proof -
  let ?f = "\<lambda>r. r\<lparr>wr_State := wr_State w, wr_ApprovedBy := wr_ApprovedBy w,
    wr_StartedAt := wr_StartedAt w, wr_FinishedAt := wr_FinishedAt w\<rparr>"
  from assms(3) have reg: "texts e ([wr_State w, wr_ID w] @ opt_text (wr_ApprovedBy w))"
      "map_option pg_time (wr_StartedAt w) = wr_StartedAt w"
      "map_option pg_time (wr_FinishedAt w) = wr_FinishedAt w"
      "case wr_ApprovedBy w of None \<Rightarrow> True | Some u \<Rightarrow> user_exists t u"
    and fixed: "\<forall>x \<in> set (tb_workflow_runs t). wr_ID x = wr_ID w \<longrightarrow>
      wr_WorkflowID x = wr_WorkflowID w \<and> wr_SessionID x = wr_SessionID w"
    by (simp_all add: exact_time list_all_iff)
  have c: "any_key (wr_ID w)" "\<And>r. wr_ID (?f r) = wr_ID r"
    "\<And>a b. t_clash workflow_runs (?f a) b = t_clash workflow_runs a b"
    "\<And>a b. t_clash workflow_runs a (?f b) = t_clash workflow_runs a b"
    "\<forall>r \<in> set (t_rows workflow_runs t). wr_ID r = wr_ID w \<longrightarrow>
      t_check workflow_runs (?f r) \<and> t_refs workflow_runs t (?f r)"
    using tables_okD(6)[OF assms(1)] reg(4)
    by (auto simp: run_simps run_refs_def table_ok_def list_all_iff)
  note s = run_rows.update_reply_same[OF tables_okD(6)[OF assms(1)] same_storeD(6)[OF assms(2)] c]
  have pg: "pg_call e (SetRun w) t = update_reply (pool_exec Answered True
      (update_where workflow_runs (\<lambda>r. wr_ID r = wr_ID w) ?f) t)"
    using reg(1-3) by (simp add: pg_UpdateWorkflowRun_def)
  show ?thesis
  proof (cases "get (ms_wfRuns m) (own_key (wr_ID w))")
    case None
    then show ?thesis
      using s(1) same_store_absent(5)[OF assms(2) run_rows.absent_same[OF s(2)]] pg
      by (intro simulatesI) (simp_all add: UpdateWorkflowRun_def)
  next
    case (Some r)
    have "?f r = w"
      using run_rows.same_row[OF same_storeD(6)[OF assms(2)] c(1) Some] fixed
      by (auto simp: run_simps)
    then show ?thesis
      using s(1) same_store_update(6)[OF assms(2) run_rows.put_same[OF s(2) Some]] pg Some
      by (intro simulatesI) (simp_all add: UpdateWorkflowRun_def)
  qed
qed


section \<open>Organisations\<close>

lemma org_simps:
  "t_check organizations r" "t_refs organizations t r = user_exists t (og_OwnerID r)"
  "t_clash organizations a b \<longleftrightarrow> og_ID a = og_ID b" "t_rows organizations t = tb_organizations t"
  by (simp_all add: organizations_def)

text \<open>With every round trip answered, a new organisation gets its owner's membership with it, and the
  second call changes nothing.\<close>

lemma CreateOrganization_net_ok:
  assumes ok: "pg_ok e t" and texts: "texts e [og_ID g, og_Name g, og_OwnerID g]"
    and owner: "user_exists t (og_OwnerID g)" and free: "\<not> org_exists t (og_ID g)"
  shows "pg_CreateOrganization e net_ok t g = (with_organization g t, None)"
proof -
  have "list_all (member_refs t) (tb_memberships t)"
    using ok by (simp add: pg_ok_def table_ok_def memberships_def)
  then have none: "\<forall>m \<in> set (tb_memberships t). mb_OrganizationID m \<noteq> og_ID g"
    using free by (auto simp: list_all_iff member_refs_def)
  have "texts e [og_ID g, og_OwnerID g]" using texts by (simp add: texts_def)
  then show ?thesis
    using texts owner free none
    by (auto simp: pg_CreateOrganization_def withTx_def numeral_3_eq_3 net_ok_def
        CreateOrganization_tx_def tx_exec_def insert_into_def insert_or_nothing_def organizations_def
        memberships_def has_id_def list_ex_iff create_reply_def plain_reply_def member_check_def
        member_clash_def member_refs_def with_organization_def)
qed

lemma CreateOrganization_taken:
  assumes "texts e [og_ID g, og_Name g, og_OwnerID g]" and "org_exists t (og_ID g)"
  shows "pg_CreateOrganization e net_ok t g = (t, Some ErrConflict)"
  using assms by (auto simp: pg_CreateOrganization_def withTx_def numeral_3_eq_3 net_ok_def
      CreateOrganization_tx_def tx_exec_def insert_into_def organizations_def has_id_def list_ex_iff
      create_reply_def isUnique_def)

lemma with_organization_ok:
  assumes "pg_ok e t" and "pg_CreateOrganization e net_ok t g = (with_organization g t, None)"
  shows "pg_ok e (with_organization g t)"
  using pg_step_stable[OF step_CreateOrganization[of e t net_ok g] stmts_ok assms(1)] assms(2) by simp

lemma owner_row_kept:
  assumes ok: "pg_ok e (with_organization g t)" and texts: "texts e [og_ID g, og_OwnerID g, ''owner'']"
  shows "pg_CreateMembership e Answered (with_organization g t) (og_ID g) (og_OwnerID g) ''owner'' None =
    (with_organization g t, None)"
proof -
  let ?u = "with_organization g t" and ?r = "member_row (og_ID g) (og_OwnerID g) ''owner'' None"
  let ?f = "\<lambda>r. r\<lparr>mb_Role := ''owner'', mb_ExpiresAt := None\<rparr>"
  let ?P = "\<lambda>x. member_clash x ?r"
  have r: "?r \<in> set (tb_memberships ?u)"
    by (simp add: with_organization_def member_row_def)
  have one: "x = ?r" if "x \<in> set (tb_memberships ?u)" "member_clash x ?r" for x
    using tables_okD(3)[OF ok] that r
    by (auto simp: table_ok_def member_simps(1-4) with_organization_def sorted_wrt_append member_row_def)
  have same: "map (\<lambda>x. if ?P x then ?f x else x) (tb_memberships ?u) = tb_memberships ?u"
  proof (intro map_idI)
    fix x assume "x \<in> set (tb_memberships ?u)"
    then show "(if ?P x then ?f x else x) = x" using one[of x] by (cases "?P x") (simp_all add: member_row_def)
  qed
  have refs: "member_refs ?u ?r" "member_check ?r"
    using tables_okD(3)[OF ok] r by (simp_all add: table_ok_def member_simps(1-4) list_all_iff)
  have "?f x = ?r" if "x \<in> set (tb_memberships ?u)" "member_clash x ?r" for x
    using one[OF that] by (simp add: member_row_def)
  then have "update_where memberships ?P ?f ?u = Inr (length (filter ?P (tb_memberships ?u)), ?u)"
    using tables_okD(3)[OF ok] refs
    by (auto simp: update_where_def Let_def same member_simps(1-5) table_ok_def list_all_iff memberships_def)
  moreover have "insert_or_update memberships ?r ?f ?u = update_where memberships ?P ?f ?u"
    using r refs(2) by (auto simp: insert_or_update_def member_simps(1-5) list_ex_iff member_clash_def)
  ultimately show ?thesis
    using texts by (simp add: pg_CreateMembership_def plain_reply_def member_row_def)
qed

lemma NewOrg_simulates:
  assumes ok: "pg_ok e t" and same: "same_store m t" and "regular e t (NewOrg g)"
  shows "simulates e (NewOrg g) m t"
proof -
  let ?r = "member_row (og_ID g) (og_OwnerID g) ''owner'' None"
  from assms(3) have reg: "texts e [og_ID g, og_Name g, og_OwnerID g]" "texts e [og_ID g, og_OwnerID g, ''owner'']"
      "g\<lparr>og_CreatedAt := pg_time (og_CreatedAt g)\<rparr> = g" "plain_id (og_ID g)" "user_exists t (og_OwnerID g)"
    by (simp_all add: texts_def pg_time_exact)
  have find: "get (ms_orgs m) (og_ID g) = find (\<lambda>r. og_ID r = og_ID g) (tb_organizations t)"
    using same_rowsD[OF same_storeD(2)[OF same], of "og_ID g"] by (simp add: org_simps)
  show ?thesis
  proof (cases "org_exists t (og_ID g)")
    case True
    then have "get (ms_orgs m) (og_ID g) \<noteq> None"
      unfolding find by (auto simp: find_None_iff has_id_def list_ex_iff)
    then show ?thesis
      using same CreateOrganization_taken[OF reg(1) True]
      by (intro simulatesI) (simp_all add: pg_new_org_def mem_new_org_def CreateOrganization_def)
  next
    case False
    then have none: "get (ms_orgs m) (og_ID g) = None"
      unfolding find by (auto simp: find_None_iff has_id_def list_ex_iff)
    note new = CreateOrganization_net_ok[OF ok reg(1,5) False]
    note kept = owner_row_kept[OF with_organization_ok[OF ok new] reg(2)]
    let ?t = "t_store organizations (t_rows organizations t @ [g]) t"
    have two: "with_organization g t = t_store memberships (t_rows memberships ?t @ [?r]) ?t"
      by (simp add: with_organization_def organizations_def memberships_def reg(3) member_row_def)
    have c: "any_key (og_ID g)" "t_check organizations g" "t_refs organizations t g"
      "\<forall>x \<in> set (t_rows organizations t). t_clash organizations x g \<longrightarrow> og_ID x = og_ID g"
      using reg(5) by (simp_all add: org_simps)
    have s1: "same_store (m\<lparr>ms_orgs := put (ms_orgs m) (og_ID g) g\<rparr>) ?t"
      using same_store_update(2)[OF same org_rows.create_same(2)[OF same_storeD(2)[OF same] c]] none by simp
    have ins: "insert_into memberships ?r ?t = Inr (1, t_store memberships (t_rows memberships ?t @ [?r]) ?t)"
      using tables_okD(3)[OF ok] False reg(5)
      by (auto simp: insert_into_def member_simps(1-5) table_ok_def list_all_iff list_ex_iff has_id_def
          member_refs_def member_check_def member_clash_def member_row_def organizations_def)
    have "plain_org (member_pair ?r)" using reg(4) by (simp add: member_pair_def member_row_def plain_org_pair)
    from same_store_update(3)[OF s1 member_rows.insert_same[OF same_storeD(3)[OF s1] this ins]]
    have "same_store (m\<lparr>ms_orgs := put (ms_orgs m) (og_ID g) g,
        ms_memberships := put (ms_memberships m) (member_key (member_pair ?r)) ?r\<rparr>) (with_organization g t)"
      unfolding two by simp
    then show ?thesis
      using none new kept
      by (intro simulatesI) (simp_all add: pg_new_org_def mem_new_org_def CreateOrganization_def
          CreateMembership_def member_pair_def member_key_pair member_row_def)
  qed
qed


section \<open>Runs\<close>

lemma pg_call_ok:
  assumes "pg_ok e t"
  shows "pg_ok e (fst (pg_call e a t))"
proof -
  note ok = pg_step_stable[OF _ stmts_ok]
  have org: "pg_ok e (fst (pg_new_org e g t))" for g
  proof -
    obtain t1 r where c: "pg_CreateOrganization e net_ok t g = (t1, r)" by fastforce
    have "pg_ok e t1" using ok[OF step_CreateOrganization assms, of net_ok g] c by simp
    then show ?thesis
      using ok[OF step_CreateMembership, of e t1] c
      by (cases r) (simp_all add: pg_new_org_def)
  qed
  show ?thesis
    using assms org
    by (cases a) (auto intro: ok step_CreateRefreshToken step_MarkRefreshTokenUsed step_RevokeFamily
        step_CreateMembership step_UpdateMemberRole step_RemoveMembership step_CreateInvite
        step_AcceptInvite step_CreateWorkflow step_UpdateWorkflow step_CreateWorkflowRun
        step_UpdateWorkflowRun)
qed

lemma call_simulates:
  assumes "pg_ok e t" and "same_store m t" and "regular e t a"
  shows "simulates e a m t"
  using assms
  by (cases a) (auto simp only: NewToken_simulates UseToken_simulates KillFamily_simulates
      NewOrg_simulates AddMember_simulates SetRole_simulates DropMember_simulates NewInvite_simulates
      TakeInvite_simulates NewWorkflow_simulates SetWorkflow_simulates NewRun_simulates SetRun_simulates)

lemma runs_simulate:
  assumes "pg_ok e t" and "same_store m t" and "regular_run e as t"
  shows "replies (pg_call e) as t = replies mem_call as m \<and>
    same_store (final mem_call as m) (final (pg_call e) as t) \<and> pg_ok e (final (pg_call e) as t)"
  using assms
proof (induction as arbitrary: m t)
  case (Cons a as)
  then have s: "simulates e a m t" and ok: "pg_ok e (fst (pg_call e a t))"
    by (simp_all add: call_simulates pg_call_ok)
  have "regular_run e as (fst (pg_call e a t))" using Cons.prems(3) by simp
  from Cons.IH[OF ok conjunct2[OF s[unfolded simulates_def]] this] s
  show ?case by (simp add: final_def simulates_def)
qed (simp add: final_def)

section \<open>Lookups\<close>

text \<open>The six lookups by key. A token hash is sent as bytes, the other keys as texts.\<close>

lemma same_lookups:
  assumes ok: "pg_ok e t" and scan: "scan_ok e" and same: "same_store m t"
  shows "pg_GetRefreshToken e Answered t h = GetRefreshToken m h"
    and "texts e [k] \<Longrightarrow> pg_GetOrganization e Answered t k = GetOrganization m k"
    and "texts e [g, u] \<Longrightarrow> plain_id g \<Longrightarrow> pg_GetMembership e Answered t g u = GetMembership m g u"
    and "texts e [k] \<Longrightarrow> pg_GetInviteByToken e Answered t k = GetInviteByToken m k"
    and "texts e [k] \<Longrightarrow> pg_GetWorkflow e Answered t k = GetWorkflow m k"
    and "texts e [k] \<Longrightarrow> pg_GetWorkflowRun e Answered t k = GetWorkflowRun m k"
proof -
  note s = same_storeD[OF same] and o' = tables_okD[OF ok]
  show "pg_GetRefreshToken e Answered t h = GetRefreshToken m h"
    using token_rows.lookup_same[OF o'(1) scan s(1), of h]
    by (simp add: token_simps pg_GetRefreshToken_def GetRefreshToken_def)
  show "texts e [k] \<Longrightarrow> pg_GetOrganization e Answered t k = GetOrganization m k"
    using org_rows.lookup_same[OF o'(2) scan s(2), of k]
    by (simp add: org_simps pg_GetOrganization_def GetOrganization_def)
  show "texts e [g, u] \<Longrightarrow> plain_id g \<Longrightarrow> pg_GetMembership e Answered t g u = GetMembership m g u"
    using member_rows.lookup_same[OF o'(3) scan s(3), of "(g, u)"]
    by (simp add: member_simps(3,6) pg_GetMembership_def GetMembership_def member_of_pair plain_org_pair
        member_key_pair)
  show "texts e [k] \<Longrightarrow> pg_GetInviteByToken e Answered t k = GetInviteByToken m k"
    using invite_rows.lookup_same[OF o'(4) scan s(4), of k]
    by (simp add: invite_simps invite_clash_def eq_commute pg_GetInviteByToken_def GetInviteByToken_def)
  show "texts e [k] \<Longrightarrow> pg_GetWorkflow e Answered t k = GetWorkflow m k"
    using workflow_rows.lookup_same[OF o'(5) scan s(5), of k]
    by (simp add: workflow_simps pg_GetWorkflow_def GetWorkflow_def)
  show "texts e [k] \<Longrightarrow> pg_GetWorkflowRun e Answered t k = GetWorkflowRun m k"
    using run_rows.lookup_same[OF o'(6) scan s(6), of k]
    by (simp add: run_simps pg_GetWorkflowRun_def GetWorkflowRun_def)
qed


text \<open>C16: the PostgreSQL store refines the in-memory store on refresh tokens, organisations, members,
  invitations, workflows and workflow runs: from a database in which these tables are empty and a
  fresh in-memory store, any sequence of the regular calls gets the same replies from both, and
  afterwards both answer every lookup by key alike.\<close>

theorem pg_refines_memory:
  assumes "pg_reach e t" and "scan_ok e"
    and "tb_refresh_tokens t = []" "tb_organizations t = []" "tb_memberships t = []"
      "tb_org_invites t = []" "tb_workflows t = []" "tb_workflow_runs t = []"
    and "regular_run e as t" and "texts e [k, u]" and "plain_id k"
  shows "replies (pg_call e) as t = replies mem_call as NewMemoryStore \<and>
    (let t' = final (pg_call e) as t; m = final mem_call as NewMemoryStore in
      pg_GetRefreshToken e Answered t' h = GetRefreshToken m h \<and>
      pg_GetOrganization e Answered t' k = GetOrganization m k \<and>
      pg_GetMembership e Answered t' k u = GetMembership m k u \<and>
      pg_GetInviteByToken e Answered t' k = GetInviteByToken m k \<and>
      pg_GetWorkflow e Answered t' k = GetWorkflow m k \<and>
      pg_GetWorkflowRun e Answered t' k = GetWorkflowRun m k)"
proof -
  have "same_store NewMemoryStore t"
    using assms(3-8) by (simp add: same_store_def NewMemoryStore_def)
  note r = runs_simulate[OF pg_reach_ok[OF assms(1)] this assms(9)]
  have "texts e [k]" using assms(10) by (simp add: texts_def)
  then show ?thesis
    using same_lookups[OF _ assms(2)] r assms(10,11) by (simp add: Let_def)
qed

definition demo_flow :: Workflow where
  "demo_flow = \<lparr>wf_ID = ''w1'', wf_OrganizationID = ''g1'', wf_Name = ''Patch'',
     wf_Definition = ''{}'', wf_RequiredPermissions = [''screen.view''], wf_Enabled = True,
     wf_CreatedBy = ''u1''\<rparr>"

definition demo_calls :: "store_call list" where
  "demo_calls = [NewToken ''h1'' ''u1'' ''f'' 9000, UseToken ''h1'' 2000, KillFamily ''f'' 4000,
     NewOrg demo_team, NewOrg demo_team, SetRole ''g1'' ''u1'' ''viewer'', NewWorkflow demo_flow,
     SetWorkflow (demo_flow\<lparr>wf_Enabled := False\<rparr>), DropMember ''g1'' ''u1'', DropMember ''g1'' ''u1'']"

lemma demo_calls_regular: "regular_run demo_pg demo_calls demo_users"
  unfolding demo_users_tables migrated_def by code_simp

theorem pg_refines_memory_witness:
  "replies (pg_call demo_pg) demo_calls demo_users =
     [None, None, None, None, Some ErrConflict, None, None, None, None, Some ErrNotFound] \<and>
   pg_GetMembership demo_pg Answered (final (pg_call demo_pg) demo_calls demo_users) ''g1'' ''u1'' =
     Inl ErrNotFound"
proof -
  have mem: "replies mem_call demo_calls NewMemoryStore =
      [None, None, None, None, Some ErrConflict, None, None, None, None, Some ErrNotFound]"
    "GetMembership (final mem_call demo_calls NewMemoryStore) ''g1'' ''u1'' = Inl ErrNotFound"
    by code_simp+
  have "texts demo_pg [''g1'', ''u1'']" "plain_id ''g1''"
    by (simp_all add: demo_pg_def texts_def plain_id_def)
  then show ?thesis
    using pg_refines_memory[OF demo_users_reach demo_scan_ok _ _ _ _ _ _ demo_calls_regular,
        of "''g1''" "''u1''" "[]"]
    by (simp add: demo_users_tables migrated_def Let_def mem)
qed

text \<open>Where they differ: the in-memory store takes an invitation again.\<close>

lemma memory_takes_invite_again:
  "get (ms_invites m) h = Some i \<Longrightarrow> snd (AcceptInvite (fst (AcceptInvite m h at)) h later) = None"
  by (simp add: AcceptInvite_def gomap_simps split: option.split)

section \<open>E-mail tokens\<close>

text \<open>In every database that the migrations of the repository create, the three methods on e-mail
  tokens fail and change nothing, whatever their arguments: the table their statements name does not
  exist there.\<close>

lemma pg_email_tokens_missing:
  assumes "pg_reach e t"
  shows "pg_CreateEmailToken e net t h u kd x = (t, Some ErrBackend) \<and>
    pg_GetEmailToken e net t h = Inl ErrBackend \<and>
    pg_DeleteEmailToken e net t h = (t, Some ErrBackend)"
proof -
  have none: "tb_email_verification_tokens t = None"
    by (rule pg_reach_stable[OF stmts_no_etokens _ assms]) (simp add: migrated_def)
  then have "insert_or_nothing email_verification_tokens k t = Inl UndefinedTable" for k
    by (simp add: insert_or_nothing_def insert_into_def)
  then show ?thesis using none
    by (simp add: pg_CreateEmailToken_def pg_GetEmailToken_def pg_DeleteEmailToken_def pool_exec_def
        pool_query_def delete_where_def select_where_def plain_reply_def mapNotFound_def)
qed

end
