(* ===== verification/Redis_Store.thy ===== *)
theory Redis_Store
  imports Pg_Tables
begin

text \<open>
  \<open>internal/store/redis.go\<close>: the decorator that keeps presence in Redis, limits requests by a
  sliding window and passes session updates between servers; every other method is that of the
  store it wraps. The Redis server is a parameter: \<open>redis_ops\<close> holds the commands the code sends,
  each executed at an instant of the server in milliseconds, and the locale \<open>redis_server\<close> states
  what is documented of them. Scores are exact: a millisecond count fits a \<open>float64\<close>.
\<close>

section \<open>The commands\<close>

record 'r redis_ops =
  rd_set :: "'r \<Rightarrow> int \<Rightarrow> string \<Rightarrow> string \<Rightarrow> duration \<Rightarrow> 'r"
  rd_exists :: "'r \<Rightarrow> int \<Rightarrow> string \<Rightarrow> nat"
  rd_zrem_upto :: "'r \<Rightarrow> int \<Rightarrow> string \<Rightarrow> int \<Rightarrow> 'r"
  rd_zcount_from :: "'r \<Rightarrow> int \<Rightarrow> string \<Rightarrow> int \<Rightarrow> nat"
  rd_zadd :: "'r \<Rightarrow> int \<Rightarrow> string \<Rightarrow> int \<Rightarrow> string \<Rightarrow> 'r"
  rd_expire :: "'r \<Rightarrow> int \<Rightarrow> string \<Rightarrow> duration \<Rightarrow> 'r"

text \<open>\<open>entries r t k\<close> are the members with their scores of the sorted set that the server holds
  under \<open>k\<close> at instant \<open>t\<close>, none when the key has expired.\<close>

locale redis_server =
  fixes rd :: "'r redis_ops" and entries :: "'r \<Rightarrow> int \<Rightarrow> string \<Rightarrow> (string \<times> int) set"
  assumes finite_entries: "finite (entries r t k)"
    and zrem_here: "entries (rd_zrem_upto rd r t k x) t k = {e \<in> entries r t k. x < snd e}"
    and zcount_here: "rd_zcount_from rd r t k x = card {e \<in> entries r t k. x \<le> snd e}"
    and zadd_here: "entries (rd_zadd rd r t k x m) t k =
      insert (m, x) {e \<in> entries r t k. fst e \<noteq> m}"
    and expire_here: "ttl mod second = 0 \<Longrightarrow> t \<le> t' \<Longrightarrow> entries (rd_expire rd r t k ttl) t' k =
      (if t' < t + ttl div 1000000 then entries r t k else {})"
    and entries_elsewhere: "k' \<noteq> k \<Longrightarrow> t \<le> t' \<Longrightarrow>
      entries (rd_zrem_upto rd r t k x) t' k' = entries r t' k' \<and>
      entries (rd_zadd rd r t k y m) t' k' = entries r t' k' \<and>
      entries (rd_expire rd r t k ttl) t' k' = entries r t' k' \<and>
      entries (rd_set rd r t k v ttl) t' k' = entries r t' k'"
    and set_here: "1000000 \<le> ttl \<Longrightarrow> t \<le> t' \<Longrightarrow>
      rd_exists rd (rd_set rd r t k v ttl) t' k = (if t' < t + ttl div 1000000 then 1 else 0)"
    and exists_elsewhere: "k' \<noteq> k \<Longrightarrow> t \<le> t' \<Longrightarrow>
      rd_exists rd (rd_zrem_upto rd r t k x) t' k' = rd_exists rd r t' k' \<and>
      rd_exists rd (rd_zadd rd r t k y m) t' k' = rd_exists rd r t' k' \<and>
      rd_exists rd (rd_expire rd r t k ttl) t' k' = rd_exists rd r t' k' \<and>
      rd_exists rd (rd_set rd r t k v ttl) t' k' = rd_exists rd r t' k'"

section \<open>The decorator\<close>

definition presencePrefix :: string where "presencePrefix = ''device:online:''"
definition rateLimitPrefix :: string where "rateLimitPrefix = ''ratelimit:''"

text \<open>The wrapped store and the Redis connection.\<close>

record ('st, 'r) RedisStore =
  rs_Store :: 'st
  rs_rdb :: 'r

definition NewRedisStore :: "'st \<Rightarrow> 'r \<Rightarrow> bool \<Rightarrow> store_error + ('st, 'r) RedisStore" where
  "NewRedisStore base rdb ping =
     (if ping then Inr \<lparr>rs_Store = base, rs_rdb = rdb\<rparr> else Inl ErrBackend)"

text \<open>\<open>Close\<close> closes both, the client first, and returns the client's error before the store's.\<close>

definition redis_Close :: "store_error option \<Rightarrow> store_error option \<Rightarrow> store_error option" where
  "redis_Close rErr bErr = (case rErr of Some err \<Rightarrow> Some err | None \<Rightarrow> bErr)"

text \<open>An inherited method works on the wrapped store and leaves Redis alone.\<close>

definition delegate ::
  "('st \<Rightarrow> 'st \<times> 'v) \<Rightarrow> ('st, 'r) RedisStore \<Rightarrow> ('st, 'r) RedisStore \<times> 'v" where
  "delegate op r = (r\<lparr>rs_Store := fst (op (rs_Store r))\<rparr>, snd (op (rs_Store r)))"

definition redis_SetOnline ::
  "'r redis_ops \<Rightarrow> round_trip \<Rightarrow> int \<Rightarrow> ('st, 'r) RedisStore \<Rightarrow> string \<Rightarrow> duration \<Rightarrow>
   ('st, 'r) RedisStore \<times> store_error option" where
  "redis_SetOnline rd net t r deviceID ttl =
     (if net = NotSent then r
      else r\<lparr>rs_rdb := rd_set rd (rs_rdb r) t (presencePrefix @ deviceID) ''1'' ttl\<rparr>,
      if net = Answered then None else Some ErrBackend)"

definition redis_IsOnline ::
  "'r redis_ops \<Rightarrow> round_trip \<Rightarrow> int \<Rightarrow> ('st, 'r) RedisStore \<Rightarrow> string \<Rightarrow> store_error + bool" where
  "redis_IsOnline rd net t r deviceID =
     (if net \<noteq> Answered then Inl ErrBackend
      else Inr (rd_exists rd (rs_rdb r) t (presencePrefix @ deviceID) > 0))"

section \<open>The sliding window\<close>

text \<open>Go's signed 64-bit arithmetic.\<close>

definition int64 :: "int \<Rightarrow> int" where
  "int64 i = (i + 2 ^ 63) mod 2 ^ 64 - 2 ^ 63"

lemma int64_id: "- (2 ^ 63) \<le> i \<Longrightarrow> i < 2 ^ 63 \<Longrightarrow> int64 i = i"
  by (simp add: int64_def)

definition UnixMilli :: "time \<Rightarrow> int" where
  "UnixMilli t = t div 1000000"

record RateLimitResult =
  rl_Allowed :: bool
  rl_Remaining :: int
  rl_ResetAt :: time

text \<open>The second command of the pipeline is a count: its reply is read, the data stay. The pipeline is answered as a whole, or fails after the server has executed some of its four
  commands.\<close>

datatype pipe_net = PipeAnswered | PipeLost nat

definition pipeline_run :: "('r \<Rightarrow> 'r) list \<Rightarrow> pipe_net \<Rightarrow> 'r \<Rightarrow> 'r" where
  "pipeline_run cmds net r =
     fold (\<lambda>c r. c r) (case net of PipeAnswered \<Rightarrow> cmds | PipeLost n \<Rightarrow> take n cmds) r"

definition CheckSlidingRateLimit ::
  "'r redis_ops \<Rightarrow> pipe_net \<Rightarrow> int \<Rightarrow> time \<Rightarrow> ('st, 'r) RedisStore \<Rightarrow> string \<Rightarrow> int \<Rightarrow> int \<Rightarrow>
   ('st, 'r) RedisStore \<times> (store_error + RateLimitResult)" where
  "CheckSlidingRateLimit rd net t now r key limit windowSec =
     (let nowMS = UnixMilli now;
          windowStart = int64 (nowMS - int64 (windowSec * 1000));
          rkey = rateLimitPrefix @ key;
          r' = pipeline_run
            [\<lambda>r. rd_zrem_upto rd r t rkey windowStart,
             \<lambda>r. r,
             \<lambda>r. rd_zadd rd r t rkey nowMS (FormatInt nowMS),
             \<lambda>r. rd_expire rd r t rkey (int64 (int64 (windowSec * second) * 2))] net (rs_rdb r);
          count = int (rd_zcount_from rd
            (rd_zrem_upto rd (rs_rdb r) t rkey windowStart) t rkey windowStart);
          resetAt = now + int64 (windowSec * second)
      in (r\<lparr>rs_rdb := r'\<rparr>,
          if net \<noteq> PipeAnswered then Inl ErrBackend
          else if count \<ge> limit
          then Inr \<lparr>rl_Allowed = False, rl_Remaining = 0, rl_ResetAt = resetAt\<rparr>
          else Inr \<lparr>rl_Allowed = True, rl_Remaining = limit - count - 1, rl_ResetAt = resetAt\<rparr>))"

section \<open>Publish and subscribe\<close>

text \<open>The loop of \<open>SubscribeSessionUpdated\<close> as a function of the cases its \<open>select\<close> chooses. The
  handler gives its next state and whether it panicked; a panic is recovered and logged.\<close>

datatype sub_case = SubDone | SubClosed | SubMessage string

fun SubscribeSessionUpdated ::
  "(string \<Rightarrow> 'h \<Rightarrow> 'h \<times> bool) \<Rightarrow> sub_case list \<Rightarrow> 'h \<Rightarrow> 'h" where
  "SubscribeSessionUpdated handler [] h = h"
| "SubscribeSessionUpdated handler (SubDone # cs) h = h"
| "SubscribeSessionUpdated handler (SubClosed # cs) h = h"
| "SubscribeSessionUpdated handler (SubMessage payload # cs) h =
     (let (h', panicked) = handler payload h in SubscribeSessionUpdated handler cs h')"

text \<open>Every message up to the end reaches the handler once, in order, whether or not it panics.\<close>

fun delivered :: "sub_case list \<Rightarrow> string list" where
  "delivered (SubMessage payload # cs) = payload # delivered cs"
| "delivered cs = []"

lemma every_message_handled:
  "SubscribeSessionUpdated handler cs h = fold (\<lambda>p h. fst (handler p h)) (delivered cs) h"
proof (induction cs arbitrary: h)
  case (Cons c cs)
  then show ?case by (cases c) (simp_all add: case_prod_beta)
qed simp

section \<open>The limiter over a sequence of calls\<close>

text \<open>Calls of the limiter that were answered: the instant and the key of each.\<close>

primrec limiter_calls ::
  "'r redis_ops \<Rightarrow> int \<Rightarrow> int \<Rightarrow> (time \<times> string) list \<Rightarrow> ('st, 'r) RedisStore \<Rightarrow>
   ('st, 'r) RedisStore" where
  "limiter_calls rd limit windowSec [] r = r"
| "limiter_calls rd limit windowSec (c # cs) r =
     limiter_calls rd limit windowSec cs
       (fst (CheckSlidingRateLimit rd PipeAnswered (UnixMilli (fst c)) (fst c) r (snd c) limit windowSec))"

text \<open>Bounds within which Go's arithmetic in the limiter does not wrap.\<close>

definition in_range :: "int \<Rightarrow> time \<Rightarrow> bool" where
  "in_range windowSec now \<longleftrightarrow>
     0 < windowSec \<and> windowSec < 2 ^ 32 \<and> 0 \<le> now \<and> now < 2 ^ 62"

lemma limiter_call:
  assumes "in_range ws now"
  shows "CheckSlidingRateLimit rd PipeAnswered t now r key limit ws =
    (let k = rateLimitPrefix @ key; m = UnixMilli now; start = m - ws * 1000;
         r' = rd_zrem_upto rd (rs_rdb r) t k start;
         n = int (rd_zcount_from rd r' t k start)
     in (r\<lparr>rs_rdb := rd_expire rd (rd_zadd rd r' t k m (FormatInt m)) t k (ws * second * 2)\<rparr>,
         Inr \<lparr>rl_Allowed = (n < limit), rl_Remaining = (if n < limit then limit - n - 1 else 0),
           rl_ResetAt = now + ws * second\<rparr>))"
proof -
  have "int64 (ws * 1000) = ws * 1000" "int64 (ws * second) = ws * second"
    "int64 (ws * second * 2) = ws * second * 2"
    "int64 (UnixMilli now - ws * 1000) = UnixMilli now - ws * 1000"
    using assms by (auto simp: in_range_def second_def UnixMilli_def intro!: int64_id)
  then show ?thesis
    by (auto simp: CheckSlidingRateLimit_def Let_def pipeline_run_def)
qed

definition stamps :: "(time \<times> string) list \<Rightarrow> string \<Rightarrow> int set" where
  "stamps cs key = set (map (\<lambda>c. UnixMilli (fst c)) (filter (\<lambda>c. snd c = key) cs))"

context redis_server begin

text \<open>The entries of a key after calls at the milliseconds \<open>M\<close>: up to what has left the window, one
  for each millisecond.\<close>

definition tracks :: "'r \<Rightarrow> int \<Rightarrow> int \<Rightarrow> string \<Rightarrow> int set \<Rightarrow> bool" where
  "tracks r w t k M \<longleftrightarrow> finite M \<and> (\<forall>m \<in> M. m \<le> t) \<and> (\<forall>t' \<ge> t.
     entries r t' k \<subseteq> (\<lambda>m. (FormatInt m, m)) ` M \<and>
     (\<lambda>m. (FormatInt m, m)) ` {m \<in> M. t' - w < m} \<subseteq> entries r t' k)"

lemma stamp_inj: "inj (\<lambda>m. (FormatInt m, m :: int))"
  by (simp add: inj_def)

lemma tracks_count:
  assumes "tracks r w t k M"
  shows "rd_zcount_from rd (rd_zrem_upto rd r t k (t - w)) t k (t - w) = card {m \<in> M. t - w < m}"
proof -
  have "{e \<in> entries (rd_zrem_upto rd r t k (t - w)) t k. t - w \<le> snd e} =
      (\<lambda>m. (FormatInt m, m)) ` {m \<in> M. t - w < m}"
    using assms by (fastforce simp: zrem_here tracks_def)
  then show ?thesis
    by (simp add: zcount_here card_image inj_on_subset[OF stamp_inj])
qed

lemma tracks_elsewhere:
  assumes "tracks r w t k M" and "k' \<noteq> k"
  shows "tracks (rd_expire rd (rd_zadd rd (rd_zrem_upto rd r t k' x) t k' y m) t k' ttl) w t k M"
  using assms entries_elsewhere[OF not_sym[OF assms(2)]] by (simp add: tracks_def)

lemma tracks_call:
  assumes "tracks r w t k M" and "ttl mod second = 0" and "ttl div 1000000 = 2 * w" and "0 < w"
  shows "tracks (rd_expire rd (rd_zadd rd (rd_zrem_upto rd r t k (t - w)) t k t (FormatInt t)) t k ttl)
    w t k (insert t M)"
proof -
  have e: "entries (rd_zadd rd (rd_zrem_upto rd r t k (t - w)) t k t (FormatInt t)) t k =
      insert (FormatInt t, t) {e \<in> entries r t k. t - w < snd e}"
  proof -
    have "{e \<in> entries r t k. t - w < snd e \<and> fst e \<noteq> FormatInt t} \<union> {(FormatInt t, t)} =
        {e \<in> entries r t k. t - w < snd e} \<union> {(FormatInt t, t)}"
      using assms(1) by (fastforce simp: tracks_def dest: FormatInt_inj)
    then show ?thesis by (auto simp: zadd_here zrem_here)
  qed
  have "(FormatInt m, m) \<in> entries r t k" if "m \<in> M" "t' - w < m" "t \<le> t'" for m t'
  proof -
    have "(\<lambda>m. (FormatInt m, m)) ` {m \<in> M. t - w < m} \<subseteq> entries r t k"
      using assms(1) by (simp add: tracks_def)
    then show ?thesis using that by auto
  qed
  then show ?thesis
    using assms(1,4) unfolding tracks_def
    by (auto simp: expire_here[OF assms(2)] e assms(3))
qed

lemma tracks_later: "tracks r w t k M \<Longrightarrow> t \<le> t' \<Longrightarrow> tracks r w t' k M"
  by (fastforce simp: tracks_def)

lemma limiter_calls_tracks:
  assumes "sorted_wrt (\<lambda>a b. fst a \<le> fst b) (cs @ [(now, key)])"
    and "\<forall>c \<in> set cs. in_range ws (fst c) \<and> t0 \<le> UnixMilli (fst c)" and "0 < ws"
    and "tracks (rs_rdb r) (ws * 1000) t0 (rateLimitPrefix @ key) M" and "t0 \<le> UnixMilli now"
  shows "tracks (rs_rdb (limiter_calls rd limit ws cs r)) (ws * 1000) (UnixMilli now)
    (rateLimitPrefix @ key) (M \<union> stamps cs key)"
  using assms
proof (induction cs arbitrary: r t0 M)
  case Nil
  then show ?case by (simp add: stamps_def tracks_later)
next
  case (Cons c cs)
  let ?m = "UnixMilli (fst c)"
  let ?k = "rateLimitPrefix @ key"
  let ?M = "if snd c = key then insert ?m M else M"
  let ?r = "fst (CheckSlidingRateLimit rd PipeAnswered ?m (fst c) r (snd c) limit ws)"
  have c: "in_range ws (fst c)" "t0 \<le> ?m" using Cons.prems(2) by auto
  have T: "tracks (rs_rdb r) (ws * 1000) ?m ?k M" by (rule tracks_later[OF Cons.prems(4) c(2)])
  have ttl: "ws * second * 2 mod second = 0" "ws * second * 2 div 1000000 = 2 * (ws * 1000)"
    by (simp_all add: second_def)
  have "tracks (rs_rdb ?r) (ws * 1000) ?m ?k ?M"
    using tracks_call[OF T ttl] tracks_elsewhere[OF T, of "rateLimitPrefix @ snd c"] Cons.prems(3)
    by (simp add: limiter_call[OF c(1)] Let_def)
  moreover have "\<forall>d \<in> set cs. in_range ws (fst d) \<and> ?m \<le> UnixMilli (fst d)"
    using Cons.prems(1,2) by (auto simp: UnixMilli_def zdiv_mono1)
  moreover have "?m \<le> UnixMilli now"
    using Cons.prems(1) by (auto simp: UnixMilli_def zdiv_mono1)
  ultimately have "tracks (rs_rdb (limiter_calls rd limit ws cs ?r)) (ws * 1000) (UnixMilli now) ?k
      (?M \<union> stamps cs key)"
    using Cons.prems(1,3) by (intro Cons.IH) simp_all
  moreover have "?M \<union> stamps cs key = M \<union> stamps (c # cs) key"
    by (cases c) (auto simp: stamps_def)
  ultimately show ?case by simp
qed

lemma limiter_exact:
  assumes "sorted_wrt (\<lambda>a b. fst a \<le> fst b) (cs @ [(now, key)])"
    and "\<forall>c \<in> set (cs @ [(now, key)]). in_range ws (fst c)"
    and "\<And>t. entries (rs_rdb r) t (rateLimitPrefix @ key) = {}"
  shows "\<exists>res. snd (CheckSlidingRateLimit rd PipeAnswered (UnixMilli now) now
      (limiter_calls rd limit ws cs r) key limit ws) = Inr res \<and>
    (rl_Allowed res \<longleftrightarrow> int (card {m \<in> stamps cs key. UnixMilli now - ws * 1000 < m}) < limit)"
proof -
  have r: "in_range ws now" "0 < ws" using assms(2) by (auto simp: in_range_def)
  have "tracks (rs_rdb r) (ws * 1000) 0 (rateLimitPrefix @ key) {}"
    by (simp add: tracks_def assms(3))
  then have "tracks (rs_rdb (limiter_calls rd limit ws cs r)) (ws * 1000) (UnixMilli now)
      (rateLimitPrefix @ key) ({} \<union> stamps cs key)"
    using assms(1,2) r by (intro limiter_calls_tracks) (auto simp: in_range_def UnixMilli_def)
  from tracks_count[OF this] show ?thesis
    by (simp add: limiter_call[OF r(1)] Let_def)
qed

end

section \<open>A server\<close>

text \<open>A Redis server small enough to run: strings and sorted sets with the instant they expire.\<close>

record mini_redis =
  mr_strings :: "(string, int option) gomap"
  mr_zsets :: "(string, (string, int) gomap \<times> int option) gomap"

definition alive :: "int \<Rightarrow> int option \<Rightarrow> bool" where
  "alive t until \<longleftrightarrow> (case until of None \<Rightarrow> True | Some x \<Rightarrow> t < x)"

definition zset_at :: "mini_redis \<Rightarrow> int \<Rightarrow> string \<Rightarrow> (string, int) gomap \<times> int option" where
  "zset_at r t k =
     (case get (mr_zsets r) k of
        None \<Rightarrow> ([], None)
      | Some (z, until) \<Rightarrow> if alive t until then (z, until) else ([], None))"

definition zset_entries :: "mini_redis \<Rightarrow> int \<Rightarrow> string \<Rightarrow> (string \<times> int) set" where
  "zset_entries r t k = set (fst (zset_at r t k))"

definition mini :: "mini_redis redis_ops" where
  "mini =
     \<lparr>rd_set = (\<lambda>r t k v ttl. r\<lparr>mr_strings := put (mr_strings r) k
        (if 1000000 \<le> ttl then Some (t + ttl div 1000000) else None)\<rparr>),
      rd_exists = (\<lambda>r t k. case get (mr_strings r) k of
          None \<Rightarrow> 0 | Some until \<Rightarrow> if alive t until then 1 else 0),
      rd_zrem_upto = (\<lambda>r t k x. r\<lparr>mr_zsets := put (mr_zsets r) k
        (filter (\<lambda>e. x < snd e) (fst (zset_at r t k)), snd (zset_at r t k))\<rparr>),
      rd_zcount_from = (\<lambda>r t k x.
        length (filter (\<lambda>e. x \<le> snd e) (remdups (fst (zset_at r t k))))),
      rd_zadd = (\<lambda>r t k x m. r\<lparr>mr_zsets := put (mr_zsets r) k
        ((m, x) # filter (\<lambda>e. fst e \<noteq> m) (fst (zset_at r t k)), snd (zset_at r t k))\<rparr>),
      rd_expire = (\<lambda>r t k ttl. r\<lparr>mr_zsets := put (mr_zsets r) k
        (fst (zset_at r t k), Some (t + ttl div 1000000))\<rparr>)\<rparr>"

lemma zset_at_alive: "snd (zset_at r t k) = Some x \<Longrightarrow> t < x"
  by (auto simp: zset_at_def alive_def split: option.splits if_splits)

interpretation mini_server: redis_server mini zset_entries
proof
  fix r t k x m and ttl :: int
  have here: "alive t (snd (zset_at r t k))"
    by (cases "snd (zset_at r t k)") (auto simp: alive_def dest: zset_at_alive)
  show "finite (zset_entries r t k)" by (simp add: zset_entries_def)
  show "zset_entries (rd_zrem_upto mini r t k x) t k = {e \<in> zset_entries r t k. x < snd e}"
    using here by (auto simp: zset_entries_def mini_def zset_at_def[of "_\<lparr>mr_zsets := _\<rparr>"] get_put)
  show "rd_zcount_from mini r t k x = card {e \<in> zset_entries r t k. x \<le> snd e}"
    by (simp add: mini_def zset_entries_def distinct_length_filter Int_def conj_commute)
  show "zset_entries (rd_zadd mini r t k x m) t k = insert (m, x) {e \<in> zset_entries r t k. fst e \<noteq> m}"
    using here by (auto simp: zset_entries_def mini_def zset_at_def[of "_\<lparr>mr_zsets := _\<rparr>"] get_put)
next
  fix r k and t t' ttl :: int
  assume "t \<le> t'"
  show "zset_entries (rd_expire mini r t k ttl) t' k =
      (if t' < t + ttl div 1000000 then zset_entries r t k else {})"
    by (simp add: zset_entries_def mini_def zset_at_def[of "_\<lparr>mr_zsets := _\<rparr>"] get_put alive_def)
qed (auto simp: mini_def zset_entries_def zset_at_def get_put alive_def split: option.splits)

section \<open>Properties\<close>

text \<open>C33: the sliding-window limiter, on any Redis server that behaves as documented: after any
  answered calls for any keys, in order of time, a call for a key is allowed exactly when the
  milliseconds inside the window at which earlier calls for that key were made, refused calls
  included and calls of one millisecond counted once, are fewer than the limit.\<close>

theorem redis_limiter_exact:
  assumes "redis_server rd entries"
    and "sorted_wrt (\<lambda>a b. fst a \<le> fst b) (cs @ [(now, key)])"
    and "\<forall>c \<in> set (cs @ [(now, key)]). in_range windowSec (fst c)"
    and "\<And>t. entries (rs_rdb r) t (rateLimitPrefix @ key) = {}"
  shows "\<exists>res. snd (CheckSlidingRateLimit rd PipeAnswered (UnixMilli now) now
      (limiter_calls rd limit windowSec cs r) key limit windowSec) = Inr res \<and>
    (rl_Allowed res \<longleftrightarrow>
       int (card {m \<in> stamps cs key. UnixMilli now - windowSec * 1000 < m}) < limit)"
  by (rule redis_server.limiter_exact[OF assms])

definition fresh_redis :: "(unit, mini_redis) RedisStore" where
  "fresh_redis = \<lparr>rs_Store = (), rs_rdb = \<lparr>mr_strings = [], mr_zsets = []\<rparr>\<rparr>"

text \<open>Three calls in one millisecond pass a limit of two.\<close>

theorem redis_limiter_exact_witness:
  "\<exists>res. snd (CheckSlidingRateLimit mini PipeAnswered 5000 5000000002
      (limiter_calls mini 2 60 [(5000000000, ''k''), (5000000001, ''k'')] fresh_redis) ''k'' 2 60) =
    Inr res \<and> rl_Allowed res"
proof -
  have "stamps [(5000000000, ''k''), (5000000001, ''k'')] ''k'' = {5000}"
    by (simp add: stamps_def UnixMilli_def)
  moreover have "{m. m = 5000 \<and> - 55000 < (m::int)} = {5000}" by auto
  ultimately show ?thesis
    using redis_limiter_exact[OF mini_server.redis_server_axioms,
        of "[(5000000000, ''k''), (5000000001, ''k'')]" 5000000002 "''k''" 60 fresh_redis 2]
    by (auto simp: in_range_def UnixMilli_def zset_entries_def zset_at_def fresh_redis_def)
qed

text \<open>Presence kept in Redis is a lease: after an answered \<open>SetOnline\<close> the device is online until
  its time to live has passed at the server, in whole milliseconds, and no limiter call and no lease
  of another device changes that.\<close>

lemma redis_presence_lease:
  assumes server: "redis_server rd entries" and ttl: "1000000 \<le> ttl" and t: "t \<le> t1" "t1 \<le> t2"
    and other: "other \<noteq> deviceID"
  shows "redis_IsOnline rd Answered t2
      (fst (CheckSlidingRateLimit rd net t1 now
        (fst (redis_SetOnline rd net' t1 (fst (redis_SetOnline rd Answered t r deviceID ttl)) other ttl'))
        key limit windowSec)) deviceID =
    Inr (t2 < t + ttl div 1000000)"
proof -
  let ?p = "presencePrefix @ deviceID"
  have k: "?p \<noteq> rateLimitPrefix @ key" "?p \<noteq> presencePrefix @ other"
    using other by (simp_all add: presencePrefix_def rateLimitPrefix_def)
  note else1 = redis_server.exists_elsewhere[OF server k(1) t(2)]
    and else2 = redis_server.exists_elsewhere[OF server k(2) t(2)]
  have lease: "rd_exists rd (rd_set rd r0 t ?p v ttl) t2 ?p = (if t2 < t + ttl div 1000000 then 1 else 0)"
    for r0 v using redis_server.set_here[OF server ttl order_trans[OF t]] by simp
  have run: "rd_exists rd (pipeline_run
      [\<lambda>r. rd_zrem_upto rd r t1 (rateLimitPrefix @ key) x, \<lambda>r. r,
       \<lambda>r. rd_zadd rd r t1 (rateLimitPrefix @ key) y m,
       \<lambda>r. rd_expire rd r t1 (rateLimitPrefix @ key) z] net r1) t2 ?p = rd_exists rd r1 t2 ?p" for x y m z r1
  proof -
    have "rd_exists rd (fold (\<lambda>c r. c r) (take n
      [\<lambda>r. rd_zrem_upto rd r t1 (rateLimitPrefix @ key) x, \<lambda>r. r,
       \<lambda>r. rd_zadd rd r t1 (rateLimitPrefix @ key) y m,
       \<lambda>r. rd_expire rd r t1 (rateLimitPrefix @ key) z]) r1) t2 ?p = rd_exists rd r1 t2 ?p" for n
      by (auto simp: take_Cons' else1)
    from this this[of 4] show ?thesis by (cases net) (simp_all add: pipeline_run_def)
  qed
  show ?thesis
    by (simp add: redis_IsOnline_def CheckSlidingRateLimit_def Let_def run redis_SetOnline_def lease
        else2)
qed

end
