(* ===== verification/Start_Up.thy ===== *)
theory Start_Up
  imports Ice_Handlers Pg_Store
begin

text \<open>
  \<open>cmd/server/main.go\<close>: from the environment to a serving process or an exit. The
  libraries that open connections are parameters (\<open>start_deps\<close>); log lines are left out, the warning
  on a listener without TLS with them. \<open>net.SplitHostPort\<close> is written out.
\<close>

section \<open>The environment\<close>

definition listen_addr :: "(string \<Rightarrow> string) \<Rightarrow> string" where
  "listen_addr getenv =
     (let addr = getenv ''MUILTDESK_ADDR''; port = getenv ''PORT'' in
      if addr \<noteq> [] then addr
      else if port \<noteq> [] then ''0.0.0.0:'' @ port
      else ''0.0.0.0:8080'')"

datatype start_failure = ExitOne | Panic

text \<open>\<open>random\<close> is what \<open>crypto/rand\<close> fills the 32 bytes with, if it can.\<close>

definition jwt_key :: "(string \<Rightarrow> string) \<Rightarrow> string option \<Rightarrow> start_failure + string" where
  "jwt_key getenv random =
     (let raw = getenv ''MUILTDESK_JWT_KEY'' in
      if raw \<noteq> [] then
        (case StdDecode raw of
           None \<Rightarrow> Inl ExitOne
         | Some key \<Rightarrow> if length key < 32 then Inl ExitOne else Inr key)
      else (case random of None \<Rightarrow> Inl Panic | Some key \<Rightarrow> Inr key))"

definition ice_urls :: "(string \<Rightarrow> string) \<Rightarrow> string list" where
  "ice_urls getenv =
     (let raw = getenv ''MUILTDESK_ICE_URLS'' in
      if raw = [] then []
      else filter (\<lambda>v. v \<noteq> []) (map TrimSpace (split_at (CHR '','') raw)))"

text \<open>\<open>net.SplitHostPort\<close>.\<close>

definition last_index :: "char \<Rightarrow> string \<Rightarrow> nat option" where
  "last_index c s =
     (if c \<in> set s then Some (length s - 1 - length (takeWhile (\<lambda>x. x \<noteq> c) (rev s))) else None)"

definition split_brackets :: "nat \<Rightarrow> string \<Rightarrow> (string \<times> nat \<times> nat) option" where
  "split_brackets i s =
     (let close = length (takeWhile (\<lambda>x. x \<noteq> CHR '']'') s) in
      if CHR '']'' \<notin> set s then None
      else if close + 1 = i then Some (take (close - 1) (drop 1 s), 1, close + 1)
      else None)"

definition SplitHostPort :: "string \<Rightarrow> (string \<times> string) option" where
  "SplitHostPort s =
     (case last_index (CHR '':'') s of
        None \<Rightarrow> None
      | Some i \<Rightarrow>
          (case (if take 1 s = ''['' then split_brackets i s
                 else if CHR '':'' \<in> set (take i s) then None
                 else Some (take i s, 0, 0)) of
             None \<Rightarrow> None
           | Some (host, j, k) \<Rightarrow>
               if CHR ''['' \<in> set (drop j s) \<or> CHR '']'' \<in> set (drop k s) then None
               else Some (host, drop (i + 1) s)))"

section \<open>Starting\<close>

record 'st start_deps =
  sp_random :: "string option"
  sp_ParseConfig :: "string \<Rightarrow> pool_config option"
  sp_opens :: "pool_config \<Rightarrow> bool"
  sp_ping :: bool
  sp_pg :: "pool_config \<Rightarrow> 'st"
  sp_memory :: 'st
  sp_ParseURL :: "string \<Rightarrow> bool"
  sp_redis_ping :: bool
  sp_redis :: "'st \<Rightarrow> 'st"

definition base_store :: "'st start_deps \<Rightarrow> (string \<Rightarrow> string) \<Rightarrow> start_failure + 'st" where
  "base_store d getenv =
     (let dbURL = getenv ''DATABASE_URL'' in
      if dbURL \<noteq> [] then
        (case NewPostgresStore (sp_ParseConfig d) (sp_opens d) (sp_ping d) dbURL of
           Inl err \<Rightarrow> Inl ExitOne
         | Inr cfg \<Rightarrow> Inr (sp_pg d cfg))
      else Inr (sp_memory d))"

definition with_redis :: "'st start_deps \<Rightarrow> (string \<Rightarrow> string) \<Rightarrow> 'st \<Rightarrow> 'st" where
  "with_redis d getenv st =
     (let redisURL = getenv ''REDIS_URL'' in
      if redisURL \<noteq> [] \<and> sp_ParseURL d redisURL \<and> sp_redis_ping d then sp_redis d st else st)"

record http_limits =
  hl_ReadHeaderTimeout :: duration
  hl_ReadTimeout :: duration
  hl_WriteTimeout :: duration
  hl_IdleTimeout :: duration
  hl_MaxHeaderBytes :: int

definition server_limits :: http_limits where
  "server_limits =
     \<lparr>hl_ReadHeaderTimeout = 5 * second, hl_ReadTimeout = 15 * second,
      hl_WriteTimeout = 15 * second, hl_IdleTimeout = 60 * second, hl_MaxHeaderBytes = 16 * 1024\<rparr>"

record 'st serving =
  sg_addr :: string
  sg_service :: "'st service"
  sg_tls :: "(string \<times> string) option"
  sg_limits :: http_limits

definition start_main :: "'st start_deps \<Rightarrow> (string \<Rightarrow> string) \<Rightarrow> start_failure + 'st serving" where
  "start_main d getenv =
     (let addr = listen_addr getenv in
      case jwt_key getenv (sp_random d) of
        Inl f \<Rightarrow> Inl f
      | Inr key \<Rightarrow>
      case base_store d getenv of
        Inl f \<Rightarrow> Inl f
      | Inr st \<Rightarrow>
      case NewWithStore key (Some (with_redis d getenv st)) of
        None \<Rightarrow> Inl Panic
      | Some service \<Rightarrow>
          let iceURLs = ice_urls getenv;
              (service, iceErr) = (if iceURLs \<noteq> []
                then ConfigureICE iceURLs (getenv ''MUILTDESK_TURN_SECRET'') service
                else (service, None));
              cert = getenv ''MUILTDESK_TLS_CERT''; keyfile = getenv ''MUILTDESK_TLS_KEY''
          in if iceErr \<noteq> None then Inl ExitOne
             else if SplitHostPort addr = None then Inl ExitOne
             else Inr \<lparr>sg_addr = addr, sg_service = service,
                       sg_tls = (if cert \<noteq> [] \<and> keyfile \<noteq> [] then Some (cert, keyfile) else None),
                       sg_limits = server_limits\<rparr>)"

section \<open>Properties\<close>

text \<open>C34: the process serves exactly when it has a key of at least 32 bytes (decoded from
  \<open>MUILTDESK_JWT_KEY\<close> when that is set, random otherwise), the database that \<open>DATABASE_URL\<close> names, if
  it names one, answers, every ICE URL is admissible with the TURN secret, and the address splits
  into host and port. It then serves with that key and those URLs, on the database when one is named
  and in memory only when none is, with no account, device or session; Redis is used when it answers
  and never keeps it from serving.\<close>

theorem startup_serves_iff:
  "((\<exists>sg. start_main d getenv = Inr sg) \<longleftrightarrow>
     (\<exists>key. jwt_key getenv (sp_random d) = Inr key \<and> 32 \<le> length key) \<and>
     (getenv ''DATABASE_URL'' \<noteq> [] \<longrightarrow> (\<exists>cfg. sp_ParseConfig d (getenv ''DATABASE_URL'') = Some cfg \<and>
        sp_opens d (pool_limits cfg) \<and> sp_ping d)) \<and>
     check_ice (ice_urls getenv) (getenv ''MUILTDESK_TURN_SECRET'') = None \<and>
     SplitHostPort (listen_addr getenv) \<noteq> None) \<and>
   (\<forall>sg. start_main d getenv = Inr sg \<longrightarrow>
     jwt_key getenv (sp_random d) = Inr (sv_key (sg_service sg)) \<and>
     sv_iceURLs (sg_service sg) = ice_urls getenv \<and>
     (\<exists>st. sv_store (sg_service sg) = Some st \<and>
        (\<exists>base. st = with_redis d getenv base \<and>
           (if getenv ''DATABASE_URL'' = [] then base = sp_memory d
            else \<exists>cfg. base = sp_pg d (pool_limits cfg) \<and> sp_ping d))) \<and>
     sv_accounts (sg_service sg) = [] \<and> sv_devices (sg_service sg) = [] \<and>
     sv_sessions (sg_service sg) = [])"
proof (cases "jwt_key getenv (sp_random d)")
  case (Inl f)
  then show ?thesis by (simp add: start_main_def)
next
  case key: (Inr key)
  show ?thesis
  proof (cases "base_store d getenv")
    case (Inl f)
    then show ?thesis
      using key by (auto simp: start_main_def base_store_def NewPostgresStore_def Let_def
          split: if_splits option.splits)
  next
    case (Inr base)
    then have db: "getenv ''DATABASE_URL'' \<noteq> [] \<Longrightarrow> \<exists>cfg. sp_ParseConfig d (getenv ''DATABASE_URL'') = Some cfg \<and>
        sp_opens d (pool_limits cfg) \<and> sp_ping d \<and> base = sp_pg d (pool_limits cfg)"
      "getenv ''DATABASE_URL'' = [] \<Longrightarrow> base = sp_memory d"
      by (auto simp: base_store_def NewPostgresStore_def Let_def split: if_splits option.splits)
    then show ?thesis
      using key Inr
      by (cases "check_ice (ice_urls getenv) (getenv ''MUILTDESK_TURN_SECRET'')")
        (auto simp: start_main_def NewWithStore_def ConfigureICE_def Let_def)
  qed
qed

definition demo_deps :: "string start_deps" where
  "demo_deps = \<lparr>sp_random = Some (replicate 32 CHR ''r''), sp_ParseConfig = (\<lambda>s. None),
     sp_opens = (\<lambda>c. False), sp_ping = False, sp_pg = (\<lambda>c. ''pg''), sp_memory = ''memory'',
     sp_ParseURL = (\<lambda>s. True), sp_redis_ping = False, sp_redis = (\<lambda>s. ''redis'')\<rparr>"

theorem startup_serves_iff_witness:
  "(\<exists>sg. start_main demo_deps (\<lambda>v. if v = ''REDIS_URL'' then ''redis://x'' else []) = Inr sg) \<and>
   (\<nexists>sg. start_main demo_deps (\<lambda>v. if v = ''DATABASE_URL'' then ''pg://x'' else []) = Inr sg)"
proof -
  have "SplitHostPort ''0.0.0.0:8080'' \<noteq> None"
    by (simp add: SplitHostPort_def last_index_def split_brackets_def)
  then show ?thesis
    unfolding startup_serves_iff[THEN conjunct1]
    by (simp add: jwt_key_def demo_deps_def ice_urls_def listen_addr_def)
qed

end
