(* ===== verification/Shutdown.thy ===== *)
theory Shutdown
  imports Go_Prelude
begin

text \<open>
  The shutdown of \<open>cmd/server/main.go\<close>: the main goroutine, the goroutine that waits for a signal, the
  connections and the clock as a transition system, and what its fair executions do.
\<close>

section \<open>Shutting down\<close>

text \<open>The main goroutine serves until the listener fails or is closed. The goroutine it started waits for
  the context that a signal cancels, calls \<open>Shutdown\<close> with a timeout of ten seconds and closes the
  store. \<open>Shutdown\<close> closes the listener and returns when no connection is left or when the timeout
  has come. A connection that was accepted goes on: requests may still arrive on it (several at a time
  under HTTP/2) and be answered, and a websocket leaves the server's care when it is upgraded. The clock
  counts seconds. Once the main goroutine has returned or called \<open>os.Exit\<close>, nothing runs any more.\<close>

datatype waiter = AwaitsSignal | AwaitsRequests | ClosesStore | WaiterDone

record process =
  ps_listening :: bool
  ps_conns :: "nat list"
  ps_sockets :: nat
  ps_signalled :: bool
  ps_clock :: nat
  ps_deadline :: nat
  ps_store_open :: bool
  ps_waiter :: waiter
  ps_exit :: "int option"

definition started :: process where
  "started = \<lparr>ps_listening = True, ps_conns = [], ps_sockets = 0, ps_signalled = False, ps_clock = 0,
     ps_deadline = 0, ps_store_open = True, ps_waiter = AwaitsSignal, ps_exit = None\<rparr>"

text \<open>What clients, handlers, the operating system and the listener do.\<close>

inductive client_step :: "process \<Rightarrow> process \<Rightarrow> bool" where
  accepted: "ps_exit p = None \<Longrightarrow> ps_listening p \<Longrightarrow>
    client_step p (p\<lparr>ps_conns := 0 # ps_conns p\<rparr>)"
| request_in: "ps_exit p = None \<Longrightarrow> i < length (ps_conns p) \<Longrightarrow>
    client_step p (p\<lparr>ps_conns := (ps_conns p)[i := ps_conns p ! i + 1]\<rparr>)"
| request_out: "ps_exit p = None \<Longrightarrow> i < length (ps_conns p) \<Longrightarrow> 0 < ps_conns p ! i \<Longrightarrow>
    client_step p (p\<lparr>ps_conns := (ps_conns p)[i := ps_conns p ! i - 1]\<rparr>)"
| upgraded: "ps_exit p = None \<Longrightarrow> i < length (ps_conns p) \<Longrightarrow> 0 < ps_conns p ! i \<Longrightarrow>
    client_step p (p\<lparr>ps_conns := take i (ps_conns p) @ drop (i + 1) (ps_conns p),
      ps_sockets := ps_sockets p + 1\<rparr>)"
| disconnected: "ps_exit p = None \<Longrightarrow> i < length (ps_conns p) \<Longrightarrow> ps_conns p ! i = 0 \<Longrightarrow>
    client_step p (p\<lparr>ps_conns := take i (ps_conns p) @ drop (i + 1) (ps_conns p)\<rparr>)"
| socket_closed: "ps_exit p = None \<Longrightarrow> 0 < ps_sockets p \<Longrightarrow>
    client_step p (p\<lparr>ps_sockets := ps_sockets p - 1\<rparr>)"
| signal: "ps_exit p = None \<Longrightarrow> \<not> ps_signalled p \<Longrightarrow> client_step p (p\<lparr>ps_signalled := True\<rparr>)"
| listen_failed: "ps_exit p = None \<Longrightarrow> ps_listening p \<Longrightarrow>
    client_step p (p\<lparr>ps_listening := False, ps_exit := Some 1\<rparr>)"

inductive clock_step :: "process \<Rightarrow> process \<Rightarrow> bool" where
  ticks: "ps_exit p = None \<Longrightarrow> clock_step p (p\<lparr>ps_clock := ps_clock p + 1\<rparr>)"

inductive waiter_step :: "process \<Rightarrow> process \<Rightarrow> bool" where
  shutdown: "ps_exit p = None \<Longrightarrow> ps_waiter p = AwaitsSignal \<Longrightarrow> ps_signalled p \<Longrightarrow>
    waiter_step p (p\<lparr>ps_waiter := AwaitsRequests, ps_listening := False, ps_deadline := ps_clock p + 10\<rparr>)"
| drained: "ps_exit p = None \<Longrightarrow> ps_waiter p = AwaitsRequests \<Longrightarrow> ps_conns p = [] \<Longrightarrow>
    waiter_step p (p\<lparr>ps_waiter := ClosesStore\<rparr>)"
| timed_out: "ps_exit p = None \<Longrightarrow> ps_waiter p = AwaitsRequests \<Longrightarrow> ps_deadline p \<le> ps_clock p \<Longrightarrow>
    waiter_step p (p\<lparr>ps_waiter := ClosesStore\<rparr>)"
| close_store: "ps_exit p = None \<Longrightarrow> ps_waiter p = ClosesStore \<Longrightarrow>
    waiter_step p (p\<lparr>ps_waiter := WaiterDone, ps_store_open := False\<rparr>)"

inductive return_step :: "process \<Rightarrow> process \<Rightarrow> bool" where
  returns: "ps_exit p = None \<Longrightarrow> \<not> ps_listening p \<Longrightarrow> return_step p (p\<lparr>ps_exit := Some 0\<rparr>)"

definition main_step :: "process \<Rightarrow> process \<Rightarrow> bool" where
  "main_step p q \<longleftrightarrow> client_step p q \<or> clock_step p q \<or> waiter_step p q \<or> return_step p q"

inductive main_reach :: "process \<Rightarrow> bool" where
  begins: "main_reach started"
| runs: "main_reach p \<Longrightarrow> main_step p q \<Longrightarrow> main_reach q"

inductive_cases client_stepE: "client_step p q"
inductive_cases clock_stepE: "clock_step p q"
inductive_cases waiter_stepE: "waiter_step p q"
inductive_cases return_stepE: "return_step p q"

lemmas stepEs = client_stepE clock_stepE waiter_stepE return_stepE

lemma main_stepE:
  assumes "main_step p q"
  obtains "client_step p q" | "clock_step p q" | "waiter_step p q" | "return_step p q"
  using assms by (auto simp: main_step_def)

lemma main_reach_listening:
  "main_reach p \<Longrightarrow> ps_listening p \<Longrightarrow> ps_waiter p = AwaitsSignal \<and> ps_store_open p"
proof (induction rule: main_reach.induct)
  case (runs p q)
  from runs.hyps(2) runs.IH runs.prems show ?case
    by (cases rule: main_stepE) (auto elim: stepEs)
qed (simp add: started_def)

lemma main_reach_store: "main_reach p \<Longrightarrow> \<not> ps_store_open p \<Longrightarrow> ps_waiter p = WaiterDone"
proof (induction rule: main_reach.induct)
  case (runs p q)
  from runs.hyps(2) runs.IH runs.prems show ?case
    by (cases rule: main_stepE) (auto elim: stepEs)
qed (simp add: started_def)

lemma main_reach_waiting:
  "main_reach p \<Longrightarrow> ps_waiter p \<noteq> AwaitsSignal \<Longrightarrow> \<not> ps_listening p"
  using main_reach_listening by blast

text \<open>The store is closed only once the listener is. But the process does not wait for that: it can
  end while a request is in flight and the store is open, because \<open>ListenAndServe\<close> returns as soon
  as \<open>Shutdown\<close> is called.\<close>

lemma store_closed_after_listener: "main_reach p \<Longrightarrow> \<not> ps_store_open p \<Longrightarrow> \<not> ps_listening p"
  using main_reach_listening main_reach_store by fastforce

definition busy_process :: process where
  "busy_process = started\<lparr>ps_conns := [1], ps_signalled := True\<rparr>"

lemma main_reach_busy: "main_reach busy_process"
proof -
  have "main_step started (started\<lparr>ps_conns := [0]\<rparr>)"
    using accepted[of started] by (simp add: main_step_def started_def)
  moreover have "main_step (started\<lparr>ps_conns := [0]\<rparr>) (started\<lparr>ps_conns := [1]\<rparr>)"
    using request_in[of "started\<lparr>ps_conns := [0]\<rparr>" 0] by (simp add: main_step_def started_def)
  moreover have "main_step (started\<lparr>ps_conns := [1]\<rparr>) busy_process"
    using signal[of "started\<lparr>ps_conns := [1]\<rparr>"]
    by (simp add: main_step_def started_def busy_process_def)
  ultimately show ?thesis by (meson begins runs)
qed

lemma shutdown_not_awaited:
  "\<exists>p. main_reach p \<and> ps_exit p = Some 0 \<and> ps_conns p = [1] \<and> ps_store_open p"
proof -
  let ?p = "busy_process\<lparr>ps_waiter := AwaitsRequests, ps_listening := False, ps_deadline := 10\<rparr>"
  have "main_step busy_process ?p" "main_step ?p (?p\<lparr>ps_exit := Some 0\<rparr>)"
    using shutdown[of busy_process] returns[of ?p]
    by (simp_all add: main_step_def busy_process_def started_def)
  then have "main_reach (?p\<lparr>ps_exit := Some 0\<rparr>)"
    by (meson main_reach_busy runs)
  then show ?thesis
    by (intro exI[of _ "?p\<lparr>ps_exit := Some 0\<rparr>"]) (simp add: busy_process_def started_def)
qed

section \<open>Fair executions\<close>

text \<open>An execution starts in \<open>started\<close> and goes on for ever; it may stutter. A kind of step is weakly
  fair when it is taken again and again as long as it stays enabled: the scheduler gives the goroutine a
  turn.\<close>

definition execution :: "(nat \<Rightarrow> process) \<Rightarrow> bool" where
  "execution run \<longleftrightarrow>
     run 0 = started \<and> (\<forall>i. main_step (run i) (run (Suc i)) \<or> run (Suc i) = run i)"

definition weakly_fair :: "(process \<Rightarrow> process \<Rightarrow> bool) \<Rightarrow> (nat \<Rightarrow> process) \<Rightarrow> bool" where
  "weakly_fair step run \<longleftrightarrow>
     (\<forall>i. (\<forall>j\<ge>i. \<exists>q. step (run j) q) \<longrightarrow> (\<exists>j\<ge>i. step (run j) (run (Suc j))))"

text \<open>Progress under weak fairness: a condition that keeps the step enabled and can only be left for the
  goal leads to the goal.\<close>

lemma leads_to:
  assumes "weakly_fair step run" and "P (run i)"
    and enabled: "\<And>j. P (run j) \<Longrightarrow> \<exists>q. step (run j) q"
    and stays: "\<And>j. P (run j) \<Longrightarrow> P (run (Suc j)) \<or> Q (run (Suc j))"
    and helps: "\<And>j. P (run j) \<Longrightarrow> step (run j) (run (Suc j)) \<Longrightarrow> Q (run (Suc j))"
  shows "\<exists>j\<ge>i. Q (run j)"
proof (rule ccontr)
  assume no: "\<not> ?thesis"
  have P: "P (run j)" if "i \<le> j" for j
    using that
  proof (induction j rule: dec_induct)
    case (step j)
    with no stays[of j] show ?case by (meson le_SucI)
  qed (rule assms(2))
  with enabled assms(1) obtain j where "i \<le> j" "step (run j) (run (Suc j))"
    unfolding weakly_fair_def by meson
  with P helps no show False by (meson le_SucI)
qed

lemma execution_step:
  "execution run \<Longrightarrow> main_step (run i) (run (Suc i)) \<or> run (Suc i) = run i"
  by (simp add: execution_def)

lemma execution_reach: "execution run \<Longrightarrow> main_reach (run i)"
proof (induction i)
  case (Suc i)
  with execution_step[of run i] show ?case by (auto intro: runs)
qed (simp add: execution_def begins)

text \<open>What a step leaves alone, up to the end of the process.\<close>

definition shut_down :: "process \<Rightarrow> bool" where
  "shut_down p \<longleftrightarrow> ps_exit p \<noteq> None \<or> \<not> ps_store_open p"

lemma awaiting_signal:
  assumes "main_step p q" and "ps_waiter p = AwaitsSignal" and "ps_signalled p"
  shows "ps_signalled q \<and> ps_waiter q = AwaitsSignal \<or> ps_waiter q = AwaitsRequests"
  using assms by (cases rule: main_stepE) (auto elim: stepEs)

lemma awaiting_requests:
  assumes "main_step p q" and "ps_waiter p = AwaitsRequests"
  shows "ps_waiter q = AwaitsRequests \<and> ps_deadline q = ps_deadline p \<and> ps_clock p \<le> ps_clock q \<or>
    ps_waiter q = ClosesStore"
  using assms by (cases rule: main_stepE) (auto elim: stepEs)

lemma closing_store:
  assumes "main_step p q" and "ps_waiter p = ClosesStore"
  shows "ps_waiter q = ClosesStore \<or> \<not> ps_store_open q"
  using assms by (cases rule: main_stepE) (auto elim: stepEs)

lemma not_listening:
  assumes "main_step p q" and "\<not> ps_listening p"
  shows "\<not> ps_listening q"
  using assms by (cases rule: main_stepE) (auto elim: stepEs)

lemma closes_store:
  assumes run: "execution run" and fair: "weakly_fair waiter_step run"
    and "ps_waiter (run i) = ClosesStore"
  shows "\<exists>j\<ge>i. shut_down (run j)"
proof (cases "shut_down (run i)")
  case False
  show ?thesis
  proof (rule leads_to[OF fair, where P = "\<lambda>p. ps_exit p = None \<and> ps_waiter p = ClosesStore"])
    show "ps_exit (run i) = None \<and> ps_waiter (run i) = ClosesStore"
      using assms(3) False by (simp add: shut_down_def)
  next
    fix j
    assume p: "ps_exit (run j) = None \<and> ps_waiter (run j) = ClosesStore"
    then show "\<exists>q. waiter_step (run j) q" by (blast intro: close_store)
    show "(ps_exit (run (Suc j)) = None \<and> ps_waiter (run (Suc j)) = ClosesStore) \<or>
      shut_down (run (Suc j))"
      using execution_step[OF run, of j] closing_store[of "run j" "run (Suc j)"] p
      by (auto simp: shut_down_def)
    assume "waiter_step (run j) (run (Suc j))"
    with p show "shut_down (run (Suc j))" by (auto simp: shut_down_def elim: waiter_stepE)
  qed
qed auto

text \<open>The clock reaches the deadline whether or not the connections end.\<close>

lemma reaches_deadline:
  assumes run: "execution run" and fair: "weakly_fair clock_step run"
    and "ps_waiter (run i) = AwaitsRequests"
  shows "\<exists>j\<ge>i. ps_exit (run j) \<noteq> None \<or> ps_waiter (run j) = ClosesStore \<or>
    (ps_waiter (run j) = AwaitsRequests \<and> ps_deadline (run j) \<le> ps_clock (run j))"
  using assms(3)
proof (induction "ps_deadline (run i) - ps_clock (run i)" arbitrary: i rule: less_induct)
  case less
  let ?d = "ps_deadline (run i)" and ?c = "ps_clock (run i)"
  let ?later = "\<lambda>p. ps_exit p \<noteq> None \<or> ps_waiter p = ClosesStore \<or>
    (ps_waiter p = AwaitsRequests \<and> ps_deadline p = ?d \<and> ?c < ps_clock p)"
  show ?case
  proof (cases "ps_exit (run i) \<noteq> None \<or> ?d \<le> ?c")
    case False
    have "\<exists>j\<ge>i. ?later (run j)"
    proof (rule leads_to[OF fair, where P = "\<lambda>p. ps_exit p = None \<and>
        ps_waiter p = AwaitsRequests \<and> ps_deadline p = ?d \<and> ps_clock p = ?c"])
      show "ps_exit (run i) = None \<and> ps_waiter (run i) = AwaitsRequests \<and>
          ps_deadline (run i) = ?d \<and> ps_clock (run i) = ?c"
        using False less.prems by simp
    next
      fix j
      assume p: "ps_exit (run j) = None \<and> ps_waiter (run j) = AwaitsRequests \<and>
        ps_deadline (run j) = ?d \<and> ps_clock (run j) = ?c"
      then show "\<exists>q. clock_step (run j) q" by (blast intro: ticks)
      show "(ps_exit (run (Suc j)) = None \<and> ps_waiter (run (Suc j)) = AwaitsRequests \<and>
          ps_deadline (run (Suc j)) = ?d \<and> ps_clock (run (Suc j)) = ?c) \<or> ?later (run (Suc j))"
        using execution_step[OF run, of j] awaiting_requests[of "run j" "run (Suc j)"] p
        by (auto simp: le_less)
      assume "clock_step (run j) (run (Suc j))"
      with p show "?later (run (Suc j))" by (auto elim: clock_stepE)
    qed
    then obtain j where j: "i \<le> j" "?later (run j)" by blast
    show ?thesis
    proof (cases "ps_exit (run j) \<noteq> None \<or> ps_waiter (run j) = ClosesStore")
      case no: False
      with j False have "ps_deadline (run j) - ps_clock (run j) < ?d - ?c"
        "ps_waiter (run j) = AwaitsRequests" by auto
      from less.hyps[OF this] j(1) show ?thesis by (meson order_trans)
    qed (use j(1) in blast)
  qed (use less.prems in blast)
qed

lemma times_out:
  assumes run: "execution run" and fair: "weakly_fair waiter_step run"
    and "ps_waiter (run i) = AwaitsRequests" and "ps_deadline (run i) \<le> ps_clock (run i)"
  shows "\<exists>j\<ge>i. ps_exit (run j) \<noteq> None \<or> ps_waiter (run j) = ClosesStore"
proof (cases "ps_exit (run i) = None")
  case True
  show ?thesis
  proof (rule leads_to[OF fair, where P = "\<lambda>p. ps_exit p = None \<and>
      ps_waiter p = AwaitsRequests \<and> ps_deadline p \<le> ps_clock p"])
    show "ps_exit (run i) = None \<and> ps_waiter (run i) = AwaitsRequests \<and>
        ps_deadline (run i) \<le> ps_clock (run i)"
      using assms(3,4) True by simp
  next
    fix j
    assume p: "ps_exit (run j) = None \<and> ps_waiter (run j) = AwaitsRequests \<and>
      ps_deadline (run j) \<le> ps_clock (run j)"
    then show "\<exists>q. waiter_step (run j) q" by (blast intro: timed_out)
    show "(ps_exit (run (Suc j)) = None \<and> ps_waiter (run (Suc j)) = AwaitsRequests \<and>
        ps_deadline (run (Suc j)) \<le> ps_clock (run (Suc j))) \<or>
        ps_exit (run (Suc j)) \<noteq> None \<or> ps_waiter (run (Suc j)) = ClosesStore"
      using execution_step[OF run, of j] awaiting_requests[of "run j" "run (Suc j)"] p
      by (auto intro: order_trans)
    assume "waiter_step (run j) (run (Suc j))"
    with p show "ps_exit (run (Suc j)) \<noteq> None \<or> ps_waiter (run (Suc j)) = ClosesStore"
      by (auto elim: waiter_stepE)
  qed
qed auto

lemma calls_Shutdown:
  assumes run: "execution run" and fair: "weakly_fair waiter_step run"
    and "ps_signalled (run i)" and "ps_waiter (run i) = AwaitsSignal"
  shows "\<exists>j\<ge>i. ps_exit (run j) \<noteq> None \<or> ps_waiter (run j) = AwaitsRequests"
proof (cases "ps_exit (run i) = None")
  case True
  show ?thesis
  proof (rule leads_to[OF fair, where P = "\<lambda>p. ps_exit p = None \<and> ps_signalled p \<and>
      ps_waiter p = AwaitsSignal"])
    show "ps_exit (run i) = None \<and> ps_signalled (run i) \<and> ps_waiter (run i) = AwaitsSignal"
      using assms(3,4) True by simp
  next
    fix j
    assume p: "ps_exit (run j) = None \<and> ps_signalled (run j) \<and> ps_waiter (run j) = AwaitsSignal"
    then show "\<exists>q. waiter_step (run j) q" by (blast intro: shutdown)
    show "(ps_exit (run (Suc j)) = None \<and> ps_signalled (run (Suc j)) \<and>
        ps_waiter (run (Suc j)) = AwaitsSignal) \<or>
        ps_exit (run (Suc j)) \<noteq> None \<or> ps_waiter (run (Suc j)) = AwaitsRequests"
      using execution_step[OF run, of j] awaiting_signal[of "run j" "run (Suc j)"] p by auto
    assume "waiter_step (run j) (run (Suc j))"
    with p show "ps_exit (run (Suc j)) \<noteq> None \<or> ps_waiter (run (Suc j)) = AwaitsRequests"
      by (auto elim: waiter_stepE)
  qed
qed auto

text \<open>After a signal the waiting goroutine gets past the connections and closes the store, unless the
  process has ended before.\<close>

lemma passes_connections:
  assumes "execution run" and "weakly_fair waiter_step run" and "weakly_fair clock_step run"
    and "ps_waiter (run i) = AwaitsRequests"
  shows "\<exists>j\<ge>i. ps_exit (run j) \<noteq> None \<or> ps_waiter (run j) = ClosesStore"
proof -
  from reaches_deadline[OF assms(1,3,4)] obtain j where "i \<le> j" and
    "ps_exit (run j) \<noteq> None \<or> ps_waiter (run j) = ClosesStore \<or>
      (ps_waiter (run j) = AwaitsRequests \<and> ps_deadline (run j) \<le> ps_clock (run j))" by blast
  with times_out[OF assms(1,2), of j] show ?thesis by (meson order_trans)
qed

lemma ends_after_signal:
  assumes e: "execution run" "weakly_fair waiter_step run" "weakly_fair clock_step run"
    and "ps_signalled (run i)"
  shows "\<exists>j\<ge>i. shut_down (run j)"
proof -
  have c: "\<exists>k\<ge>j. shut_down (run k)" if "ps_exit (run j) \<noteq> None \<or> ps_waiter (run j) = ClosesStore" for j
    using that closes_store[OF e(1,2), of j] by (auto simp: shut_down_def)
  have r: "\<exists>k\<ge>j. shut_down (run k)" if "ps_waiter (run j) = AwaitsRequests" for j
    using passes_connections[OF e that] c by (meson order_trans)
  show ?thesis
  proof (cases "ps_waiter (run i)")
    case AwaitsSignal
    from calls_Shutdown[OF e(1,2) assms(4) this] c r show ?thesis by (meson order_trans)
  next
    case WaiterDone
    have "main_reach p \<Longrightarrow> ps_waiter p = WaiterDone \<Longrightarrow> \<not> ps_store_open p" for p
    proof (induction rule: main_reach.induct)
      case (runs p q)
      from runs.hyps(2) runs.IH runs.prems show ?case
        by (cases rule: main_stepE) (auto elim: stepEs)
    qed (simp add: started_def)
    with WaiterDone execution_reach[OF e(1)] show ?thesis by (auto simp: shut_down_def)
  qed (use c r in auto)
qed

lemma exits_when_not_listening:
  assumes run: "execution run" and fair: "weakly_fair return_step run" and "\<not> ps_listening (run i)"
  shows "\<exists>j\<ge>i. ps_exit (run j) \<noteq> None"
proof (cases "ps_exit (run i) = None")
  case True
  show ?thesis
  proof (rule leads_to[OF fair, where P = "\<lambda>p. ps_exit p = None \<and> \<not> ps_listening p"])
    show "ps_exit (run i) = None \<and> \<not> ps_listening (run i)" using True assms(3) by simp
  next
    fix j
    assume p: "ps_exit (run j) = None \<and> \<not> ps_listening (run j)"
    then show "\<exists>q. return_step (run j) q" by (blast intro: returns)
    show "(ps_exit (run (Suc j)) = None \<and> \<not> ps_listening (run (Suc j))) \<or> ps_exit (run (Suc j)) \<noteq> None"
      using execution_step[OF run, of j] not_listening[of "run j" "run (Suc j)"] p by auto
    assume "return_step (run j) (run (Suc j))"
    with p show "ps_exit (run (Suc j)) \<noteq> None" by (auto elim: return_stepE)
  qed
qed auto

text \<open>When the waiting goroutine is past the connections, there was a moment without any, or ten
  seconds have gone by since the listener was last open.\<close>

lemma waits_for_connections:
  assumes run: "execution run"
  shows "(\<forall>k\<le>j. ps_clock (run k) \<le> ps_clock (run j)) \<and>
    (ps_waiter (run j) = AwaitsRequests \<longrightarrow>
      (\<forall>k\<le>j. ps_listening (run k) \<longrightarrow> ps_clock (run k) + 10 \<le> ps_deadline (run j))) \<and>
    (ps_waiter (run j) = ClosesStore \<or> ps_waiter (run j) = WaiterDone \<longrightarrow>
      (\<exists>k\<le>j. \<not> ps_listening (run k) \<and> ps_conns (run k) = []) \<or>
      (\<forall>k\<le>j. ps_listening (run k) \<longrightarrow> ps_clock (run k) + 10 \<le> ps_clock (run j)))"
  (is "?clock j \<and> ?waits j \<and> ?past j")
proof (induction j)
  case 0
  with run show ?case by (simp add: execution_def started_def)
next
  case (Suc j)
  have mono: "ps_clock (run j) \<le> ps_clock (run (Suc j))"
    using execution_step[OF run, of j] by (auto elim!: main_stepE stepEs)
  then have "?clock (Suc j)" using Suc by (auto simp: le_Suc_eq)
  have closed: "\<not> ps_listening (run (Suc j))" if "ps_waiter (run (Suc j)) \<noteq> AwaitsSignal"
    using main_reach_waiting execution_reach[OF run] that by blast
  moreover have "?waits (Suc j)"
  proof
    assume w: "ps_waiter (run (Suc j)) = AwaitsRequests"
    have "ps_waiter (run j) = AwaitsRequests \<and> ps_deadline (run (Suc j)) = ps_deadline (run j) \<or>
        ps_deadline (run (Suc j)) = ps_clock (run j) + 10"
      using execution_step[OF run, of j] w by (auto elim!: main_stepE stepEs)
    with Suc closed w show "\<forall>k\<le>Suc j. ps_listening (run k) \<longrightarrow>
        ps_clock (run k) + 10 \<le> ps_deadline (run (Suc j))"
      by (auto simp: le_Suc_eq)
  qed
  moreover have "?past (Suc j)"
  proof
    assume w: "ps_waiter (run (Suc j)) = ClosesStore \<or> ps_waiter (run (Suc j)) = WaiterDone"
    have "ps_waiter (run j) = ClosesStore \<or> ps_waiter (run j) = WaiterDone \<or>
        ps_waiter (run j) = AwaitsRequests \<and> (ps_conns (run j) = [] \<or> ps_deadline (run j) \<le> ps_clock (run j))"
      using execution_step[OF run, of j] w by (auto elim!: main_stepE stepEs)
    then show "(\<exists>k\<le>Suc j. \<not> ps_listening (run k) \<and> ps_conns (run k) = []) \<or>
        (\<forall>k\<le>Suc j. ps_listening (run k) \<longrightarrow> ps_clock (run k) + 10 \<le> ps_clock (run (Suc j)))"
    proof (elim disjE conjE)
      assume a: "ps_waiter (run j) = AwaitsRequests" "ps_conns (run j) = []"
      then have "\<not> ps_listening (run j)"
        using main_reach_waiting execution_reach[OF run] by fastforce
      with a show ?thesis by (meson le_SucI order_refl)
    next
      assume a: "ps_waiter (run j) = AwaitsRequests" "ps_deadline (run j) \<le> ps_clock (run j)"
      with Suc closed w mono have "\<forall>k\<le>Suc j. ps_listening (run k) \<longrightarrow>
          ps_clock (run k) + 10 \<le> ps_clock (run (Suc j))"
        by (auto simp: le_Suc_eq)
      then show ?thesis ..
    qed (use Suc closed w mono in \<open>auto simp: le_Suc_eq intro: order_trans\<close>)
  qed
  ultimately show ?case using \<open>?clock (Suc j)\<close> by blast
qed

section \<open>The property\<close>

text \<open>C35: a signal ends the process. In every execution that gives the waiting goroutine its turn and
  in which time passes, once a signal has come the store is closed or the process has ended, even if no
  client and no request ever moves again: the timeout is enough. If the main goroutine has its turn as
  well, the process ends. And the store is closed only with the listener closed, and after a moment with
  no connection left or ten seconds after the listener was last open.\<close>

theorem shutdown_terminates:
  assumes run: "execution run"
    and fair: "weakly_fair waiter_step run" "weakly_fair clock_step run"
    and signal: "ps_signalled (run i)"
  shows "(\<exists>j\<ge>i. ps_exit (run j) \<noteq> None \<or> \<not> ps_store_open (run j)) \<and>
    (weakly_fair return_step run \<longrightarrow> (\<exists>j\<ge>i. ps_exit (run j) \<noteq> None)) \<and>
    (\<forall>j. \<not> ps_store_open (run j) \<longrightarrow> \<not> ps_listening (run j) \<and>
      ((\<exists>k\<le>j. \<not> ps_listening (run k) \<and> ps_conns (run k) = []) \<or>
       (\<forall>k\<le>j. ps_listening (run k) \<longrightarrow> ps_clock (run k) + 10 \<le> ps_clock (run j))))"
proof (intro conjI impI allI)
  from ends_after_signal[OF run fair signal] obtain j where j: "i \<le> j" "shut_down (run j)" by blast
  then show "\<exists>j\<ge>i. ps_exit (run j) \<noteq> None \<or> \<not> ps_store_open (run j)" by (auto simp: shut_down_def)
  assume "weakly_fair return_step run"
  note ends = exits_when_not_listening[OF run this, of j]
  show "\<exists>j\<ge>i. ps_exit (run j) \<noteq> None"
  proof (cases "ps_exit (run j) = None")
    case True
    with j store_closed_after_listener[OF execution_reach[OF run]] ends show ?thesis
      by (auto simp: shut_down_def intro: order_trans)
  qed (use j in blast)
next
  fix j
  assume s: "\<not> ps_store_open (run j)"
  with store_closed_after_listener execution_reach[OF run] show "\<not> ps_listening (run j)" by blast
  have "ps_waiter (run j) = WaiterDone"
    by (rule main_reach_store[OF execution_reach[OF run] s])
  with waits_for_connections[OF run, of j]
  show "(\<exists>k\<le>j. \<not> ps_listening (run k) \<and> ps_conns (run k) = []) \<or>
       (\<forall>k\<le>j. ps_listening (run k) \<longrightarrow> ps_clock (run k) + 10 \<le> ps_clock (run j))" by blast
qed

text \<open>A request that never ends: the connection is still there when the timeout closes the store.\<close>

definition stuck_run :: "nat \<Rightarrow> process" where
  "stuck_run i =
     (let p = busy_process\<lparr>ps_waiter := AwaitsRequests, ps_listening := False, ps_deadline := 10\<rparr>;
          late = p\<lparr>ps_clock := 10, ps_waiter := ClosesStore\<rparr>;
          closed = late\<lparr>ps_waiter := WaiterDone, ps_store_open := False\<rparr>
      in if i = 0 then started
         else if i = 1 then started\<lparr>ps_conns := [0]\<rparr>
         else if i = 2 then started\<lparr>ps_conns := [1]\<rparr>
         else if i = 3 then busy_process
         else if i \<le> 14 then p\<lparr>ps_clock := i - 4\<rparr>
         else if i = 15 then late
         else if i = 16 then closed
         else closed\<lparr>ps_exit := Some 0\<rparr>)"

lemma stuck_execution: "execution stuck_run"
  unfolding execution_def
proof (intro conjI allI)
  show "stuck_run 0 = started" by (simp add: stuck_run_def)
  fix i
  let ?p = "stuck_run i"
  note defs = stuck_run_def Let_def started_def busy_process_def main_step_def
  consider "i = 0" | "i = 1" | "i = 2" | "i = 3" | "4 \<le> i \<and> i < 14" | "i = 14" | "i = 15" | "i = 16"
    | "17 \<le> i" by linarith
  then show "main_step (stuck_run i) (stuck_run (Suc i)) \<or> stuck_run (Suc i) = stuck_run i"
  proof cases
    case 1
    then show ?thesis using accepted[of ?p] by (simp add: defs)
  next
    case 2
    then show ?thesis using request_in[of ?p 0] by (simp add: defs)
  next
    case 3
    then show ?thesis using signal[of ?p] by (simp add: defs)
  next
    case 4
    then show ?thesis using shutdown[of ?p] by (simp add: defs)
  next
    case 5
    then have "Suc (i - 4) = i - 3" by linarith
    with 5 show ?thesis using ticks[of ?p] by (simp add: defs)
  next
    case 6
    then show ?thesis using timed_out[of ?p] by (simp add: defs)
  next
    case 7
    then show ?thesis using close_store[of ?p] by (simp add: defs)
  next
    case 8
    then show ?thesis using returns[of ?p] by (simp add: defs)
  next
    case 9
    then show ?thesis by (simp add: defs)
  qed
qed

lemma stuck_fair:
  "weakly_fair waiter_step stuck_run" "weakly_fair clock_step stuck_run" "weakly_fair return_step stuck_run"
proof -
  have f: "weakly_fair step stuck_run"
    if "\<And>p q. step p q \<Longrightarrow> ps_exit p = None" for step
    unfolding weakly_fair_def
  proof (intro allI impI)
    fix i
    assume "\<forall>j\<ge>i. \<exists>q. step (stuck_run j) q"
    then obtain q where "step (stuck_run (i + 17)) q" by (meson le_add1)
    from that[OF this] show "\<exists>j\<ge>i. step (stuck_run j) (stuck_run (Suc j))"
      by (simp add: stuck_run_def Let_def)
  qed
  show "weakly_fair waiter_step stuck_run" by (rule f) (erule waiter_stepE)
  show "weakly_fair clock_step stuck_run" by (rule f) (erule clock_stepE)
  show "weakly_fair return_step stuck_run" by (rule f) (erule return_stepE)
qed

theorem shutdown_terminates_witness:
  "ps_signalled (stuck_run 3) \<and> ps_conns (stuck_run 16) = [1] \<and>
   (\<exists>j\<ge>3. ps_exit (stuck_run j) \<noteq> None \<or> \<not> ps_store_open (stuck_run j)) \<and>
   (\<exists>j\<ge>3. ps_exit (stuck_run j) \<noteq> None)"
proof -
  have "ps_signalled (stuck_run 3)" "ps_conns (stuck_run 16) = [1]"
    by (simp_all add: stuck_run_def busy_process_def)
  with shutdown_terminates[OF stuck_execution stuck_fair(1,2), of 3] stuck_fair(3) show ?thesis
    by blast
qed

end
