(* ===== verification/Source_Check.thy ===== *)
theory Source_Check
  imports Go_Prelude
begin

text \<open>
  \<open>tools/sourcecheck/main.go\<close>: the walk over the source tree, with \<open>filepath.WalkDir\<close> written out.
  The file tree and the Go parser are parameters; the properties compare the walk with the list of
  the files it should visit.
\<close>

section \<open>The walk\<close>

text \<open>A directory may be unreadable.\<close>

datatype entry = File string string | Dir string "entry list option"

primrec entry_name :: "entry \<Rightarrow> string" where
  "entry_name (File n c) = n"
| "entry_name (Dir n es) = n"

datatype walk_error = SkipDir | ReadError | ParseError string

definition HasSuffix :: "string \<Rightarrow> string \<Rightarrow> bool" where
  "HasSuffix s t \<longleftrightarrow> length t \<le> length s \<and> drop (length s - length t) s = t"

definition path_join :: "string \<Rightarrow> string \<Rightarrow> string" where
  "path_join dir n = (if dir = ''.'' then n else dir @ ''/'' @ n)"

text \<open>The callback: the entry, the error \<open>WalkDir\<close> met on it, the count so far.\<close>

definition visit :: "(string \<Rightarrow> bool) \<Rightarrow> string \<Rightarrow> entry \<Rightarrow> walk_error option \<Rightarrow> nat \<Rightarrow> nat \<times> walk_error option" where
  "visit parses path d e count =
     (case e of
        Some err \<Rightarrow> (count, Some err)
      | None \<Rightarrow>
          (case d of
             Dir n es \<Rightarrow> if n = ''vendor'' \<or> n = ''.git'' then (count, Some SkipDir) else (count, None)
           | File n content \<Rightarrow>
               if \<not> HasSuffix path ''.go'' then (count, None)
               else if \<not> parses content then (count, Some (ParseError path))
               else (count + 1, None)))"

fun walkDir :: "(string \<Rightarrow> bool) \<Rightarrow> string \<Rightarrow> entry \<Rightarrow> nat \<Rightarrow> nat \<times> walk_error option"
  and walk_entries :: "(string \<Rightarrow> bool) \<Rightarrow> string \<Rightarrow> entry list \<Rightarrow> nat \<Rightarrow> nat \<times> walk_error option" where
  "walkDir parses path (File n content) count = visit parses path (File n content) None count"
| "walkDir parses path (Dir n es) count =
     (case visit parses path (Dir n es) None count of
        (count, Some err) \<Rightarrow> (count, if err = SkipDir then None else Some err)
      | (count, None) \<Rightarrow>
          (case es of
             None \<Rightarrow> visit parses path (Dir n es) (Some ReadError) count
           | Some entries \<Rightarrow> walk_entries parses path entries count))"
| "walk_entries parses path [] count = (count, None)"
| "walk_entries parses path (d # ds) count =
     (case walkDir parses (path_join path (entry_name d)) d count of
        (count, Some err) \<Rightarrow> (count, if err = SkipDir then None else Some err)
      | (count, None) \<Rightarrow> walk_entries parses path ds count)"

text \<open>\<open>main\<close>: the walk from the current directory; exit status 1 on an error, the count otherwise.\<close>

definition sourcecheck :: "(string \<Rightarrow> bool) \<Rightarrow> entry list option \<Rightarrow> walk_error + nat" where
  "sourcecheck parses root =
     (case walkDir parses ''.'' (Dir ''.'' root) 0 of
        (count, Some err) \<Rightarrow> Inl err
      | (count, None) \<Rightarrow> Inr count)"

section \<open>What it checks\<close>

text \<open>The sources below an entry: the contents of its Go files outside \<open>vendor\<close> and \<open>.git\<close>, and
  \<open>None\<close> for each directory that cannot be read.\<close>

fun sources :: "string \<Rightarrow> entry \<Rightarrow> string option list"
  and sources_all :: "string \<Rightarrow> entry list \<Rightarrow> string option list" where
  "sources path (File n content) = (if HasSuffix path ''.go'' then [Some content] else [])"
| "sources path (Dir n es) =
     (if n = ''vendor'' \<or> n = ''.git'' then []
      else case es of None \<Rightarrow> [None] | Some entries \<Rightarrow> sources_all path entries)"
| "sources_all path [] = []"
| "sources_all path (d # ds) = sources (path_join path (entry_name d)) d @ sources_all path ds"

definition all_good :: "(string \<Rightarrow> bool) \<Rightarrow> string option list \<Rightarrow> bool" where
  "all_good parses xs \<longleftrightarrow> list_all (\<lambda>x. case x of None \<Rightarrow> False | Some c \<Rightarrow> parses c) xs"

lemma walk_sources:
  "(if all_good parses (sources path d)
    then walkDir parses path d count = (count + length (sources path d), None)
    else \<exists>n err. walkDir parses path d count = (n, Some err) \<and> err \<noteq> SkipDir)"
  "(if all_good parses (sources_all path ds)
    then walk_entries parses path ds count = (count + length (sources_all path ds), None)
    else \<exists>n err. walk_entries parses path ds count = (n, Some err) \<and> err \<noteq> SkipDir)"
proof (induction path d and path ds arbitrary: count and count rule: sources_sources_all.induct)
  case (2 path n es)
  then show ?case
    by (cases es) (auto simp: visit_def all_good_def split: if_splits)
next
  case (4 path d ds)
  let ?p = "path_join path (entry_name d)"
  show ?case
  proof (cases "all_good parses (sources ?p d)")
    case True
    then have "walkDir parses ?p d count = (count + length (sources ?p d), None)"
      using "4.IH"(1)[of count] by simp
    then show ?thesis
      using "4.IH"(2)[of "count + length (sources ?p d)"] True by (auto simp: all_good_def add.assoc)
  next
    case False
    then obtain n err where "walkDir parses ?p d count = (n, Some err)" "err \<noteq> SkipDir"
      using "4.IH"(1)[of count] by auto
    then show ?thesis using False by (auto simp: all_good_def)
  qed
qed (auto simp: visit_def all_good_def)

text \<open>The source checker succeeds exactly when every directory outside \<open>vendor\<close> and \<open>.git\<close> can be
  read and every Go file there parses, and then reports the number of those files.\<close>

lemma sourcecheck_complete:
  "sourcecheck parses root = Inr n \<longleftrightarrow>
     all_good parses (sources ''.'' (Dir ''.'' root)) \<and> n = length (sources ''.'' (Dir ''.'' root))"
  using walk_sources(1)[of parses "''.''" "Dir ''.'' root" 0]
  by (auto simp: sourcecheck_def split: if_splits)

end

