(* ===== verification/Spec2Isabelle.thy ===== *)
theory Spec2Isabelle
  imports Session_Claims Account_Claims Mail_Claims Http_Claims Findings Pg_Refines Redis_Store Start_Up Shutdown Source_Check
begin

text \<open>
  MultiDesk's server (Go, \<open>server/\<close>): a remote-desktop control plane. Operators ask for sessions with
  devices, the owners of the devices grant rights, a relay carries the signalling frames, and a store
  keeps accounts, devices, sessions and organisations in memory or in PostgreSQL, with presence in
  Redis. This development models the code of \<open>server/internal\<close>, \<open>server/cmd\<close> and \<open>server/tools\<close>
  and proves the properties C1 to C40, each stated next to a text block with its number.

  \<^bold>\<open>The parts and the theories.\<close> Definitions keep the names of the Go functions.

  \<^item> \<open>Go_Prelude\<close>: Go maps as association lists (the position of an entry is the unspecified order of
    a range loop), instants in nanoseconds, the string functions of the standard library, the shared
    lemma collections \<open>frame\<close> and \<open>gomap_simps\<close>. \<open>Go_Codec\<close>: \<open>encoding/hex\<close> and
    \<open>encoding/base64\<close>.
  \<^item> \<open>Sec_Token\<close>: \<open>internal/security\<close> (\<open>Sign\<close>, \<open>Verify\<close>, \<open>TURNCredential\<close>, \<open>DeviceMessage\<close>,
    \<open>VerifyDevice\<close>). \<open>Permissions\<close>: the rights of \<open>service.go\<close>.
  \<^item> \<open>Service_State\<close>: the struct \<open>Service\<close> as a record, and its primitives \<open>record\<close> (\<open>record_audit\<close>),
    \<open>notify\<close>, \<open>live\<close>, \<open>expire\<close>, \<open>end\<close> (\<open>end_session\<close>), \<open>proof\<close> (\<open>device_proof\<close>), \<open>issue\<close>.
  \<^item> \<open>Auth_Handlers\<close>, \<open>Device_Handlers\<close>, \<open>Session_Handlers\<close>, \<open>Ice_Handlers\<close>, \<open>Email_Handlers\<close>,
    \<open>Totp_Handlers\<close>, \<open>Team_Handlers\<close>, \<open>Signalling\<close>: the handlers of \<open>internal/platform\<close>, one
    definition each, from a state to a state and a reply; a nil dereference is the reply \<open>Panicked\<close>.
  \<^item> \<open>Http_Server\<close>: the middleware (\<open>admit\<close>: expiry and the rate limiter), the routes, and
    \<open>dispatch\<close> and \<open>serve\<close>, which compose the handlers as \<open>Handler\<close> does.
  \<^item> \<open>Store_Model\<close>: the types of \<open>store.go\<close> and the contracts of its interface as the locales
    \<open>insert_table\<close>, \<open>crud_table\<close>, \<open>token_table\<close>. \<open>Memory_Store\<close>: every method of \<open>memory.go\<close>,
    with the interpretations of the locales. \<open>Store_Interface\<close>: the operations the handlers call.
  \<^item> \<open>Pg_Tables\<close>: the tables and constraints of the three migrations, and SQL statements as functions
    that fail or give the number of rows. \<open>Pg_Codec\<close>, \<open>Pg_Store\<close>: every method of \<open>postgres.go\<close>
    (\<open>pg_\<close> and the name of the method), the transactions \<open>withTx\<close> and the expiry worker.
    \<open>Redis_Store\<close>: \<open>redis.go\<close> over the locale \<open>redis_server\<close>.
  \<^item> \<open>Start_Up\<close>: \<open>cmd/server/main.go\<close>, from the environment to the call of \<open>ListenAndServe\<close> or an exit.
    \<open>Shutdown\<close>: the rest of \<open>main\<close> as a transition system of clients, clock, waiting goroutine and main
    goroutine; a listener that fails is a step of it. \<open>Source_Check\<close>: \<open>tools/sourcecheck/main.go\<close>.

  \<^bold>\<open>What the lemmas show.\<close> \<open>Session_Lifecycle\<close> states the contract of the session table: a session
  moves from pending to active and then to one of four final states (\<open>session_step\<close>), a table moves
  row by row (\<open>table_step\<close>), and \<open>table_inv\<close> bounds open sessions and controllers. \<open>Session_Safety\<close>,
  \<open>Device_Safety\<close> and \<open>Account_Safety\<close> give each handler case rules (one case per branch of the code)
  and prove that it keeps its part of the invariant; \<open>Service_Inv\<close> puts the parts together for every
  endpoint; \<open>Service_Run\<close> is the transition system of requests, phases of registrations and logins
  around their password hash, connection events and reorderings of maps. \<open>Nonces\<close> shows that no step
  but the drawing of a challenge adds a nonce. \<open>Session_Consent\<close> follows who can widen rights, \<open>Ownership\<close> whose
  records a request changes, \<open>Reply_Types\<close> which statuses and bodies an endpoint answers with (rules
  that follow the text of a handler, for any reply type) and \<open>Disclosure\<close> whose records the bodies
  show. \<open>Store_Effects\<close> lifts a preorder on stores that all methods but \<open>UpdatePassword\<close> respect to
  every request (locale \<open>store_relation\<close>), \<open>Mail_Flows\<close> follows a code or token from its e-mail to its
  confirmation in any store with the contract \<open>mail_store\<close>. \<open>Shutdown\<close> derives progress from weak fairness
  (\<open>leads_to\<close>). \<open>Demo_State\<close> is the concrete service on which the witnesses run. The theories ending in \<open>_Claims\<close> hold the properties.
  For PostgreSQL, \<open>Pg_Schema\<close> proves in the locale \<open>schema_table\<close>, interpreted for all thirteen
  tables, that statements keep the constraints; \<open>Pg_Run\<close> lifts that to runs of the methods with
  arbitrary arguments, clocks and network outcomes. \<open>Pg_Keyed\<close> extends \<open>schema_table\<close> to
  \<open>keyed_table\<close>, a table and a Go map that hold the same rows, interpreted for six tables, and
  \<open>Pg_Refines\<close> simulates the thirteen calls on them in the memory store, call by call; \<open>regular\<close>
  states the calls on which the two agree.
  \<open>Findings\<close> shows where the code does not do what it means to.

  \<^bold>\<open>Parameters and hypotheses.\<close> Code outside the repository is an argument: the hashes, signatures,
  AES-GCM, the random source and the JSON of claims (\<open>env\<close>), the JSON decoder of bodies (\<open>json_codec\<close>), the
  websocket handshake with the status of its refusals, the AI provider (\<open>world\<close>), collation, text encoding and scan
  order of PostgreSQL (\<open>pg_env\<close>), the outcome of each network round trip (\<open>round_trip\<close>, \<open>tx_net\<close>,
  \<open>pipe_net\<close>), the Redis server (\<open>redis_server\<close>), the Go parser. The hypotheses are documented
  behaviour: \<open>fresh_draws\<close> (the random identifiers of one request are unused), \<open>scan_ok\<close> (a scan
  returns each row once), the laws of sorted sets and expiring keys in \<open>redis_server\<close>, and for the
  shutdown that goroutines are scheduled and time passes (\<open>weakly_fair\<close>); each has a concrete instance
  in a witness. The rate limiter of \<open>redis.go\<close> is stated for one clock: the server's expiry and the
  scores the clients write count the same milliseconds. The instance of \<open>redis_server\<close> is a small model of that server,
  since its code is not part of the repository.

  \<^bold>\<open>Bounds and loops.\<close> Range loops are recursion over the association list. \<open>withTx\<close> makes its three
  attempts by counting down from 3, so every run ends. Loops without an end (the connection reader,
  the ticker of the worker, the wait for a signal) are modelled as steps, and the properties hold for
  any number of them. Times and counters that Go keeps in 64 bits are reduced (\<open>int64\<close>) where a
  caller controls their size.

  \<^bold>\<open>Not modelled.\<close> Log output; TLS and the HTTP framing; pings and write deadlines of a websocket;
  \<open>Close\<close> of the pools and publishing to Redis, which only call the driver; the interleaving of two
  handlers inside each other (the mutex makes most of them one step, and \<open>service_step\<close> lets a
  registration or a login release it for the hash; the handlers of \<open>teams.go\<close>,
  \<open>totp.go\<close>, \<open>email.go\<close>, \<open>workflows.go\<close> and \<open>ai.go\<close> record without it, see the findings), and of two SQL
  statements (each runs alone). The clients in other languages are outside this development.
\<close>

end
